theory Spec2Isabelle
  imports Main "HOL-Library.Sublist"
begin

section \<open>JavaScript values and strings\<close>

text \<open>
  Strings are lists of characters. The values that reach the comparison are the ones a
  JSON configuration file and the page extraction can produce: \<open>undefined\<close> (a missing
  field), \<open>null\<close>, booleans, numbers and strings. The numbers modelled are the safe
  integers: the integral numbers of magnitude at most \<open>2^53 - 1\<close>, each of which is
  exactly one double and is printed by \<open>String(n)\<close> as its plain decimal numeral. From
  \<open>2^53\<close> on \<open>String(n)\<close> prints the shortest digits that read back as the same
  double, and from \<open>10^21\<close> on it uses an exponent; such numbers, and the non-integral
  ones, are outside the model, and what is proved of \<open>String\<close> on a number is proved
  for the safe integers only.
\<close>

datatype js_value = JUndefined | JNull | JBool bool | JNum int | JStr string

text \<open>\<open>s.includes(k)\<close>: \<open>k\<close> occurs in \<open>s\<close> as a contiguous, case-sensitive substring.\<close>

definition str_includes :: "string \<Rightarrow> string \<Rightarrow> bool" where
  "str_includes s k = sublist k s"

text \<open>The white space and line terminators that \<open>String.prototype.trim\<close> strips,
  among the characters below 256: TAB, LF, VT, FF, CR, SP and NBSP.\<close>

definition is_ws :: "char \<Rightarrow> bool" where
  "is_ws c = (c \<in> {CHR 0x09, CHR 0x0A, CHR 0x0B, CHR 0x0C, CHR 0x0D, CHR 0x20, CHR 0xA0})"

definition trim :: "string \<Rightarrow> string" where
  "trim s = rev (dropWhile is_ws (rev (dropWhile is_ws s)))"

definition digit_char :: "nat \<Rightarrow> char" where
  "digit_char d = ''0123456789'' ! d"

fun nat_to_string :: "nat \<Rightarrow> string" where
  "nat_to_string n =
     (if n < 10 then [digit_char n] else nat_to_string (n div 10) @ [digit_char (n mod 10)])"

declare nat_to_string.simps [simp del]

text \<open>\<open>String(v)\<close>; on a number it is the text of \<open>String(n)\<close> when \<open>n\<close> is a safe
  integer.\<close>

fun String :: "js_value \<Rightarrow> string" where
  "String JUndefined = ''undefined''"
| "String JNull = ''null''"
| "String (JBool b) = (if b then ''true'' else ''false'')"
| "String (JNum n) = (if n < 0 then ''-'' @ nat_to_string (nat (- n)) else nat_to_string (nat n))"
| "String (JStr s) = s"

text \<open>\<open>v == null\<close>: true of \<open>null\<close> and of \<open>undefined\<close> only.\<close>

fun eq_null :: "js_value \<Rightarrow> bool" where
  "eq_null JUndefined = True"
| "eq_null JNull = True"
| "eq_null _ = False"

text \<open>\<open>Number.isSafeInteger(n)\<close> for an integral \<open>n\<close>, and the values whose number, if
  they are one, is a safe integer.\<close>

definition isSafeInteger :: "int \<Rightarrow> bool" where
  "isSafeInteger n = (- 9007199254740991 \<le> n \<and> n \<le> 9007199254740991)"

fun safe_value :: "js_value \<Rightarrow> bool" where
  "safe_value (JNum n) = isSafeInteger n"
| "safe_value _ = True"

section \<open>Configuration entries and change records\<close>

record entry =
  url :: string
  css_selector :: string
  current_value :: js_value

text \<open>
  A change record as \<open>ChangeDetector.processEntry\<close> builds it. The time stamps are left
  out; \<open>entry\<close> is optional because \<open>StateManager.updateConfigValues\<close> checks for it.
\<close>

record change_record =
  entry :: "entry option"
  hasChanged :: bool
  oldValue :: js_value
  newValue :: js_value

text \<open>A configuration as \<open>loadConfig\<close> returns it: the targets and the webhook, which
  may be missing.\<close>

record config =
  cfg_targets :: "entry list"
  slack_webhook :: "string option"

section \<open>ChangeDetector\<close>

definition detectChange :: "js_value \<Rightarrow> js_value \<Rightarrow> bool" where
  "detectChange currentValue storedValue =
     (if eq_null currentValue \<and> eq_null storedValue then False
      else if eq_null currentValue \<or> eq_null storedValue then True
      else trim (String currentValue) \<noteq> trim (String storedValue))"

definition createChangeRecord :: "entry \<Rightarrow> js_value \<Rightarrow> js_value \<Rightarrow> change_record" where
  "createChangeRecord e old new =
     \<lparr>entry = Some e, hasChanged = True, oldValue = old, newValue = new\<rparr>"

definition processEntry :: "entry \<Rightarrow> js_value \<Rightarrow> change_record" where
  "processEntry e extractedValue =
     (let changed = detectChange extractedValue (current_value e) in
      if \<not> changed then
        \<lparr>entry = Some e, hasChanged = False, oldValue = current_value e,
         newValue = extractedValue\<rparr>
      else createChangeRecord e (current_value e) extractedValue)"

section \<open>ErrorHandler\<close>

datatype error_type =
  CONFIG_ERROR | CHROME_ERROR | BROWSER_ERROR | PAGE_ERROR | EXTRACTION_ERROR
  | NOTIFICATION_ERROR | PERSISTENCE_ERROR | WORKFLOW_ERROR | TARGET_ERROR

datatype severity = CRITICAL | HIGH | MEDIUM | LOW

text \<open>A thrown \<open>Error\<close> object: its \<open>name\<close> and its \<open>message\<close>.\<close>

record js_error =
  name :: string
  message :: string

text \<open>\<open>new Error(m)\<close>.\<close>

definition new_Error :: "string \<Rightarrow> js_error" where
  "new_Error m = \<lparr>name = ''Error'', message = m\<rparr>"

text \<open>The \<open>context\<close> argument: the hints \<open>context.type\<close> and \<open>context.operation\<close>, each
  possibly absent, and the entry some callers attach.\<close>

record error_context =
  ctx_type :: "string option"
  operation :: "string option"
  ctx_entry :: "entry option"

record categorized_error =
  etype :: error_type
  severity :: severity
  category :: string
  userMessage :: string
  technicalMessage :: string
  suggestions :: "string list"

definition getConfigErrorMessage :: "string \<Rightarrow> string" where
  "getConfigErrorMessage msg =
     (if str_includes msg ''not found''
        then ''Configuration file not found. Please check the file path.''
      else if str_includes msg ''Invalid JSON''
        then ''Configuration file contains invalid JSON. Please check the file format.''
      else if str_includes msg ''Missing required field''
        then ''Configuration file is missing required fields. Please check the file structure.''
      else ''Configuration file error. Please check your input file.'')"

definition getConfigErrorSuggestions :: "string \<Rightarrow> string list" where
  "getConfigErrorSuggestions msg =
     [''Verify the configuration file path is correct'']
     @ (if str_includes msg ''Invalid JSON''
          then [''Use a JSON validator to check file syntax'',
                ''Ensure all strings are properly quoted'']
          else [])
     @ (if str_includes msg ''Missing required field''
          then [''Ensure each entry has url, css_selector, and current_value fields'']
          else [])"

definition getChromeErrorMessage :: "string \<Rightarrow> string" where
  "getChromeErrorMessage msg =
     (if str_includes msg ''port'' \<and> str_includes msg ''in use''
        then ''Chrome debug port is already in use. Please close existing Chrome instances.''
      else if str_includes msg ''launch''
        then ''Failed to launch Chrome browser. Please check Chrome installation.''
      else ''Chrome browser error occurred.'')"

definition getChromeErrorSuggestions :: "string \<Rightarrow> string list" where
  "getChromeErrorSuggestions msg =
     (if str_includes msg ''port''
        then [''Close any existing Chrome instances'',
              ''Check if another application is using port 9222'']
        else [])
     @ (if str_includes msg ''launch''
          then [''Verify Chrome is installed and accessible'',
                ''Check system permissions for launching applications'']
          else [])"

definition getBrowserErrorMessage :: "string \<Rightarrow> string" where
  "getBrowserErrorMessage msg =
     (if str_includes msg ''connect''
        then ''Failed to connect to Chrome browser. The browser may not be ready.''
      else ''Browser connection error occurred.'')"

definition getBrowserErrorSuggestions :: "string \<Rightarrow> string list" where
  "getBrowserErrorSuggestions msg =
     [''Wait a moment and try again'',
      ''Ensure Chrome launched successfully'',
      ''Check if Chrome debug port is accessible'']"

definition getPageErrorMessage :: "string \<Rightarrow> string" where
  "getPageErrorMessage msg =
     (if str_includes msg ''timeout''
        then ''Page failed to load within the timeout period.''
      else if str_includes msg ''net::ERR''
        then ''Network error occurred while loading the page.''
      else ''Page navigation error occurred.'')"

definition getPageErrorSuggestions :: "string \<Rightarrow> string list" where
  "getPageErrorSuggestions msg =
     [''Check your internet connection'']
     @ (if str_includes msg ''timeout''
          then [''The website may be slow - try increasing timeout'',
                ''Verify the URL is correct and accessible'']
          else [])"

definition getExtractionErrorMessage :: "string \<Rightarrow> string" where
  "getExtractionErrorMessage msg =
     (if str_includes msg ''selector'' \<and> str_includes msg ''not found''
        then ''The specified CSS selector was not found on the page.''
      else if str_includes msg ''timeout''
        then ''Element selection timed out - the element may not exist or load slowly.''
      else ''Failed to extract content from the page element.'')"

definition getExtractionErrorSuggestions :: "string \<Rightarrow> string list" where
  "getExtractionErrorSuggestions msg =
     (if str_includes msg ''selector''
        then [''Verify the CSS selector is correct'',
              ''Check if the page structure has changed'',
              ''Use browser developer tools to test the selector'']
        else [])
     @ (if str_includes msg ''timeout''
          then [''The element may load dynamically - try increasing timeout'']
          else [])"

definition getNotificationErrorMessage :: "string \<Rightarrow> string" where
  "getNotificationErrorMessage msg =
     (if str_includes msg ''webhook''
        then ''Failed to send Slack notification. Check webhook URL and network connection.''
      else ''Notification delivery failed.'')"

definition getNotificationErrorSuggestions :: "string \<Rightarrow> string list" where
  "getNotificationErrorSuggestions msg =
     [''Verify the Slack webhook URL is correct'',
      ''Check your internet connection'',
      ''Ensure the Slack workspace allows webhook notifications'']"

definition getPersistenceErrorMessage :: "string \<Rightarrow> string" where
  "getPersistenceErrorMessage msg =
     (if str_includes msg ''permission'' \<or> str_includes msg ''EACCES''
        then ''Permission denied when trying to save configuration file.''
      else if str_includes msg ''ENOSPC''
        then ''Not enough disk space to save configuration file.''
      else ''Failed to save configuration changes.'')"

definition getPersistenceErrorSuggestions :: "string \<Rightarrow> string list" where
  "getPersistenceErrorSuggestions msg =
     (if str_includes msg ''permission''
        then [''Check file and directory permissions'',
              ''Ensure you have write access to the configuration file'']
        else [])
     @ (if str_includes msg ''ENOSPC'' then [''Free up disk space''] else [])"

text \<open>
  The guards of \<open>categorizeError\<close>, one per rule and in the order of the source; each
  reads the message text (and, for the first, \<open>context.type\<close>).
\<close>

definition configRule :: "string \<Rightarrow> error_context \<Rightarrow> bool" where
  "configRule msg ctx =
     (str_includes msg ''Configuration'' \<or> str_includes msg ''Invalid JSON''
      \<or> str_includes msg ''Missing required field'' \<or> str_includes msg ''Config load failed''
      \<or> (str_includes msg ''not found'' \<and> ctx_type ctx = Some ''config''))"

definition chromeRule :: "string \<Rightarrow> bool" where
  "chromeRule msg =
     (str_includes msg ''Chrome''
      \<and> (str_includes msg ''launch'' \<or> str_includes msg ''port'' \<or> str_includes msg ''debug''))"

definition browserRule :: "string \<Rightarrow> bool" where
  "browserRule msg =
     (str_includes msg ''connect'' \<or> str_includes msg ''CDP'' \<or> str_includes msg ''browser'')"

definition pageRule :: "string \<Rightarrow> bool" where
  "pageRule msg =
     (str_includes msg ''Navigation'' \<or> str_includes msg ''timeout''
      \<or> str_includes msg ''net::ERR'' \<or> str_includes msg ''load'')"

definition extractionRule :: "string \<Rightarrow> bool" where
  "extractionRule msg =
     (str_includes msg ''selector'' \<or> str_includes msg ''element''
      \<or> str_includes msg ''textContent'' \<or> str_includes msg ''extract'')"

definition notificationRule :: "string \<Rightarrow> bool" where
  "notificationRule msg =
     (str_includes msg ''Slack'' \<or> str_includes msg ''webhook''
      \<or> str_includes msg ''notification'')"

definition persistenceRule :: "string \<Rightarrow> bool" where
  "persistenceRule msg =
     (str_includes msg ''persist'' \<or> str_includes msg ''write''
      \<or> str_includes msg ''permission'' \<or> str_includes msg ''EACCES'')"

text \<open>\<open>error.message || "Unknown error"\<close>.\<close>

definition message_or_unknown :: "js_error \<Rightarrow> string" where
  "message_or_unknown error = (if message error = [] then ''Unknown error'' else message error)"

text \<open>\<open>categorizeError(error, context)\<close>: the first rule whose guard holds decides.\<close>

definition categorizeError :: "js_error \<Rightarrow> error_context \<Rightarrow> categorized_error" where
  "categorizeError error ctx =
     (let msg = message_or_unknown error in
      if configRule msg ctx
      then \<lparr>etype = CONFIG_ERROR, severity = CRITICAL, category = ''Configuration'',
            userMessage = getConfigErrorMessage msg, technicalMessage = msg,
            suggestions = getConfigErrorSuggestions msg\<rparr>
      else if chromeRule msg
      then \<lparr>etype = CHROME_ERROR, severity = CRITICAL, category = ''Chrome Browser'',
            userMessage = getChromeErrorMessage msg, technicalMessage = msg,
            suggestions = getChromeErrorSuggestions msg\<rparr>
      else if browserRule msg
      then \<lparr>etype = BROWSER_ERROR, severity = CRITICAL, category = ''Browser Connection'',
            userMessage = getBrowserErrorMessage msg, technicalMessage = msg,
            suggestions = getBrowserErrorSuggestions msg\<rparr>
      else if pageRule msg
      then \<lparr>etype = (if operation ctx = Some ''processMonitoringTarget''
                     then TARGET_ERROR else PAGE_ERROR),
            severity = HIGH, category = ''Page Navigation'',
            userMessage = getPageErrorMessage msg, technicalMessage = msg,
            suggestions = getPageErrorSuggestions msg\<rparr>
      else if extractionRule msg
      then \<lparr>etype = EXTRACTION_ERROR, severity = MEDIUM, category = ''Element Extraction'',
            userMessage = getExtractionErrorMessage msg, technicalMessage = msg,
            suggestions = getExtractionErrorSuggestions msg\<rparr>
      else if notificationRule msg
      then \<lparr>etype = NOTIFICATION_ERROR, severity = MEDIUM, category = ''Slack Notification'',
            userMessage = getNotificationErrorMessage msg, technicalMessage = msg,
            suggestions = getNotificationErrorSuggestions msg\<rparr>
      else if persistenceRule msg
      then \<lparr>etype = PERSISTENCE_ERROR, severity = CRITICAL, category = ''File Operations'',
            userMessage = getPersistenceErrorMessage msg, technicalMessage = msg,
            suggestions = getPersistenceErrorSuggestions msg\<rparr>
      else \<lparr>etype = WORKFLOW_ERROR, severity = HIGH, category = ''General'',
            userMessage = ''An unexpected error occurred: '' @ msg, technicalMessage = msg,
            suggestions = [''Check the logs for more details'',
                           ''Try running the command again'']\<rparr>)"

definition shouldStopWorkflow :: "categorized_error \<Rightarrow> bool" where
  "shouldStopWorkflow categorizedError = (severity categorizedError = CRITICAL)"

text \<open>
  The handler's state: the records it keeps for \<open>getErrorStats\<close> and the calls it makes
  to its logger, each with the logger method used. (\<open>errorCounts\<close> is the number of
  records of each type and is not kept apart.)
\<close>

datatype log_level = LogError | LogWarn | LogInfo

record error_handler =
  sessionErrors :: "(categorized_error \<times> error_context \<times> js_error) list"
  logged :: "(log_level \<times> string) list"

text \<open>\<open>showSuggestions\<close>: the lines it passes to \<open>logger.info\<close>; numbering starts at 1.\<close>

fun numbered :: "nat \<Rightarrow> string list \<Rightarrow> string list" where
  "numbered i [] = []"
| "numbered i (x # xs) = (''  '' @ nat_to_string (i + 1) @ ''. '' @ x) # numbered (i + 1) xs"

definition showSuggestions :: "string list \<Rightarrow> (log_level \<times> string) list" where
  "showSuggestions sugg =
     (if sugg \<noteq> [] then
        (LogInfo, ''Suggestions to resolve this issue:'') # map (Pair LogInfo) (numbered 0 sugg)
      else [])"

definition severity_line :: "categorized_error \<Rightarrow> log_level \<times> string" where
  "severity_line c =
     (case severity c of
        CRITICAL \<Rightarrow> (LogError, ''CRITICAL '' @ category c @ '' Error: '' @ userMessage c)
      | HIGH \<Rightarrow> (LogError, category c @ '' Error: '' @ userMessage c)
      | MEDIUM \<Rightarrow> (LogWarn, category c @ '' Warning: '' @ userMessage c)
      | LOW \<Rightarrow> (LogWarn, category c @ '' Notice: '' @ userMessage c))"

definition handleError ::
  "js_error \<Rightarrow> error_context \<Rightarrow> error_handler \<Rightarrow> categorized_error \<times> error_handler" where
  "handleError error ctx h =
     (let categorizedError = categorizeError error ctx;
          h1 = h\<lparr>sessionErrors := sessionErrors h @ [(categorizedError, ctx, error)]\<rparr>;
          h2 = h1\<lparr>logged := logged h1 @ [severity_line categorizedError]\<rparr>;
          h3 = (if severity categorizedError = CRITICAL \<or> severity categorizedError = HIGH
                then h2\<lparr>logged := logged h2 @ showSuggestions (suggestions categorizedError)\<rparr>
                else h2)
      in (categorizedError, h3))"

section \<open>PageMonitor\<close>

definition dq :: string where
  "dq = [CHR 0x22]"

text \<open>
  What a Playwright page answers during one visit: the outcome of \<open>goto\<close>, of
  \<open>waitForSelector\<close> (an element handle or \<open>null\<close>), of \<open>textContent\<close> (a string or
  \<open>null\<close>), of \<open>isClosed\<close> and of \<open>close\<close>. A rejected call is its error.
\<close>

record page =
  goto_result :: "js_error option"
  waitForSelector_result :: "js_error + bool"
  textContent_result :: "js_error + string option"
  isClosed_result :: "js_error + bool"
  close_result :: "js_error option"

definition defaultTimeout :: nat where
  "defaultTimeout = 10000"

definition handleNavigationError :: "js_error \<Rightarrow> string \<Rightarrow> string \<Rightarrow> js_error" where
  "handleNavigationError error u selector =
     (let errorMessage = message_or_unknown error in
      if name error = ''TimeoutError'' then
        (if str_includes errorMessage ''Navigation timeout'' then
           new_Error (''Navigation timeout: Failed to load '' @ dq @ u @ dq
                      @ '' within timeout period'')
         else if str_includes errorMessage ''waiting for selector'' then
           new_Error (''Element timeout: Selector '' @ dq @ selector @ dq @ '' not found on ''
                      @ dq @ u @ dq @ '' within timeout period'')
         else new_Error (''Timeout error on '' @ dq @ u @ dq @ '': '' @ errorMessage))
      else if str_includes errorMessage ''net::ERR_'' then
        new_Error (''Network error loading '' @ dq @ u @ dq @ '': '' @ errorMessage)
      else if str_includes errorMessage ''Invalid CSS selector'' then
        new_Error (''Invalid CSS selector '' @ dq @ selector @ dq @ '': '' @ errorMessage)
      else if str_includes errorMessage ''No text content found'' then
        new_Error (''No text content found for selector '' @ dq @ selector @ dq @ '' on ''
                   @ dq @ u @ dq)
      else new_Error (''Page monitoring error for '' @ dq @ u @ dq @ '' with selector ''
                      @ dq @ selector @ dq @ '': '' @ errorMessage))"

text \<open>The \<open>catch\<close> block of \<open>waitForSelector\<close>: every failure leaves as a fresh \<open>Error\<close>.\<close>

definition waitForSelector_catch :: "js_error \<Rightarrow> string \<Rightarrow> nat \<Rightarrow> js_error" where
  "waitForSelector_catch error selector timeout =
     (if name error = ''TimeoutError'' then
        new_Error (''Timeout waiting for selector '' @ dq @ selector @ dq @ '' after ''
                   @ nat_to_string timeout @ ''ms'')
      else new_Error (''Failed to wait for selector '' @ dq @ selector @ dq @ '': ''
                      @ message error))"

definition waitForSelector :: "page option \<Rightarrow> string \<Rightarrow> nat \<Rightarrow> js_error + unit" where
  "waitForSelector pg selector timeout =
     (case pg of
        None \<Rightarrow>
          Inl (waitForSelector_catch (new_Error ''Page instance is required'') selector timeout)
      | Some p \<Rightarrow>
          if selector = [] then
            Inl (waitForSelector_catch (new_Error ''Valid CSS selector is required'')
                   selector timeout)
          else
            (case waitForSelector_result p of
               Inl e \<Rightarrow> Inl (waitForSelector_catch e selector timeout)
             | Inr element \<Rightarrow>
                 if \<not> element then
                   Inl (waitForSelector_catch
                          (new_Error (''Element with selector '' @ dq @ selector @ dq
                                      @ '' not found within '' @ nat_to_string timeout @ ''ms''))
                          selector timeout)
                 else Inr ()))"

definition extractTextContent_catch :: "js_error \<Rightarrow> string \<Rightarrow> js_error" where
  "extractTextContent_catch error selector =
     new_Error (''Failed to extract text content from selector '' @ dq @ selector @ dq
                @ '': '' @ message error)"

definition extractTextContent :: "page option \<Rightarrow> string \<Rightarrow> js_error + string" where
  "extractTextContent pg selector =
     (case pg of
        None \<Rightarrow> Inl (extractTextContent_catch (new_Error ''Page instance is required'') selector)
      | Some p \<Rightarrow>
          if selector = [] then
            Inl (extractTextContent_catch (new_Error ''Valid CSS selector is required'') selector)
          else
            (case textContent_result p of
               Inl e \<Rightarrow> Inl (extractTextContent_catch e selector)
             | Inr None \<Rightarrow>
                 Inl (extractTextContent_catch
                        (new_Error (''No text content found for selector '' @ dq @ selector @ dq))
                        selector)
             | Inr (Some textContent) \<Rightarrow> Inr (trim textContent)))"

text \<open>
  \<open>navigateAndExtract(page, url, selector)\<close>, called without options, so with the
  default timeouts. Whatever is thrown inside passes through \<open>handleNavigationError\<close>.
  (The monitor also reports each failure to an error handler of its own, which nothing
  else reads.)
\<close>

definition navigateAndExtract :: "page option \<Rightarrow> string \<Rightarrow> string \<Rightarrow> js_error + string" where
  "navigateAndExtract pg u selector =
     (let body =
        (case pg of
           None \<Rightarrow> Inl (new_Error ''Page instance is required'')
         | Some p \<Rightarrow>
             if u = [] then Inl (new_Error ''Valid URL is required'')
             else if selector = [] then Inl (new_Error ''Valid CSS selector is required'')
             else
               (case goto_result p of
                  Some e \<Rightarrow> Inl e
                | None \<Rightarrow>
                    (case waitForSelector pg selector defaultTimeout of
                       Inl e \<Rightarrow> Inl e
                     | Inr _ \<Rightarrow> extractTextContent pg selector)))
      in case body of
           Inl error \<Rightarrow> Inl (handleNavigationError error u selector)
         | Inr textContent \<Rightarrow> Inr textContent)"

section \<open>BrowserController\<close>

text \<open>The browser as one target meets it: whether the controller is connected, and what
  \<open>context.newPage()\<close> gives.\<close>

record browser =
  connected :: bool
  newPage_result :: "js_error + page"

definition createPage :: "browser \<Rightarrow> js_error + page" where
  "createPage b =
     (let body =
        (if \<not> connected b then
           Inl (new_Error ''Browser is not connected. Call connect() first.'')
         else newPage_result b)
      in case body of
           Inl error \<Rightarrow> Inl (new_Error (''Failed to create page: '' @ message error))
         | Inr p \<Rightarrow> Inr p)"

text \<open>
  \<open>closePage(page)\<close>: the result (a thrown error or a normal return) and what it logs.
  The body may throw at \<open>isClosed\<close> or at \<open>close\<close>; the \<open>catch\<close> block logs a warning.
\<close>

definition closePage :: "page option \<Rightarrow> (js_error + unit) \<times> (log_level \<times> string) list" where
  "closePage pg =
     (let body =
        (case pg of
           None \<Rightarrow> Inr ()
         | Some p \<Rightarrow>
             (case isClosed_result p of
                Inl e \<Rightarrow> Inl e
              | Inr closed \<Rightarrow>
                  if \<not> closed then
                    (case close_result p of Some e \<Rightarrow> Inl e | None \<Rightarrow> Inr ())
                  else Inr ()))
      in case body of
           Inl error \<Rightarrow> (Inr (), [(LogWarn, ''Failed to close page: '' @ message error)])
         | Inr _ \<Rightarrow> (Inr (), []))"

section \<open>MonitoringWorkflow: one target\<close>

text \<open>What happens to page handles while a target is processed.\<close>

datatype page_event = PageAcquired | ClosePageCalled | PageCloseRequested

text \<open>
  \<open>try { ... } finally { ... }\<close>: the finalizer runs after the body whatever the body did;
  if the finalizer throws, its error replaces the body's outcome.
\<close>

definition try_finally :: "('e + 'a) \<Rightarrow> ('e + unit) \<Rightarrow> 'e + 'a" where
  "try_finally body finalizer = (case finalizer of Inl e \<Rightarrow> Inl e | Inr _ \<Rightarrow> body)"

text \<open>
  \<open>processMonitoringTarget(entry)\<close>: the outcome, the page events in order and the
  warnings logged by the cleanup.
\<close>

definition processMonitoringTarget ::
  "browser \<Rightarrow> entry \<Rightarrow> (js_error + change_record) \<times> page_event list \<times> (log_level \<times> string) list"
  where
  "processMonitoringTarget b e =
     (case createPage b of
        Inl error \<Rightarrow> (try_finally (Inl error) (Inr ()), [], [])
      | Inr p \<Rightarrow>
          (let body =
             (case navigateAndExtract (Some p) (url e) (css_selector e) of
                Inl error \<Rightarrow> Inl error
              | Inr extractedValue \<Rightarrow> Inr (processEntry e (JStr extractedValue)));
               cleanup = closePage (Some p);
               requested =
                 (if isClosed_result p = Inr False then [PageCloseRequested] else [])
           in (try_finally body (fst cleanup),
               [PageAcquired, ClosePageCalled] @ requested, snd cleanup)))"

section \<open>Texts that do not sway the classifier\<close>

text \<open>
  The messages of \<open>PageMonitor\<close> quote the URL and the selector, and the classifier reads
  the whole message. \<open>critical_text t ctx\<close>: the text \<open>t\<close> holds a keyword of one of the
  three CRITICAL rules that come first. \<open>neutral_text t ctx\<close>: it holds no keyword of
  the four rules that come before the extraction rule.
\<close>

definition critical_text :: "string \<Rightarrow> error_context \<Rightarrow> bool" where
  "critical_text t ctx = (configRule t ctx \<or> str_includes t ''Chrome'' \<or> browserRule t)"

definition neutral_text :: "string \<Rightarrow> error_context \<Rightarrow> bool" where
  "neutral_text t ctx = (\<not> critical_text t ctx \<and> \<not> pageRule t)"

text \<open>The message \<open>waitForSelector\<close> throws when Playwright's wait times out, at the
  default timeout.\<close>

definition timeout_wait_message :: "string \<Rightarrow> string" where
  "timeout_wait_message selector =
     ''Timeout waiting for selector '' @ dq @ selector @ dq @ '' after 10000ms''"

text \<open>
  The wording of the message of a \<open>TimeoutError\<close> that \<open>page.goto\<close> rejects with, as far
  as it takes the failure to the page-navigation rule: \<open>handleNavigationError\<close> keeps
  none of the text when it holds \<open>Navigation timeout\<close> or \<open>waiting for selector\<close>, and
  quotes all of it otherwise.
\<close>

definition goto_timeout_text :: "string \<Rightarrow> error_context \<Rightarrow> bool" where
  "goto_timeout_text m ctx =
     (str_includes m ''Navigation timeout''
      \<or> (str_includes m ''waiting for selector'' \<and> ctx_type ctx \<noteq> Some ''config'')
      \<or> (\<not> str_includes m ''waiting for selector'' \<and> \<not> critical_text m ctx \<and> pageRule m))"

section \<open>StateManager\<close>

text \<open>The lookup key of \<open>updateConfigValues\<close>: the template \<open>`${url}|${css_selector}`\<close>.\<close>

definition entry_key :: "entry \<Rightarrow> string" where
  "entry_key e = url e @ ''|'' @ css_selector e"

text \<open>
  The \<open>forEach\<close> that fills \<open>changeMap\<close>: a record without \<open>entry\<close> or with a false
  \<open>hasChanged\<close> is skipped; \<open>Map.set\<close> on a key already present replaces its value.
\<close>

fun changeMap_of :: "change_record list \<Rightarrow> (string \<rightharpoonup> js_value) \<Rightarrow> (string \<rightharpoonup> js_value)" where
  "changeMap_of [] m = m"
| "changeMap_of (c # cs) m =
     (case entry c of
        None \<Rightarrow> changeMap_of cs m
      | Some e \<Rightarrow>
          if \<not> hasChanged c then changeMap_of cs m
          else changeMap_of cs (m(entry_key e \<mapsto> newValue c)))"

text \<open>The body of the second \<open>forEach\<close>, on one copied entry.\<close>

definition apply_change :: "(string \<rightharpoonup> js_value) \<Rightarrow> entry \<Rightarrow> entry" where
  "apply_change m e =
     (case m (entry_key e) of Some v \<Rightarrow> e\<lparr>current_value := v\<rparr> | None \<Rightarrow> e)"

text \<open>
  \<open>updateConfigValues(targets, changes)\<close> on values. Both arguments are arrays by their
  type, so the two \<open>Array.isArray\<close> guards never throw. The JSON round trip rebuilds
  every entry with the same three field values (a missing field reads \<open>undefined\<close>
  before and after).
\<close>

definition updateConfigValues :: "entry list \<Rightarrow> change_record list \<Rightarrow> entry list" where
  "updateConfigValues targets changes =
     (let updatedTargets = targets;
          changeMap = changeMap_of changes Map.empty
      in map (apply_change changeMap) updatedTargets)"

text \<open>
  The same function over a store of entry objects, to see what it writes. An object is
  its index in the store; an array of entries is a list of indices; a change record
  refers to its entry object by index. \<open>JSON.parse(JSON.stringify(targets))\<close> reads
  every target and allocates one fresh object for each; the second \<open>forEach\<close> assigns
  \<open>current_value\<close> on the fresh objects.
\<close>

type_synonym store = "entry list"

record change_ref =
  ref_entry :: "nat option"
  ref_hasChanged :: bool
  ref_newValue :: js_value

definition deref_change :: "store \<Rightarrow> change_ref \<Rightarrow> change_record" where
  "deref_change h c =
     \<lparr>entry = map_option (\<lambda>a. h ! a) (ref_entry c), hasChanged = ref_hasChanged c,
      oldValue = JUndefined, newValue = ref_newValue c\<rparr>"

fun assign_values :: "(string \<rightharpoonup> js_value) \<Rightarrow> nat list \<Rightarrow> store \<Rightarrow> store" where
  "assign_values m [] h = h"
| "assign_values m (a # as) h =
     assign_values m as
       (case m (entry_key (h ! a)) of
          Some v \<Rightarrow> h[a := (h ! a)\<lparr>current_value := v\<rparr>]
        | None \<Rightarrow> h)"

definition updateConfigValues_store ::
  "store \<Rightarrow> nat list \<Rightarrow> change_ref list \<Rightarrow> store \<times> nat list" where
  "updateConfigValues_store h targets changes =
     (let h1 = h @ map (\<lambda>a. h ! a) targets;
          updatedTargets = [length h ..< length h + length targets];
          changeMap = changeMap_of (map (deref_change h1) changes) Map.empty
      in (assign_values changeMap updatedTargets h1, updatedTargets))"

text \<open>
  The configuration file as \<open>updateAndPersist\<close> meets it: the configuration it holds
  (what \<open>loadConfig\<close> reads, parses and validates), and the error thrown by
  \<open>loadConfig\<close>, by \<open>validateWritePermissions\<close> and by \<open>saveConfig\<close>, if any.
  \<open>saveConfig\<close> validates the configuration, checks the directory and writes the file;
  its error, if any, is the one that leaves its \<open>catch\<close> block.
\<close>

record fs_world =
  file_content :: config
  loadConfig_error :: "js_error option"
  validateWritePermissions_error :: "js_error option"
  saveConfig_error :: "js_error option"

definition loadConfig :: "fs_world \<Rightarrow> js_error + config" where
  "loadConfig fs = (case loadConfig_error fs of Some e \<Rightarrow> Inl e | None \<Rightarrow> Inr (file_content fs))"

text \<open>
  \<open>saveConfig(filePath, config)\<close>: the result and the writes of the file it has
  completed (none when it throws, one of the configuration given when it returns).
\<close>

definition saveConfig :: "fs_world \<Rightarrow> config \<Rightarrow> (js_error + unit) \<times> config list" where
  "saveConfig fs cfg =
     (case saveConfig_error fs of Some e \<Rightarrow> (Inl e, []) | None \<Rightarrow> (Inr (), [cfg]))"

definition persistConfig :: "fs_world \<Rightarrow> config \<Rightarrow> (js_error + unit) \<times> config list" where
  "persistConfig fs updatedConfig =
     (let body =
        (case validateWritePermissions_error fs of
           Some e \<Rightarrow> (Inl e, [])
         | None \<Rightarrow> saveConfig fs updatedConfig)
      in case body of
           (Inl error, written) \<Rightarrow>
             (Inl (new_Error (''Failed to persist configuration: '' @ message error)), written)
         | (Inr _, written) \<Rightarrow> (Inr (), written))"

text \<open>
  \<open>updateAndPersist(filePath, targets, changes)\<close>: the result and the writes of the
  file it has completed. The configuration saved is the one loaded from the file with
  its targets replaced by the updated ones.
\<close>

definition updateAndPersist ::
  "fs_world \<Rightarrow> entry list \<Rightarrow> change_record list \<Rightarrow> (js_error + entry list) \<times> config list"
  where
  "updateAndPersist fs targets changes =
     (let updatedTargets = updateConfigValues targets changes;
          body =
            (case loadConfig fs of
               Inl e \<Rightarrow> (Inl e, [])
             | Inr originalConfig \<Rightarrow>
                 (let updatedConfig = originalConfig\<lparr>cfg_targets := updatedTargets\<rparr> in
                  case persistConfig fs updatedConfig of
                    (Inl e, written) \<Rightarrow> (Inl e, written)
                  | (Inr _, written) \<Rightarrow> (Inr updatedTargets, written)))
      in case body of
           (Inl error, written) \<Rightarrow>
             (Inl (new_Error (''Failed to update and persist configuration: '' @ message error)),
              written)
         | (Inr updated, written) \<Rightarrow> (Inr updated, written))"

text \<open>No error is thrown by \<open>loadConfig\<close>, by \<open>validateWritePermissions\<close> or by
  \<open>saveConfig\<close> (whose validation of the configuration to save is among its checks).\<close>

definition fs_ok :: "fs_world \<Rightarrow> bool" where
  "fs_ok fs =
     (loadConfig_error fs = None \<and> validateWritePermissions_error fs = None
      \<and> saveConfig_error fs = None)"

text \<open>
  A change record takes part in the update when it has an entry and \<open>hasChanged\<close> is
  true; its key is then the key of its entry.
\<close>

definition effective :: "change_record \<Rightarrow> bool" where
  "effective c = (entry c \<noteq> None \<and> hasChanged c)"

definition change_key :: "change_record \<Rightarrow> string" where
  "change_key c = (case entry c of Some e \<Rightarrow> entry_key e | None \<Rightarrow> [])"

section \<open>SlackNotifier\<close>

text \<open>What \<open>axios.post\<close> does: a response with its status, or one of the three failures
  \<open>sendWebhook\<close> tells apart.\<close>

datatype axios_outcome =
  Response nat | HttpError nat string | NetworkError | OtherError string

definition sendWebhook :: "axios_outcome \<Rightarrow> js_error + bool" where
  "sendWebhook outcome =
     (case outcome of
        Response status \<Rightarrow> Inr (status = 200)
      | HttpError status data \<Rightarrow>
          Inl (new_Error (''Slack webhook failed with status '' @ nat_to_string status
                          @ '': '' @ data))
      | NetworkError \<Rightarrow> Inl (new_Error ''Network error sending Slack webhook'')
      | OtherError m \<Rightarrow> Inl (new_Error (''Slack webhook error: '' @ m)))"

text \<open>
  \<open>sendChangeNotification(changeRecord)\<close>: without a webhook URL it returns false at
  once; a failure of formatting (a record without entry) or of the webhook is caught,
  reported to the notifier's own error handler, and answered with false.
\<close>

definition sendChangeNotification ::
  "string \<Rightarrow> change_record \<Rightarrow> axios_outcome \<Rightarrow> js_error + bool" where
  "sendChangeNotification webhookUrl changeRecord outcome =
     (if webhookUrl = [] then Inr False
      else
        (let body =
           (case entry changeRecord of
              None \<Rightarrow> Inl (new_Error ''Cannot read properties of undefined'')
            | Some _ \<Rightarrow> sendWebhook outcome)
         in case body of Inl error \<Rightarrow> Inr False | Inr success \<Rightarrow> Inr success))"

section \<open>MonitoringWorkflow: the run\<close>

record session_error =
  se_type :: error_type
  se_message :: string
  se_entry :: "entry option"
  se_severity :: severity

record error_result =
  er_entry :: entry
  er_error :: string
  er_errorType :: error_type
  er_severity :: severity

text \<open>An element of \<open>session.results\<close>: what \<open>processEntry\<close> returned, or the record
  built in the \<open>catch\<close> block (whose \<open>hasChanged\<close> is false).\<close>

datatype session_result = ChangeResult change_record | ErrorResult error_result

fun result_hasChanged :: "session_result \<Rightarrow> bool" where
  "result_hasChanged (ChangeResult c) = hasChanged c"
| "result_hasChanged (ErrorResult _) = False"

text \<open>
  The calls of the run that the claims order: a target being attempted, a notification
  attempt starting and completing, \<open>updateAndPersist\<close> being called with the batch and
  returning normally.
\<close>

datatype wf_event =
  TargetAttempt nat
  | NotifyStart change_record
  | NotifyEnd change_record
  | PersistStart "change_record list"
  | PersistEnd

text \<open>
  The workflow object: the session's results and errors, the error handler, the webhook
  and the notifier; with them, what the run has done outside so far: its calls in order
  and the writes of the configuration file it has completed.
\<close>

record workflow =
  results :: "session_result list"
  errors :: "session_error list"
  errorHandler :: error_handler
  slackWebhook :: "string option"
  slackNotifier :: "string option"
  events :: "wf_event list"
  saved :: "config list"

text \<open>The world of one run: the browser as the i-th target meets it, the answer to the
  j-th webhook call, and the file system at persistence.\<close>

record run_world =
  browser_at :: "nat \<Rightarrow> browser"
  axios_at :: "nat \<Rightarrow> axios_outcome"
  fs :: fs_world

definition target_context :: "entry \<Rightarrow> error_context" where
  "target_context e =
     \<lparr>ctx_type = Some ''target'', operation = Some ''processMonitoringTarget'',
      ctx_entry = Some e\<rparr>"

text \<open>The \<open>catch\<close> block of the per-target loop, up to the decision to stop.\<close>

definition record_target_failure :: "js_error \<Rightarrow> entry \<Rightarrow> workflow \<Rightarrow> categorized_error \<times> workflow"
  where
  "record_target_failure error e wfl =
     (let (categorizedError, h) = handleError error (target_context e) (errorHandler wfl);
          errorResult = \<lparr>er_entry = e, er_error = message error,
                         er_errorType = etype categorizedError,
                         er_severity = severity categorizedError\<rparr>
      in (categorizedError,
          wfl\<lparr>results := results wfl @ [ErrorResult errorResult],
             errors := errors wfl @ [\<lparr>se_type = etype categorizedError,
                                     se_message = message error, se_entry = Some e,
                                     se_severity = severity categorizedError\<rparr>],
             errorHandler := h\<rparr>))"

text \<open>
  Step 1 of \<open>processMonitoringTargets\<close>: the \<open>for\<close> loop from index \<open>i\<close> over the targets
  still to visit, with the changes collected so far. \<open>Inl\<close> is the error re-thrown out
  of the loop.
\<close>

fun targets_loop ::
  "run_world \<Rightarrow> nat \<Rightarrow> entry list \<Rightarrow> change_record list \<Rightarrow> workflow
   \<Rightarrow> (js_error + change_record list) \<times> workflow" where
  "targets_loop w i [] changes wfl = (Inr changes, wfl)"
| "targets_loop w i (e # rest) changes wfl =
     (let wf0 = wfl\<lparr>events := events wfl @ [TargetAttempt i]\<rparr> in
      case fst (processMonitoringTarget (browser_at w i) e) of
        Inr result \<Rightarrow>
          targets_loop w (i + 1) rest
            (if hasChanged result then changes @ [result] else changes)
            (wf0\<lparr>results := results wf0 @ [ChangeResult result]\<rparr>)
      | Inl error \<Rightarrow>
          (let (categorizedError, wf1) = record_target_failure error e wf0 in
           if shouldStopWorkflow categorizedError then (Inl error, wf1)
           else targets_loop w (i + 1) rest changes wf1))"

text \<open>\<open>sendNotificationsForChanges\<close>, from the j-th webhook call on.\<close>

fun sendNotificationsForChanges ::
  "run_world \<Rightarrow> string \<Rightarrow> nat \<Rightarrow> change_record list \<Rightarrow> workflow \<Rightarrow> workflow" where
  "sendNotificationsForChanges w webhookUrl j [] wfl = wfl"
| "sendNotificationsForChanges w webhookUrl j (change # rest) wfl =
     (let wf0 = wfl\<lparr>events := events wfl @ [NotifyStart change]\<rparr>;
          wf1 =
            (case sendChangeNotification webhookUrl change (axios_at w j) of
               Inr sent \<Rightarrow> wf0
             | Inl notificationError \<Rightarrow>
                 (let (categorizedError, h) =
                        handleError notificationError
                          \<lparr>ctx_type = Some ''notification'',
                            operation = Some ''sendChangeNotification'',
                            ctx_entry = entry change\<rparr>
                          (errorHandler wf0)
                  in wf0\<lparr>errors := errors wf0 @ [\<lparr>se_type = etype categorizedError,
                              se_message = message notificationError,
                              se_entry = entry change,
                              se_severity = severity categorizedError\<rparr>],
                          errorHandler := h\<rparr>))
      in sendNotificationsForChanges w webhookUrl (j + 1) rest
           (wf1\<lparr>events := events wf1 @ [NotifyEnd change]\<rparr>))"

text \<open>Steps 2 and 3 of \<open>processMonitoringTargets\<close>, after the loop has completed.\<close>

definition notify_and_persist ::
  "run_world \<Rightarrow> entry list \<Rightarrow> change_record list \<Rightarrow> workflow \<Rightarrow> (js_error + unit) \<times> workflow"
  where
  "notify_and_persist w targets changes wfl =
     (let wf2 =
        (case slackNotifier wfl of
           Some webhookUrl \<Rightarrow>
             if changes \<noteq> [] then sendNotificationsForChanges w webhookUrl 0 changes wfl
             else wfl
         | None \<Rightarrow> wfl)
      in if changes \<noteq> [] then
           (let wf3 = wf2\<lparr>events := events wf2 @ [PersistStart changes]\<rparr> in
            case updateAndPersist (fs w) targets changes of
              (Inr _, written) \<Rightarrow>
                (Inr (), wf3\<lparr>events := events wf3 @ [PersistEnd],
                             saved := saved wf3 @ written\<rparr>)
            | (Inl error, written) \<Rightarrow>
                (let (categorizedError, h) =
                       handleError error
                         \<lparr>ctx_type = Some ''persistence'', operation = Some ''updateAndPersist'',
                           ctx_entry = None\<rparr>
                         (errorHandler wf3)
                 in (Inl error,
                     wf3\<lparr>errors := errors wf3 @ [\<lparr>se_type = etype categorizedError,
                              se_message = message error, se_entry = None,
                              se_severity = severity categorizedError\<rparr>],
                          errorHandler := h, saved := saved wf3 @ written\<rparr>)))
         else (Inr (), wf2))"

definition processMonitoringTargets ::
  "run_world \<Rightarrow> entry list \<Rightarrow> workflow \<Rightarrow> (js_error + unit) \<times> workflow" where
  "processMonitoringTargets w targets wfl =
     (case targets_loop w 0 targets [] wfl of
        (Inl error, wf1) \<Rightarrow> (Inl error, wf1)
      | (Inr changes, wf1) \<Rightarrow> notify_and_persist w targets changes wf1)"

text \<open>
  The session as the constructor and \<open>initialize(configPath, slackWebhook)\<close> leave it: a
  notifier (here: its webhook URL) exists only for a truthy webhook argument.
\<close>

definition truthy :: "string option \<Rightarrow> bool" where
  "truthy s = (case s of None \<Rightarrow> False | Some t \<Rightarrow> t \<noteq> [])"

definition initialize :: "string option \<Rightarrow> workflow" where
  "initialize webhook =
     \<lparr>results = [], errors = [],
      errorHandler = \<lparr>sessionErrors = [], logged = []\<rparr>,
      slackWebhook = webhook,
      slackNotifier = (if truthy webhook then webhook else None),
      events = [], saved = []\<rparr>"

text \<open>The part of the world \<open>execute\<close> meets before the loop: what \<open>loadConfig\<close> gives,
  and the errors of launching Chrome and of connecting to it, if any.\<close>

record startup_world =
  loadConfig_result :: "js_error + config"
  launch_error :: "js_error option"
  connect_error :: "js_error option"

text \<open>"Use slack webhook from config if not provided via CLI".\<close>

definition use_config_webhook :: "config \<Rightarrow> workflow \<Rightarrow> workflow" where
  "use_config_webhook cfg wfl =
     (if \<not> truthy (slackWebhook wfl) then
        (let configSlackWebhook = slack_webhook cfg in
         if truthy configSlackWebhook then
           wfl\<lparr>slackWebhook := configSlackWebhook, slackNotifier := configSlackWebhook\<rparr>
         else wfl)
      else wfl)"

text \<open>The \<open>try\<close> block of \<open>execute()\<close>, from the session \<open>initialize\<close> left.\<close>

definition execute_body ::
  "startup_world \<Rightarrow> run_world \<Rightarrow> workflow \<Rightarrow> (js_error + unit) \<times> workflow" where
  "execute_body sw w wfl0 =
     (case loadConfig_result sw of
        Inl e \<Rightarrow> (Inl e, wfl0)
      | Inr cfg \<Rightarrow>
          (let targets = cfg_targets cfg;
               wfl1 = use_config_webhook cfg wfl0
           in case launch_error sw of
                Some e \<Rightarrow> (Inl e, wfl1)
              | None \<Rightarrow>
                  (case connect_error sw of
                     Some e \<Rightarrow> (Inl e, wfl1)
                   | None \<Rightarrow> processMonitoringTargets w targets wfl1)))"

text \<open>
  \<open>execute()\<close> after \<open>initialize(configPath, slackWebhook)\<close>: the \<open>try\<close> block and the
  \<open>catch\<close> block. The \<open>finally\<close> block runs \<open>cleanup\<close>, which catches its own failures
  and touches neither the results nor the errors of the session.
\<close>

definition execute ::
  "startup_world \<Rightarrow> run_world \<Rightarrow> string option \<Rightarrow> (js_error + unit) \<times> workflow" where
  "execute sw w webhook =
     (case execute_body sw w (initialize webhook) of
        (Inr _, wfl) \<Rightarrow> (Inr (), wfl)
      | (Inl error, wfl) \<Rightarrow>
          (let (categorizedError, h) =
                 handleError error
                   \<lparr>ctx_type = Some ''workflow'', operation = Some ''execute'',
                     ctx_entry = None\<rparr>
                   (errorHandler wfl);
               wfl' = wfl\<lparr>errors := errors wfl @ [\<lparr>se_type = etype categorizedError,
                             se_message = message error, se_entry = None,
                             se_severity = severity categorizedError\<rparr>],
                           errorHandler := h\<rparr>
           in if etype categorizedError = CONFIG_ERROR \<or> etype categorizedError = CHROME_ERROR
              then (Inl error, wfl')
              else if shouldStopWorkflow categorizedError then (Inl error, wfl')
              else (Inr (), wfl')))"

section \<open>What the loop does to each target\<close>

text \<open>
  Three readings of the source used to state the properties of the loop: the outcome
  of the i-th target, whether its failure stops the workflow, and the record the loop
  appends for it.
\<close>

definition target_outcome :: "run_world \<Rightarrow> nat \<Rightarrow> entry \<Rightarrow> js_error + change_record" where
  "target_outcome w i e = fst (processMonitoringTarget (browser_at w i) e)"

definition stops_at :: "run_world \<Rightarrow> nat \<Rightarrow> entry \<Rightarrow> bool" where
  "stops_at w i e =
     (case target_outcome w i e of
        Inl error \<Rightarrow> shouldStopWorkflow (categorizeError error (target_context e))
      | Inr _ \<Rightarrow> False)"

definition target_record :: "run_world \<Rightarrow> nat \<Rightarrow> entry \<Rightarrow> session_result" where
  "target_record w i e =
     (case target_outcome w i e of
        Inr result \<Rightarrow> ChangeResult result
      | Inl error \<Rightarrow>
          ErrorResult \<lparr>er_entry = e, er_error = message error,
            er_errorType = etype (categorizeError error (target_context e)),
            er_severity = severity (categorizeError error (target_context e))\<rparr>)"

text \<open>Whether the i-th target comes out of the fetch and the comparison as a change.\<close>

definition changed_at :: "run_world \<Rightarrow> nat \<Rightarrow> entry \<Rightarrow> bool" where
  "changed_at w i e = (case target_outcome w i e of Inr c \<Rightarrow> hasChanged c | Inl _ \<Rightarrow> False)"

text \<open>The changes among a list of results, in order.\<close>

fun detected_changes :: "session_result list \<Rightarrow> change_record list" where
  "detected_changes [] = []"
| "detected_changes (ChangeResult c # rs) =
     (if hasChanged c then c # detected_changes rs else detected_changes rs)"
| "detected_changes (ErrorResult _ # rs) = detected_changes rs"

fun is_notify :: "wf_event \<Rightarrow> bool" where
  "is_notify (NotifyStart _) = True"
| "is_notify (NotifyEnd _) = True"
| "is_notify _ = False"

fun is_persist :: "wf_event \<Rightarrow> bool" where
  "is_persist (PersistStart _) = True"
| "is_persist PersistEnd = True"
| "is_persist _ = False"

text \<open>How many targets the loop visits from index \<open>i\<close>: it goes on until a failure stops
  the workflow or the targets are exhausted.\<close>

fun visited :: "run_world \<Rightarrow> nat \<Rightarrow> entry list \<Rightarrow> nat" where
  "visited w i [] = 0"
| "visited w i (e # rest) = (if stops_at w i e then 1 else Suc (visited w (Suc i) rest))"

text \<open>The records of the targets \<open>ts\<close>, visited from index \<open>i\<close>.\<close>

definition target_records :: "run_world \<Rightarrow> nat \<Rightarrow> entry list \<Rightarrow> session_result list" where
  "target_records w i ts = map (\<lambda>(j, e). target_record w j e) (enumerate i ts)"

text \<open>The session errors the loop appends for the targets \<open>ts\<close>, visited from index \<open>i\<close>:
  one for each failure.\<close>

definition target_errors :: "run_world \<Rightarrow> nat \<Rightarrow> entry list \<Rightarrow> session_error list" where
  "target_errors w i ts =
     concat (map (\<lambda>(j, e).
        case target_outcome w j e of
          Inr _ \<Rightarrow> []
        | Inl error \<Rightarrow>
            [\<lparr>se_type = etype (categorizeError error (target_context e)),
              se_message = message error, se_entry = Some e,
              se_severity = severity (categorizeError error (target_context e))\<rparr>])
       (enumerate i ts))"

text \<open>The events of a notification step that attempts every change of a batch in order.\<close>

definition notifications :: "change_record list \<Rightarrow> wf_event list" where
  "notifications cs = concat (map (\<lambda>c. [NotifyStart c, NotifyEnd c]) cs)"

text \<open>The context the persistence \<open>catch\<close> block passes to the error handler.\<close>

definition persistence_context :: error_context where
  "persistence_context =
     \<lparr>ctx_type = Some ''persistence'', operation = Some ''updateAndPersist'', ctx_entry = None\<rparr>"

section \<open>Example inputs\<close>

text \<open>The entry of the specification's scenario.\<close>

definition example_entry :: entry where
  "example_entry = \<lparr>url = ''u1'', css_selector = ''#p'', current_value = JStr ''$19.99''\<rparr>"

text \<open>The configuration with the scenario's entry and no webhook.\<close>

definition example_config :: config where
  "example_config = \<lparr>cfg_targets = [example_entry], slack_webhook = None\<rparr>"

text \<open>A page that loads and shows the text \<open>t\<close>; a page on which the wait for the
  selector times out; a connected browser that hands out the page \<open>p\<close>.\<close>

definition page_showing :: "string \<Rightarrow> page" where
  "page_showing t =
     \<lparr>goto_result = None, waitForSelector_result = Inr True,
      textContent_result = Inr (Some t), isClosed_result = Inr False, close_result = None\<rparr>"

definition page_selector_timeout :: page where
  "page_selector_timeout =
     \<lparr>goto_result = None,
      waitForSelector_result =
        Inl \<lparr>name = ''TimeoutError'', message = ''Timeout 10000ms exceeded.''\<rparr>,
      textContent_result = Inr None, isClosed_result = Inr False, close_result = None\<rparr>"

definition browser_with :: "page \<Rightarrow> browser" where
  "browser_with p = \<lparr>connected = True, newPage_result = Inr p\<rparr>"

definition second_entry :: entry where
  "second_entry = \<lparr>url = ''u2'', css_selector = ''.t'', current_value = JStr ''Name''\<rparr>"

text \<open>A world in which every page shows \<open>$18.49\<close>, and one in which the first target
  meets a selector timeout and the browser is gone from the second target on; in both
  the file holds the example configuration and can be written.\<close>

definition steady_world :: run_world where
  "steady_world =
     \<lparr>browser_at = (\<lambda>i. browser_with (page_showing ''$18.49'')),
      axios_at = (\<lambda>j. Response 200),
      fs = \<lparr>file_content = example_config, loadConfig_error = None,
             validateWritePermissions_error = None, saveConfig_error = None\<rparr>\<rparr>"

definition failing_world :: run_world where
  "failing_world =
     \<lparr>browser_at = (\<lambda>i. if i = 0 then browser_with page_selector_timeout
                         else \<lparr>connected = False, newPage_result = Inl (new_Error ''unused'')\<rparr>),
      axios_at = (\<lambda>j. Response 200),
      fs = \<lparr>file_content = example_config, loadConfig_error = None,
             validateWritePermissions_error = None, saveConfig_error = None\<rparr>\<rparr>"

text \<open>A world in which the first page shows \<open>$18.49\<close> and the browser is gone from the
  second target on, and a configuration of two targets without a webhook.\<close>

definition abort_world :: run_world where
  "abort_world =
     \<lparr>browser_at = (\<lambda>i. if i = 0 then browser_with (page_showing ''$18.49'')
                         else \<lparr>connected = False, newPage_result = Inl (new_Error ''unused'')\<rparr>),
      axios_at = (\<lambda>j. Response 200),
      fs = \<lparr>file_content = \<lparr>cfg_targets = [example_entry, second_entry],
                               slack_webhook = None\<rparr>,
             loadConfig_error = None, validateWritePermissions_error = None,
             saveConfig_error = None\<rparr>\<rparr>"

definition two_targets :: config where
  "two_targets = \<lparr>cfg_targets = [example_entry, second_entry], slack_webhook = None\<rparr>"

definition third_entry :: entry where
  "third_entry = \<lparr>url = ''u3'', css_selector = ''h1'', current_value = JStr ''Title''\<rparr>"

text \<open>The context the \<open>catch\<close> block of \<open>execute\<close> passes to the error handler, and the
  session error a \<open>catch\<close> block records without an entry.\<close>

definition workflow_context :: error_context where
  "workflow_context =
     \<lparr>ctx_type = Some ''workflow'', operation = Some ''execute'', ctx_entry = None\<rparr>"

definition error_record :: "js_error \<Rightarrow> error_context \<Rightarrow> session_error" where
  "error_record error ctx =
     \<lparr>se_type = etype (categorizeError error ctx), se_message = message error,
      se_entry = None, se_severity = severity (categorizeError error ctx)\<rparr>"

text \<open>A start at which the configuration \<open>cfg\<close> loads, Chrome launches and the
  controller connects; the change the steady world makes \<open>processEntry\<close> detect for
  the scenario's entry.\<close>

definition startup_ok :: "config \<Rightarrow> startup_world" where
  "startup_ok cfg = \<lparr>loadConfig_result = Inr cfg, launch_error = None, connect_error = None\<rparr>"

definition example_change :: change_record where
  "example_change =
     \<lparr>entry = Some example_entry, hasChanged = True, oldValue = JStr ''$19.99'',
      newValue = JStr ''$18.49''\<rparr>"

text \<open>A change for an entry that is in no configuration, and a second change for the
  scenario's entry.\<close>

definition ghost_change :: change_record where
  "ghost_change =
     \<lparr>entry = Some \<lparr>url = ''https://nonexistent.com'', css_selector = ''#missing'',
                    current_value = JStr ''old''\<rparr>,
      hasChanged = True, oldValue = JStr ''old'', newValue = JStr ''new''\<rparr>"

definition later_change :: change_record where
  "later_change = example_change\<lparr>newValue := JStr ''$17.00''\<rparr>"

section \<open>Properties of the comparison\<close>

lemma trim_strip_left: "\<forall>c \<in> set ws. is_ws c \<Longrightarrow> dropWhile is_ws (ws @ s) = dropWhile is_ws s"
  by (induction ws) auto

lemma trim_padding:
  assumes l: "\<forall>c \<in> set ws1. is_ws c" and r: "\<forall>c \<in> set ws2. is_ws c"
  shows "trim (ws1 @ s @ ws2) = trim s"
proof -
  have a: "dropWhile is_ws (ws1 @ s @ ws2) = dropWhile is_ws (s @ ws2)"
    using l by (rule trim_strip_left)
  have b: "dropWhile is_ws (rev (dropWhile is_ws (s @ ws2))) = dropWhile is_ws (rev (dropWhile is_ws s))"
  proof (cases "\<forall>c \<in> set s. is_ws c")
    case True
    then have "dropWhile is_ws (s @ ws2) = []" "dropWhile is_ws s = []"
      using r by auto
    then show ?thesis by (simp only:)
  next
    case False
    then have "dropWhile is_ws (s @ ws2) = dropWhile is_ws s @ ws2"
      by auto
    moreover have "\<forall>c \<in> set (rev ws2). is_ws c" using r by simp
    ultimately show ?thesis
      by (simp add: trim_strip_left)
  qed
  show ?thesis unfolding trim_def a b ..
qed

lemma nat_to_string_123: "nat_to_string 123 = ''123''"
  by (simp add: nat_to_string.simps [of 123] nat_to_string.simps [of 12]
      nat_to_string.simps [of "Suc 0"] digit_char_def)

text \<open>
  C7. Two null or missing values compare as unchanged; exactly one null or missing
  value compares as changed; two other values (a number among them being a safe
  integer) are changed exactly when their string forms differ after trimming, so that
  white space around a string never makes a change (\<open>"  a  "\<close> against \<open>"a"\<close>) and a
  number is compared through its string form (\<open>123\<close> against \<open>"123"\<close>).
\<close>

theorem C7_detectChange_semantics:
  "(eq_null a \<and> eq_null b \<longrightarrow> \<not> detectChange a b)
   \<and> (eq_null a \<noteq> eq_null b \<longrightarrow> detectChange a b)
   \<and> (\<not> eq_null a \<and> \<not> eq_null b \<and> safe_value a \<and> safe_value b \<longrightarrow>
        detectChange a b = (trim (String a) \<noteq> trim (String b)))
   \<and> ((\<forall>c \<in> set ws1. is_ws c) \<and> (\<forall>c \<in> set ws2. is_ws c) \<longrightarrow>
        \<not> detectChange (JStr (ws1 @ s @ ws2)) (JStr s))
   \<and> \<not> detectChange (JStr ''  a  '') (JStr ''a'')
   \<and> safe_value (JNum 123)
   \<and> \<not> detectChange (JNum 123) (JStr ''123'')
   \<and> \<not> detectChange JNull JNull
   \<and> detectChange JNull (JStr ''x'')"
proof -
  have pad: "(\<forall>c \<in> set ws1. is_ws c) \<and> (\<forall>c \<in> set ws2. is_ws c) \<longrightarrow>
        \<not> detectChange (JStr (ws1 @ s @ ws2)) (JStr s)"
    by (simp add: detectChange_def trim_padding)
  have lit: "\<not> detectChange (JStr ''  a  '') (JStr ''a'')"
    by (simp add: detectChange_def trim_def is_ws_def)
  have num: "safe_value (JNum 123) \<and> \<not> detectChange (JNum 123) (JStr ''123'')"
    by (simp add: detectChange_def nat_to_string_123 isSafeInteger_def)
  have gen: "(eq_null a \<and> eq_null b \<longrightarrow> \<not> detectChange a b)
   \<and> (eq_null a \<noteq> eq_null b \<longrightarrow> detectChange a b)
   \<and> (\<not> eq_null a \<and> \<not> eq_null b \<and> safe_value a \<and> safe_value b \<longrightarrow>
        detectChange a b = (trim (String a) \<noteq> trim (String b)))"
    by (auto simp: detectChange_def)
  have nul: "\<not> detectChange JNull JNull \<and> detectChange JNull (JStr ''x'')"
    by (simp add: detectChange_def)
  from gen pad lit num nul show ?thesis by blast
qed

theorem C7_detectChange_semantics_witness:
  "detectChange (JStr ''9'') JUndefined
   \<and> \<not> detectChange JUndefined JNull
   \<and> detectChange (JBool True) (JStr '' false'')
   \<and> \<not> detectChange (JStr '' -7'') (JNum (- 7))
   \<and> detectChange (JNum 7) (JStr ''7.0'')
   \<and> \<not> detectChange (JStr [CHR 0x09, CHR ''a'', CHR 0x0A]) (JStr ''a'')"
  using C7_detectChange_semantics [of "JStr ''9''" JUndefined "[CHR 0x09]" "[CHR 0x0A]" "''a''"]
    C7_detectChange_semantics [of JUndefined JNull "[]" "[]" "[]"]
    C7_detectChange_semantics [of "JBool True" "JStr '' false''" "[]" "[]" "[]"]
    C7_detectChange_semantics [of "JStr '' -7''" "JNum (- 7)" "[]" "[]" "[]"]
    C7_detectChange_semantics [of "JNum 7" "JStr ''7.0''" "[]" "[]" "[]"]
  by (simp add: is_ws_def trim_def isSafeInteger_def nat_to_string.simps [of 7] digit_char_def)

section \<open>Properties of the classifier\<close>

lemmas rule_defs = configRule_def chromeRule_def browserRule_def pageRule_def
  extractionRule_def notificationRule_def persistenceRule_def

lemmas eval_includes = str_includes_def sublist_code(3)

lemma suggestions_nonempty_kinds:
  "etype (categorizeError e ctx) \<notin> {CHROME_ERROR, EXTRACTION_ERROR, PERSISTENCE_ERROR}
   \<longrightarrow> suggestions (categorizeError e ctx) \<noteq> []"
  by (simp add: categorizeError_def Let_def getConfigErrorSuggestions_def
      getBrowserErrorSuggestions_def getPageErrorSuggestions_def
      getNotificationErrorSuggestions_def)

lemma suggestions_chrome:
  "etype (categorizeError e ctx) = CHROME_ERROR \<longrightarrow>
     (suggestions (categorizeError e ctx) \<noteq> []) =
     (str_includes (message_or_unknown e) ''port''
      \<or> str_includes (message_or_unknown e) ''launch'')"
  by (simp add: categorizeError_def Let_def getChromeErrorSuggestions_def)

lemma suggestions_extraction:
  "etype (categorizeError e ctx) = EXTRACTION_ERROR \<longrightarrow>
     (suggestions (categorizeError e ctx) \<noteq> []) =
     str_includes (message_or_unknown e) ''selector''"
  by (simp add: categorizeError_def Let_def getExtractionErrorSuggestions_def pageRule_def)

lemma suggestions_persistence:
  "etype (categorizeError e ctx) = PERSISTENCE_ERROR \<longrightarrow>
     (suggestions (categorizeError e ctx) \<noteq> []) =
     (str_includes (message_or_unknown e) ''permission''
      \<or> str_includes (message_or_unknown e) ''ENOSPC'')"
  by (simp add: categorizeError_def Let_def getPersistenceErrorSuggestions_def)

lemma handleError_fst: "fst (handleError e ctx h) = categorizeError e ctx"
  by (simp add: handleError_def Let_def)

lemma handleError_logged:
  "logged (snd (handleError e ctx h)) =
     logged h @ [severity_line (categorizeError e ctx)]
     @ (if (severity (categorizeError e ctx) = CRITICAL
            \<or> severity (categorizeError e ctx) = HIGH)
           \<and> suggestions (categorizeError e ctx) \<noteq> []
        then (LogInfo, ''Suggestions to resolve this issue:'')
             # map (Pair LogInfo) (numbered 0 (suggestions (categorizeError e ctx)))
        else [])"
  by (simp add: handleError_def Let_def showSuggestions_def)

lemma numbered_length: "length (numbered i xs) = length xs"
  by (induction xs arbitrary: i) auto

text \<open>
  C8, as the claim states it, fails: a disk-full failure of the persistence step is
  classified (CRITICAL, file operations) with an empty list of suggestions, because its
  message holds neither \<open>permission\<close> nor \<open>ENOSPC\<close>.
\<close>

theorem C8_empty_suggestions_counterexample:
  "suggestions (categorizeError
      \<lparr>name = ''Error'',
        message = ''Failed to update and persist configuration: Failed to persist configuration: No space left on device when writing: input.json''\<rparr>
      \<lparr>ctx_type = Some ''persistence'', operation = Some ''updateAndPersist'',
        ctx_entry = None\<rparr>) = []"
  by (simp add: categorizeError_def Let_def message_or_unknown_def rule_defs eval_includes
      getPersistenceErrorSuggestions_def)

text \<open>
  C8, amended. The classification carries a list of suggestions that is non-empty for
  every kind but the Chrome, extraction and persistence kinds; for these three it is
  non-empty exactly when the message holds \<open>port\<close> or \<open>launch\<close>, \<open>selector\<close>, and
  \<open>permission\<close> or \<open>ENOSPC\<close> respectively. \<open>handleError\<close> logs the severity line and
  then shows the suggestions, all of them, exactly when the severity is HIGH or
  CRITICAL and the list is not empty.
\<close>

theorem C8_suggestions_amended:
  "(etype (categorizeError e ctx) \<notin> {CHROME_ERROR, EXTRACTION_ERROR, PERSISTENCE_ERROR}
      \<longrightarrow> suggestions (categorizeError e ctx) \<noteq> [])
   \<and> (etype (categorizeError e ctx) = CHROME_ERROR \<longrightarrow>
        (suggestions (categorizeError e ctx) \<noteq> []) =
        (str_includes (message_or_unknown e) ''port''
         \<or> str_includes (message_or_unknown e) ''launch''))
   \<and> (etype (categorizeError e ctx) = EXTRACTION_ERROR \<longrightarrow>
        (suggestions (categorizeError e ctx) \<noteq> []) =
        str_includes (message_or_unknown e) ''selector'')
   \<and> (etype (categorizeError e ctx) = PERSISTENCE_ERROR \<longrightarrow>
        (suggestions (categorizeError e ctx) \<noteq> []) =
        (str_includes (message_or_unknown e) ''permission''
         \<or> str_includes (message_or_unknown e) ''ENOSPC''))
   \<and> logged (snd (handleError e ctx h)) =
        logged h @ [severity_line (categorizeError e ctx)]
        @ (if (severity (categorizeError e ctx) = CRITICAL
               \<or> severity (categorizeError e ctx) = HIGH)
              \<and> suggestions (categorizeError e ctx) \<noteq> []
           then (LogInfo, ''Suggestions to resolve this issue:'')
                # map (Pair LogInfo) (numbered 0 (suggestions (categorizeError e ctx)))
           else [])
   \<and> length (numbered 0 (suggestions (categorizeError e ctx)))
       = length (suggestions (categorizeError e ctx))"
  using suggestions_nonempty_kinds [of e ctx] suggestions_chrome [of e ctx]
    suggestions_extraction [of e ctx] suggestions_persistence [of e ctx]
    handleError_logged [of e ctx h] numbered_length [of 0 "suggestions (categorizeError e ctx)"]
  by blast

theorem C8_suggestions_amended_witness:
  "suggestions (categorizeError (new_Error ''Something odd'')
        \<lparr>ctx_type = None, operation = None, ctx_entry = None\<rparr>) \<noteq> []
   \<and> suggestions (categorizeError (new_Error ''Chrome debug endpoint gone'')
        \<lparr>ctx_type = None, operation = None, ctx_entry = None\<rparr>) = []
   \<and> suggestions (categorizeError (new_Error ''No element'')
        \<lparr>ctx_type = None, operation = None, ctx_entry = None\<rparr>) = []
   \<and> suggestions (categorizeError (new_Error ''EACCES'')
        \<lparr>ctx_type = None, operation = None, ctx_entry = None\<rparr>) = []"
  using
    C8_suggestions_amended [of "new_Error ''Something odd''"
      "\<lparr>ctx_type = None, operation = None, ctx_entry = None\<rparr>"]
    C8_suggestions_amended [of "new_Error ''Chrome debug endpoint gone''"
      "\<lparr>ctx_type = None, operation = None, ctx_entry = None\<rparr>"]
    C8_suggestions_amended [of "new_Error ''No element''"
      "\<lparr>ctx_type = None, operation = None, ctx_entry = None\<rparr>"]
    C8_suggestions_amended [of "new_Error ''EACCES''"
      "\<lparr>ctx_type = None, operation = None, ctx_entry = None\<rparr>"]
  by (simp add: categorizeError_def Let_def message_or_unknown_def new_Error_def rule_defs
      eval_includes)

section \<open>Timeouts of the fetch step and their classification\<close>

lemma sublist_sep:
  assumes "q \<notin> set k"
  shows "sublist k (a @ q # b) \<longleftrightarrow> sublist k a \<or> sublist k b"
proof
  assume "sublist k (a @ q # b)"
  then obtain ps ss where eq: "a @ q # b = ps @ k @ ss" by (auto simp: sublist_def)
  then consider us where "a = ps @ us" "us @ q # b = k @ ss"
    | us where "a @ us = ps" "q # b = us @ k @ ss"
    by (auto simp: append_eq_append_conv2)
  then show "sublist k a \<or> sublist k b"
  proof cases
    case 1
    from 1(2) consider vs where "us = k @ vs" | vs where "us @ vs = k" "q # b = vs @ ss"
      by (auto simp: append_eq_append_conv2)
    then show ?thesis
    proof cases
      case 1
      with \<open>a = ps @ us\<close> show ?thesis by (auto simp: sublist_def)
    next
      case 2
      show ?thesis
      proof (cases vs)
        case Nil
        with 2 \<open>a = ps @ us\<close> have "a = ps @ k" by simp
        then show ?thesis by auto
      next
        case (Cons v vs')
        with 2 assms show ?thesis by auto
      qed
    qed
  next
    case 2
    show ?thesis
    proof (cases us)
      case Nil
      with 2 assms show ?thesis by (cases k) auto
    next
      case (Cons u us')
      with 2 have "b = us' @ k @ ss" by simp
      then show ?thesis by (auto simp: sublist_def)
    qed
  qed
next
  assume "sublist k a \<or> sublist k b"
  then show "sublist k (a @ q # b)"
  proof
    assume "sublist k a"
    then obtain ps ss where "a = ps @ k @ ss" by (auto simp: sublist_def)
    then have "a @ q # b = ps @ k @ (ss @ q # b)" by simp
    then show ?thesis unfolding sublist_def by blast
  next
    assume "sublist k b"
    then obtain ps ss where "b = ps @ k @ ss" by (auto simp: sublist_def)
    then have "a @ q # b = (a @ q # ps) @ k @ ss" by simp
    then show ?thesis unfolding sublist_def by blast
  qed
qed

lemma includes_dq:
  "CHR 0x22 \<notin> set k \<Longrightarrow> str_includes (a @ dq @ b) k = (str_includes a k \<or> str_includes b k)"
  by (simp add: str_includes_def dq_def sublist_sep)

lemma includes_Nil: "k \<noteq> [] \<Longrightarrow> \<not> str_includes [] k"
  by (simp add: str_includes_def)

lemma configRule_dq: "configRule (a @ dq @ b) ctx = (configRule a ctx \<or> configRule b ctx)"
  by (auto simp: configRule_def includes_dq)

lemma browserRule_dq: "browserRule (a @ dq @ b) = (browserRule a \<or> browserRule b)"
  by (auto simp: browserRule_def includes_dq)

lemma pageRule_dq: "pageRule (a @ dq @ b) = (pageRule a \<or> pageRule b)"
  by (auto simp: pageRule_def includes_dq)

lemma extractionRule_dq: "extractionRule (a @ dq @ b) = (extractionRule a \<or> extractionRule b)"
  by (auto simp: extractionRule_def includes_dq)

lemma chromeRule_free: "\<not> str_includes a ''Chrome'' \<Longrightarrow> \<not> chromeRule a"
  by (simp add: chromeRule_def)

lemma chrome_dq:
  "str_includes (a @ dq @ b) ''Chrome'' = (str_includes a ''Chrome'' \<or> str_includes b ''Chrome'')"
  by (simp add: includes_dq)

lemma includes_longer: "str_includes s (k @ k') \<Longrightarrow> str_includes s k"
  unfolding str_includes_def
  by (meson sublist_append_rightI sublist_order.order_trans)

lemma neterr: "\<not> pageRule s \<Longrightarrow> \<not> str_includes s ''net::ERR_''"
  using includes_longer [of s "''net::ERR''" "''_''"] by (auto simp: pageRule_def)

lemma n10000: "nat_to_string defaultTimeout = ''10000''"
  unfolding defaultTimeout_def
  by (simp add: nat_to_string.simps [of 10000] nat_to_string.simps [of 1000] nat_to_string.simps [of 100]
     nat_to_string.simps [of 10] nat_to_string.simps [of "Suc 0"] digit_char_def)

lemma waitForSelector_timeout:
  assumes "selector \<noteq> []" 
    "waitForSelector_result p = Inl e" "name e = ''TimeoutError''"
  shows "waitForSelector (Some p) selector defaultTimeout =
      Inl (new_Error (timeout_wait_message selector))"
    using assms by (simp add: waitForSelector_def waitForSelector_catch_def n10000 timeout_wait_message_def)


lemma critical_dq: "critical_text (a @ dq @ b) ctx = (critical_text a ctx \<or> critical_text b ctx)"
  by (auto simp: critical_text_def configRule_dq browserRule_dq includes_dq)

lemma neutral_dq: "neutral_text (a @ dq @ b) ctx = (neutral_text a ctx \<and> neutral_text b ctx)"
  by (auto simp: neutral_text_def critical_dq pageRule_dq)

lemma neutral_Nil: "neutral_text [] ctx"
  by (simp add: neutral_text_def critical_text_def rule_defs str_includes_def)

lemma neutral_dq_end: "neutral_text (a @ dq) ctx = neutral_text a ctx"
  using neutral_dq [of a "[]" ctx] by (simp add: neutral_Nil)

lemma classify_page:
  assumes "\<not> critical_text m ctx" "pageRule m"
  shows "category (categorizeError (new_Error m) ctx) = ''Page Navigation''
       \<and> severity (categorizeError (new_Error m) ctx) = HIGH
       \<and> etype (categorizeError (new_Error m) ctx) =
           (if operation ctx = Some ''processMonitoringTarget'' then TARGET_ERROR else PAGE_ERROR)"
proof -
  have "m \<noteq> []" using assms(2) by (auto simp: pageRule_def str_includes_def)
  then have mu: "message_or_unknown (new_Error m) = m"
    by (simp add: message_or_unknown_def new_Error_def)
  have "\<not> configRule m ctx" "\<not> chromeRule m" "\<not> browserRule m"
    using assms(1) by (auto simp: critical_text_def chromeRule_def)
  then show ?thesis using assms(2) by (simp add: categorizeError_def mu)
qed

lemma classify_extraction:
  assumes "neutral_text m ctx" "extractionRule m"
  shows "etype (categorizeError (new_Error m) ctx) = EXTRACTION_ERROR
       \<and> severity (categorizeError (new_Error m) ctx) = MEDIUM
       \<and> category (categorizeError (new_Error m) ctx) = ''Element Extraction''"
proof -
  have "m \<noteq> []" using assms(2) by (auto simp: extractionRule_def str_includes_def)
  then have mu: "message_or_unknown (new_Error m) = m"
    by (simp add: message_or_unknown_def new_Error_def)
  have "\<not> configRule m ctx" "\<not> chromeRule m" "\<not> browserRule m" "\<not> pageRule m"
    using assms(1) by (auto simp: neutral_text_def critical_text_def chromeRule_def)
  then show ?thesis using assms(2) by (simp add: categorizeError_def mu)
qed

lemma static_neutral:
  "neutral_text ''Page monitoring error for '' ctx"
  "neutral_text '' with selector '' ctx"
  "neutral_text '': Timeout waiting for selector '' ctx"
  "neutral_text '' after 10000ms'' ctx"
  "neutral_text ''Invalid CSS selector '' ctx"
  "neutral_text ''No text content found for selector '' ctx"
  "neutral_text '' on '' ctx"
  "neutral_text ''Timeout waiting for selector '' ctx"
  by (simp_all add: neutral_text_def critical_text_def rule_defs eval_includes)

lemma static_critical:
  "\<not> critical_text ''Navigation timeout: Failed to load '' ctx"
  "\<not> critical_text '' within timeout period'' ctx"
  by (simp_all add: critical_text_def rule_defs eval_includes)

lemma static_extraction:
  "extractionRule ''Page monitoring error for '' = False"
  "extractionRule '' with selector ''"
  "extractionRule ''Invalid CSS selector ''"
  "extractionRule ''No text content found for selector ''"
  "pageRule ''Navigation timeout: Failed to load ''"
  by (simp_all add: rule_defs eval_includes)


lemma timeout_wait_neutral:
  assumes "neutral_text s ctx"
  shows "neutral_text ('': '' @ timeout_wait_message s) ctx"
proof -
  have "'': '' @ timeout_wait_message s
        = '': Timeout waiting for selector '' @ dq @ s @ dq @ '' after 10000ms''"
    by (simp add: timeout_wait_message_def)
  then show ?thesis using assms by (simp only: neutral_dq static_neutral simp_thms)
qed

lemma timeout_wait_no_neterr:
  assumes "neutral_text s ctx"
  shows "\<not> str_includes (timeout_wait_message s) ''net::ERR_''"
proof -
  have "neutral_text (timeout_wait_message s) ctx"
    unfolding timeout_wait_message_def using assms
    by (simp only: neutral_dq static_neutral simp_thms)
  then show ?thesis by (simp add: neutral_text_def neterr)
qed

lemma timeout_wait_nonempty: "timeout_wait_message s \<noteq> []"
  by (simp add: timeout_wait_message_def)

lemma selector_timeout_classified:
  assumes "neutral_text u ctx" "neutral_text s ctx"
  shows "etype (categorizeError (handleNavigationError (new_Error (timeout_wait_message s)) u s) ctx)
           = EXTRACTION_ERROR
       \<and> severity (categorizeError (handleNavigationError (new_Error (timeout_wait_message s)) u s) ctx)
           = MEDIUM
       \<and> category (categorizeError (handleNavigationError (new_Error (timeout_wait_message s)) u s) ctx)
           = ''Element Extraction''"
proof -
  let ?em = "timeout_wait_message s"
  have mu: "message_or_unknown (new_Error ?em) = ?em"
    by (simp add: message_or_unknown_def new_Error_def timeout_wait_nonempty)
  have nm: "name (new_Error ?em) \<noteq> ''TimeoutError''"
    by (simp add: new_Error_def)
  note ne = timeout_wait_no_neterr [OF assms(2)]
  note tail = timeout_wait_neutral [OF assms(2)]
  have f2: "neutral_text (''Invalid CSS selector '' @ dq @ s @ dq @ '': '' @ ?em) ctx"
           "extractionRule (''Invalid CSS selector '' @ dq @ s @ dq @ '': '' @ ?em)"
    using assms tail by (simp_all only: neutral_dq extractionRule_dq static_neutral static_extraction simp_thms)
  have f3: "neutral_text (''No text content found for selector '' @ dq @ s @ dq @ '' on '' @ dq @ u @ dq) ctx"
           "extractionRule (''No text content found for selector '' @ dq @ s @ dq @ '' on '' @ dq @ u @ dq)"
    using assms by (simp_all only: neutral_dq neutral_dq_end extractionRule_dq static_neutral static_extraction simp_thms)
  have f4: "neutral_text (''Page monitoring error for '' @ dq @ u @ dq @ '' with selector '' @ dq @ s @ dq @ '': '' @ ?em) ctx"
           "extractionRule (''Page monitoring error for '' @ dq @ u @ dq @ '' with selector '' @ dq @ s @ dq @ '': '' @ ?em)"
    using assms tail by (simp_all only: neutral_dq extractionRule_dq static_neutral static_extraction simp_thms)
  consider (a) "str_includes ?em ''Invalid CSS selector''"
    | (b) "\<not> str_includes ?em ''Invalid CSS selector''" "str_includes ?em ''No text content found''"
    | (c) "\<not> str_includes ?em ''Invalid CSS selector''" "\<not> str_includes ?em ''No text content found''"
    by blast
  then show ?thesis
  proof cases
    case a
    then have "handleNavigationError (new_Error ?em) u s
        = new_Error (''Invalid CSS selector '' @ dq @ s @ dq @ '': '' @ ?em)"
      using ne nm unfolding handleNavigationError_def mu Let_def by (simp only: if_True if_False)
    then show ?thesis using classify_extraction [OF f2] by (simp only:)
  next
    case b
    then have "handleNavigationError (new_Error ?em) u s
        = new_Error (''No text content found for selector '' @ dq @ s @ dq @ '' on '' @ dq @ u @ dq)"
      using ne nm unfolding handleNavigationError_def mu Let_def by (simp only: if_True if_False)
    then show ?thesis using classify_extraction [OF f3] by (simp only:)
  next
    case c
    then have "handleNavigationError (new_Error ?em) u s
        = new_Error (''Page monitoring error for '' @ dq @ u @ dq @ '' with selector '' @ dq @ s @ dq @ '': '' @ ?em)"
      using ne nm unfolding handleNavigationError_def mu Let_def by (simp only: if_True if_False)
    then show ?thesis using classify_extraction [OF f4] by (simp only:)
  qed
qed

lemma navigation_timeout_classified:
  assumes "\<not> critical_text u ctx"
  shows "category (categorizeError (new_Error (''Navigation timeout: Failed to load '' @ dq @ u @ dq @ '' within timeout period'')) ctx) = ''Page Navigation''
     \<and> severity (categorizeError (new_Error (''Navigation timeout: Failed to load '' @ dq @ u @ dq @ '' within timeout period'')) ctx) = HIGH
     \<and> etype (categorizeError (new_Error (''Navigation timeout: Failed to load '' @ dq @ u @ dq @ '' within timeout period'')) ctx) =
           (if operation ctx = Some ''processMonitoringTarget'' then TARGET_ERROR else PAGE_ERROR)"
proof -
  have a: "\<not> critical_text (''Navigation timeout: Failed to load '' @ dq @ u @ dq @ '' within timeout period'') ctx"
    using assms by (simp only: critical_dq static_critical simp_thms)
  have b: "pageRule (''Navigation timeout: Failed to load '' @ dq @ u @ dq @ '' within timeout period'')"
    by (simp only: pageRule_dq static_extraction simp_thms)
  show ?thesis by (rule classify_page [OF a b])
qed


lemma selector_timeout_thrown:
  assumes "u \<noteq> []" "s \<noteq> []" "goto_result p = None"
    "waitForSelector_result p = Inl e" "name e = ''TimeoutError''"
  shows "navigateAndExtract (Some p) u s =
     Inl (handleNavigationError (new_Error (timeout_wait_message s)) u s)"
  using assms waitForSelector_timeout [OF assms(2,4,5)]
  by (simp add: navigateAndExtract_def)

lemma includes_after_colon:
  assumes "k \<noteq> []" "hd k \<noteq> CHR '':''" "hd k \<noteq> CHR '' ''"
  shows "str_includes (CHR '':'' # CHR '' '' # m) k = str_includes m k"
proof -
  obtain x k' where k: "k = x # k'" using assms(1) by (cases k) auto
  have x: "x \<noteq> CHR '':''" "x \<noteq> CHR '' ''" using assms(2,3) k by simp_all
  show ?thesis
    unfolding str_includes_def k using x by (simp add: sublist_Cons_right)
qed

lemma configRule_colon: "configRule ('': '' @ m) ctx = configRule m ctx"
  by (simp add: configRule_def includes_after_colon)

lemma browserRule_colon: "browserRule ('': '' @ m) = browserRule m"
  by (simp add: browserRule_def includes_after_colon)

lemma pageRule_colon: "pageRule ('': '' @ m) = pageRule m"
  by (simp add: pageRule_def includes_after_colon)

lemma critical_colon: "critical_text ('': '' @ m) ctx = critical_text m ctx"
  unfolding critical_text_def configRule_colon browserRule_colon
  by (simp add: includes_after_colon)

lemma neutral_colon: "neutral_text ('': '' @ m) ctx = neutral_text m ctx"
  unfolding neutral_text_def critical_colon pageRule_colon ..

lemma classify_other:
  assumes "neutral_text m ctx" "m \<noteq> []"
  shows "category (categorizeError (new_Error m) ctx) \<noteq> ''Page Navigation''
       \<and> etype (categorizeError (new_Error m) ctx) \<noteq> PAGE_ERROR
       \<and> etype (categorizeError (new_Error m) ctx) \<noteq> TARGET_ERROR"
proof -
  have mu: "message_or_unknown (new_Error m) = m"
    using assms(2) by (simp add: message_or_unknown_def new_Error_def)
  have "\<not> configRule m ctx" "\<not> chromeRule m" "\<not> browserRule m" "\<not> pageRule m"
    using assms(1) by (auto simp: neutral_text_def critical_text_def chromeRule_def)
  then show ?thesis by (simp add: categorizeError_def mu)
qed

lemma classify_general:
  assumes "neutral_text m ctx" "m \<noteq> []"
    "\<not> extractionRule m" "\<not> notificationRule m" "\<not> persistenceRule m"
  shows "category (categorizeError (new_Error m) ctx) = ''General''
       \<and> etype (categorizeError (new_Error m) ctx) = WORKFLOW_ERROR
       \<and> severity (categorizeError (new_Error m) ctx) = HIGH"
proof -
  have mu: "message_or_unknown (new_Error m) = m"
    using assms(2) by (simp add: message_or_unknown_def new_Error_def)
  have "\<not> configRule m ctx" "\<not> chromeRule m" "\<not> browserRule m" "\<not> pageRule m"
    using assms(1) by (auto simp: neutral_text_def critical_text_def chromeRule_def)
  then show ?thesis using assms(3-5) by (simp add: categorizeError_def mu)
qed

lemma static_goto:
  "\<not> critical_text ''Element timeout: Selector '' ctx"
  "ctx_type ctx \<noteq> Some ''config'' \<Longrightarrow> \<not> critical_text '' not found on '' ctx"
  "pageRule '' within timeout period''"
  "neutral_text ''Timeout error on '' ctx"
  by (simp_all add: neutral_text_def critical_text_def rule_defs eval_includes)

lemma goto_timeout_thrown:
  assumes "u \<noteq> []" "s \<noteq> []" "goto_result p = Some e"
  shows "navigateAndExtract (Some p) u s = Inl (handleNavigationError e u s)"
  using assms by (simp add: navigateAndExtract_def)

lemma message_or_unknown_nonempty: "message_or_unknown e \<noteq> []"
  by (simp add: message_or_unknown_def)

lemma goto_timeout_message:
  assumes "name e = ''TimeoutError''"
  shows "handleNavigationError e u s =
     (if str_includes (message_or_unknown e) ''Navigation timeout'' then
        new_Error (''Navigation timeout: Failed to load '' @ dq @ u @ dq
                   @ '' within timeout period'')
      else if str_includes (message_or_unknown e) ''waiting for selector'' then
        new_Error (''Element timeout: Selector '' @ dq @ s @ dq @ '' not found on ''
                   @ dq @ u @ dq @ '' within timeout period'')
      else new_Error (''Timeout error on '' @ dq @ u @ dq @ '': '' @ message_or_unknown e))"
  using assms by (simp add: handleNavigationError_def Let_def)

lemma goto_timeout_page:
  assumes "name e = ''TimeoutError''" "neutral_text u ctx" "neutral_text s ctx"
    "goto_timeout_text (message_or_unknown e) ctx"
  shows "category (categorizeError (handleNavigationError e u s) ctx) = ''Page Navigation''
       \<and> severity (categorizeError (handleNavigationError e u s) ctx) = HIGH
       \<and> etype (categorizeError (handleNavigationError e u s) ctx) =
           (if operation ctx = Some ''processMonitoringTarget'' then TARGET_ERROR else PAGE_ERROR)"
proof -
  let ?m = "message_or_unknown e"
  have cu: "\<not> critical_text u ctx" and cs: "\<not> critical_text s ctx"
    using assms(2,3) by (simp_all add: neutral_text_def)
  consider (a) "str_includes ?m ''Navigation timeout''"
    | (b) "\<not> str_includes ?m ''Navigation timeout''" "str_includes ?m ''waiting for selector''"
          "ctx_type ctx \<noteq> Some ''config''"
    | (c) "\<not> str_includes ?m ''Navigation timeout''" "\<not> str_includes ?m ''waiting for selector''"
          "\<not> critical_text ?m ctx" "pageRule ?m"
    using assms(4) by (auto simp: goto_timeout_text_def)
  then show ?thesis
  proof cases
    case a
    then have "handleNavigationError e u s
        = new_Error (''Navigation timeout: Failed to load '' @ dq @ u @ dq
                     @ '' within timeout period'')"
      by (simp add: goto_timeout_message [OF assms(1)])
    then show ?thesis using navigation_timeout_classified [OF cu] by (simp only:)
  next
    case b
    let ?w = "''Element timeout: Selector '' @ dq @ s @ dq @ '' not found on ''
                   @ dq @ u @ dq @ '' within timeout period''"
    have h: "handleNavigationError e u s = new_Error ?w"
      using b by (simp add: goto_timeout_message [OF assms(1)])
    have 1: "\<not> critical_text ?w ctx"
      using cu cs static_goto(2) [OF b(3)]
      by (simp only: critical_dq static_goto(1) static_critical simp_thms)
    have 2: "pageRule ?w"
      by (simp only: pageRule_dq static_goto simp_thms)
    show ?thesis unfolding h by (rule classify_page [OF 1 2])
  next
    case c
    let ?w = "''Timeout error on '' @ dq @ u @ dq @ '': '' @ ?m"
    have h: "handleNavigationError e u s = new_Error ?w"
      using c by (simp add: goto_timeout_message [OF assms(1)])
    have n: "\<not> critical_text ''Timeout error on '' ctx"
      using static_goto(4) [of ctx] by (simp add: neutral_text_def)
    have 1: "\<not> critical_text ?w ctx"
      using cu c(3) n by (simp only: critical_dq critical_colon simp_thms)
    have 2: "pageRule ?w"
      using c(4) by (simp only: pageRule_dq pageRule_colon simp_thms)
    show ?thesis unfolding h by (rule classify_page [OF 1 2])
  qed
qed

lemma goto_timeout_other:
  assumes "name e = ''TimeoutError''" "neutral_text u ctx"
    "neutral_text (message_or_unknown e) ctx"
    "\<not> str_includes (message_or_unknown e) ''waiting for selector''"
  shows "handleNavigationError e u s
           = new_Error (''Timeout error on '' @ dq @ u @ dq @ '': '' @ message_or_unknown e)
       \<and> category (categorizeError (handleNavigationError e u s) ctx) \<noteq> ''Page Navigation''
       \<and> etype (categorizeError (handleNavigationError e u s) ctx) \<noteq> PAGE_ERROR
       \<and> etype (categorizeError (handleNavigationError e u s) ctx) \<noteq> TARGET_ERROR"
proof -
  let ?m = "message_or_unknown e"
  let ?w = "''Timeout error on '' @ dq @ u @ dq @ '': '' @ ?m"
  have "\<not> str_includes ?m ''Navigation''"
    using assms(3) by (simp add: neutral_text_def pageRule_def)
  then have nn: "\<not> str_includes ?m ''Navigation timeout''"
    using includes_longer [of ?m "''Navigation''" "'' timeout''"] by auto
  have h: "handleNavigationError e u s = new_Error ?w"
    using nn assms(4) by (simp add: goto_timeout_message [OF assms(1)])
  have 1: "neutral_text ?w ctx"
    using assms(2,3) by (simp only: neutral_dq neutral_colon static_goto simp_thms)
  have 2: "?w \<noteq> []" by simp
  show ?thesis using classify_other [OF 1 2] h by (simp only: simp_thms)
qed

lemma timeout_messages_differ:
  assumes "name e1 = ''TimeoutError''"
  shows "message (handleNavigationError e1 u s)
           \<noteq> message (handleNavigationError (new_Error (timeout_wait_message s')) u' s'')"
  unfolding goto_timeout_message [OF assms]
  by (simp add: handleNavigationError_def new_Error_def Let_def)


text \<open>
  C6, amended. Let the URL and the selector be non-empty and hold no keyword of the four
  rules that precede the extraction rule. A selector timeout (a \<open>TimeoutError\<close> of
  Playwright's \<open>waitForSelector\<close>) and a navigation timeout (a \<open>TimeoutError\<close> of
  \<open>goto\<close>) always leave \<open>navigateAndExtract\<close> with different messages, and the
  classifier sends the selector timeout to the extraction kind with severity MEDIUM.
  Where the navigation timeout goes depends on the wording of the \<open>TimeoutError\<close>: it
  goes to the page-navigation category with severity HIGH (type \<open>TARGET_ERROR\<close> under
  the loop's context, \<open>PAGE_ERROR\<close> otherwise) when its message holds
  \<open>Navigation timeout\<close>, or holds \<open>waiting for selector\<close> (the context type not being
  \<open>config\<close>), or else holds a keyword of the page rule and none of the three CRITICAL
  rules; when its message holds neither \<open>waiting for selector\<close> nor any keyword of the
  four rules that precede the extraction rule, as \<open>Timeout 30000ms exceeded.\<close> does, the
  thrown message quotes it after \<open>Timeout error on\<close> and the classification is not the
  page-navigation one.
\<close>

theorem C6_timeout_routing_amended:
  assumes "u \<noteq> []" and "s \<noteq> []" and "neutral_text u ctx" and "neutral_text s ctx"
    and "goto_result p1 = Some e1" and "name e1 = ''TimeoutError''"
    and "goto_result p2 = None" and "waitForSelector_result p2 = Inl e2"
    and "name e2 = ''TimeoutError''"
  shows "\<exists>en es. navigateAndExtract (Some p1) u s = Inl en
           \<and> navigateAndExtract (Some p2) u s = Inl es
           \<and> message en \<noteq> message es
           \<and> (goto_timeout_text (message_or_unknown e1) ctx \<longrightarrow>
                category (categorizeError en ctx) = ''Page Navigation''
                \<and> severity (categorizeError en ctx) = HIGH
                \<and> etype (categorizeError en ctx) =
                    (if operation ctx = Some ''processMonitoringTarget''
                     then TARGET_ERROR else PAGE_ERROR))
           \<and> (neutral_text (message_or_unknown e1) ctx
                \<and> \<not> str_includes (message_or_unknown e1) ''waiting for selector'' \<longrightarrow>
                message en = ''Timeout error on '' @ dq @ u @ dq @ '': ''
                               @ message_or_unknown e1
                \<and> category (categorizeError en ctx) \<noteq> ''Page Navigation''
                \<and> etype (categorizeError en ctx) \<noteq> PAGE_ERROR
                \<and> etype (categorizeError en ctx) \<noteq> TARGET_ERROR)
           \<and> category (categorizeError es ctx) = ''Element Extraction''
           \<and> severity (categorizeError es ctx) = MEDIUM
           \<and> etype (categorizeError es ctx) = EXTRACTION_ERROR"
proof -
  let ?en = "handleNavigationError e1 u s"
  let ?es = "handleNavigationError (new_Error (timeout_wait_message s)) u s"
  have n: "navigateAndExtract (Some p1) u s = Inl ?en"
    using assms(1,2,5) by (rule goto_timeout_thrown)
  have e: "navigateAndExtract (Some p2) u s = Inl ?es"
    using assms(1,2,7,8,9) by (rule selector_timeout_thrown)
  have d: "message ?en \<noteq> message ?es"
    using assms(6) by (rule timeout_messages_differ)
  have pg: "goto_timeout_text (message_or_unknown e1) ctx \<longrightarrow>
                category (categorizeError ?en ctx) = ''Page Navigation''
                \<and> severity (categorizeError ?en ctx) = HIGH
                \<and> etype (categorizeError ?en ctx) =
                    (if operation ctx = Some ''processMonitoringTarget''
                     then TARGET_ERROR else PAGE_ERROR)"
    using goto_timeout_page [OF assms(6,3,4)] by blast
  have ot: "neutral_text (message_or_unknown e1) ctx
                \<and> \<not> str_includes (message_or_unknown e1) ''waiting for selector'' \<longrightarrow>
                message ?en = ''Timeout error on '' @ dq @ u @ dq @ '': ''
                               @ message_or_unknown e1
                \<and> category (categorizeError ?en ctx) \<noteq> ''Page Navigation''
                \<and> etype (categorizeError ?en ctx) \<noteq> PAGE_ERROR
                \<and> etype (categorizeError ?en ctx) \<noteq> TARGET_ERROR"
  proof
    assume a: "neutral_text (message_or_unknown e1) ctx
                \<and> \<not> str_includes (message_or_unknown e1) ''waiting for selector''"
    note o = goto_timeout_other [OF assms(6,3), of s]
    from a have 1: "neutral_text (message_or_unknown e1) ctx"
      and 2: "\<not> str_includes (message_or_unknown e1) ''waiting for selector''" by simp_all
    from o [OF 1 2]
    have h: "?en = new_Error (''Timeout error on '' @ dq @ u @ dq @ '': ''
                               @ message_or_unknown e1)"
      and c: "category (categorizeError ?en ctx) \<noteq> ''Page Navigation''
              \<and> etype (categorizeError ?en ctx) \<noteq> PAGE_ERROR
              \<and> etype (categorizeError ?en ctx) \<noteq> TARGET_ERROR"
      by blast+
    have "message ?en = ''Timeout error on '' @ dq @ u @ dq @ '': '' @ message_or_unknown e1"
      unfolding h by (simp add: new_Error_def)
    with c show "message ?en = ''Timeout error on '' @ dq @ u @ dq @ '': ''
                               @ message_or_unknown e1
                \<and> category (categorizeError ?en ctx) \<noteq> ''Page Navigation''
                \<and> etype (categorizeError ?en ctx) \<noteq> PAGE_ERROR
                \<and> etype (categorizeError ?en ctx) \<noteq> TARGET_ERROR" by blast
  qed
  note ec = selector_timeout_classified [OF assms(3,4)]
  from n e d pg ot ec show ?thesis by blast
qed

text \<open>
  C6, as the claim states it, fails: the messages quote the URL, so for a URL that holds
  \<open>load\<close> (here \<open>/downloads\<close>) the selector timeout is classified by the
  page-navigation rule, with severity HIGH, like a navigation timeout.
\<close>

theorem C6_timeout_routing_counterexample:
  "navigateAndExtract
     (Some \<lparr>goto_result = None,
            waitForSelector_result = Inl \<lparr>name = ''TimeoutError'', message = ''Timeout 10000ms exceeded.''\<rparr>,
            textContent_result = Inr None, isClosed_result = Inr False, close_result = None\<rparr>)
     ''https://example.com/downloads'' ''#price''
   = Inl (new_Error (''Page monitoring error for '' @ dq @ ''https://example.com/downloads'' @ dq
          @ '' with selector '' @ dq @ ''#price'' @ dq @ '': Timeout waiting for selector ''
          @ dq @ ''#price'' @ dq @ '' after 10000ms''))
   \<and> category (categorizeError
        (new_Error (''Page monitoring error for '' @ dq @ ''https://example.com/downloads'' @ dq
          @ '' with selector '' @ dq @ ''#price'' @ dq @ '': Timeout waiting for selector ''
          @ dq @ ''#price'' @ dq @ '' after 10000ms''))
        \<lparr>ctx_type = Some ''target'', operation = Some ''processMonitoringTarget'',
          ctx_entry = None\<rparr>) = ''Page Navigation''
   \<and> severity (categorizeError
        (new_Error (''Page monitoring error for '' @ dq @ ''https://example.com/downloads'' @ dq
          @ '' with selector '' @ dq @ ''#price'' @ dq @ '': Timeout waiting for selector ''
          @ dq @ ''#price'' @ dq @ '' after 10000ms''))
        \<lparr>ctx_type = Some ''target'', operation = Some ''processMonitoringTarget'',
          ctx_entry = None\<rparr>) = HIGH"
proof -
  have a: "navigateAndExtract
     (Some \<lparr>goto_result = None,
            waitForSelector_result = Inl \<lparr>name = ''TimeoutError'', message = ''Timeout 10000ms exceeded.''\<rparr>,
            textContent_result = Inr None, isClosed_result = Inr False, close_result = None\<rparr>)
     ''https://example.com/downloads'' ''#price''
   = Inl (new_Error (''Page monitoring error for '' @ dq @ ''https://example.com/downloads'' @ dq
          @ '' with selector '' @ dq @ ''#price'' @ dq @ '': Timeout waiting for selector ''
          @ dq @ ''#price'' @ dq @ '' after 10000ms''))"
    by (simp add: navigateAndExtract_def waitForSelector_def waitForSelector_catch_def n10000
        handleNavigationError_def new_Error_def message_or_unknown_def dq_def eval_includes)
  have b: "pageRule (''Page monitoring error for '' @ dq @ ''https://example.com/downloads'' @ dq
          @ '' with selector '' @ dq @ ''#price'' @ dq @ '': Timeout waiting for selector ''
          @ dq @ ''#price'' @ dq @ '' after 10000ms'')"
    by (simp add: pageRule_def dq_def eval_includes)
  have c: "\<not> critical_text (''Page monitoring error for '' @ dq @ ''https://example.com/downloads'' @ dq
          @ '' with selector '' @ dq @ ''#price'' @ dq @ '': Timeout waiting for selector ''
          @ dq @ ''#price'' @ dq @ '' after 10000ms'')
         \<lparr>ctx_type = Some ''target'', operation = Some ''processMonitoringTarget'',
          ctx_entry = None\<rparr>"
    by (simp add: critical_text_def rule_defs dq_def eval_includes)
  from a classify_page [OF c b] show ?thesis by simp
qed

text \<open>
  A navigation timeout with Playwright's wording, \<open>Timeout 30000ms exceeded.\<close>, on a
  URL and a selector without keywords: the message thrown holds no keyword of any rule,
  and the classification is the general one (\<open>WORKFLOW_ERROR\<close>, HIGH).
\<close>

lemma goto_timeout_general:
  "navigateAndExtract
     (Some \<lparr>goto_result = Some \<lparr>name = ''TimeoutError'',
                                message = ''Timeout 30000ms exceeded.''\<rparr>,
            waitForSelector_result = Inr True, textContent_result = Inr (Some ''x''),
            isClosed_result = Inr False, close_result = None\<rparr>)
     ''https://example.com'' ''#price''
   = Inl (new_Error (''Timeout error on '' @ dq @ ''https://example.com'' @ dq
                     @ '': Timeout 30000ms exceeded.''))
   \<and> etype (categorizeError
        (new_Error (''Timeout error on '' @ dq @ ''https://example.com'' @ dq
                     @ '': Timeout 30000ms exceeded.''))
        \<lparr>ctx_type = Some ''target'', operation = Some ''processMonitoringTarget'',
          ctx_entry = None\<rparr>) = WORKFLOW_ERROR
   \<and> category (categorizeError
        (new_Error (''Timeout error on '' @ dq @ ''https://example.com'' @ dq
                     @ '': Timeout 30000ms exceeded.''))
        \<lparr>ctx_type = Some ''target'', operation = Some ''processMonitoringTarget'',
          ctx_entry = None\<rparr>) = ''General''
   \<and> severity (categorizeError
        (new_Error (''Timeout error on '' @ dq @ ''https://example.com'' @ dq
                     @ '': Timeout 30000ms exceeded.''))
        \<lparr>ctx_type = Some ''target'', operation = Some ''processMonitoringTarget'',
          ctx_entry = None\<rparr>) = HIGH"
proof -
  let ?ctx = "\<lparr>ctx_type = Some ''target'', operation = Some ''processMonitoringTarget'',
          ctx_entry = None\<rparr>"
  let ?w = "''Timeout error on '' @ dq @ ''https://example.com'' @ dq
                     @ '': Timeout 30000ms exceeded.''"
  have a: "navigateAndExtract
     (Some \<lparr>goto_result = Some \<lparr>name = ''TimeoutError'',
                                message = ''Timeout 30000ms exceeded.''\<rparr>,
            waitForSelector_result = Inr True, textContent_result = Inr (Some ''x''),
            isClosed_result = Inr False, close_result = None\<rparr>)
     ''https://example.com'' ''#price'' = Inl (new_Error ?w)"
    by (simp add: navigateAndExtract_def handleNavigationError_def message_or_unknown_def
        dq_def eval_includes)
  have 1: "neutral_text ?w ?ctx"
    by (simp add: neutral_text_def critical_text_def rule_defs dq_def eval_includes)
  have 2: "?w \<noteq> []" by simp
  have 3: "\<not> extractionRule ?w" "\<not> notificationRule ?w" "\<not> persistenceRule ?w"
    by (simp_all add: rule_defs dq_def eval_includes)
  from a classify_general [OF 1 2 3] show ?thesis by simp
qed

theorem C6_timeout_routing_amended_witness:
  "\<exists>en eg es.
     navigateAndExtract
       (Some \<lparr>goto_result = Some \<lparr>name = ''TimeoutError'',
                                  message = ''Navigation timeout of 30000 ms exceeded''\<rparr>,
              waitForSelector_result = Inr True, textContent_result = Inr (Some ''x''),
              isClosed_result = Inr False, close_result = None\<rparr>)
       ''https://example.com'' ''#price'' = Inl en
     \<and> navigateAndExtract
       (Some \<lparr>goto_result = Some \<lparr>name = ''TimeoutError'',
                                  message = ''Timeout 30000ms exceeded.''\<rparr>,
              waitForSelector_result = Inr True, textContent_result = Inr (Some ''x''),
              isClosed_result = Inr False, close_result = None\<rparr>)
       ''https://example.com'' ''#price'' = Inl eg
     \<and> navigateAndExtract
       (Some \<lparr>goto_result = None,
              waitForSelector_result = Inl \<lparr>name = ''TimeoutError'',
                                              message = ''Timeout 10000ms exceeded.''\<rparr>,
              textContent_result = Inr None, isClosed_result = Inr False,
              close_result = None\<rparr>)
       ''https://example.com'' ''#price'' = Inl es
     \<and> message en \<noteq> message es
     \<and> message eg \<noteq> message es
     \<and> severity (categorizeError en
          \<lparr>ctx_type = Some ''target'', operation = Some ''processMonitoringTarget'',
            ctx_entry = None\<rparr>) = HIGH
     \<and> etype (categorizeError en
          \<lparr>ctx_type = Some ''target'', operation = Some ''processMonitoringTarget'',
            ctx_entry = None\<rparr>) = TARGET_ERROR
     \<and> message eg = ''Timeout error on '' @ dq @ ''https://example.com'' @ dq
                      @ '': Timeout 30000ms exceeded.''
     \<and> category (categorizeError eg
          \<lparr>ctx_type = Some ''target'', operation = Some ''processMonitoringTarget'',
            ctx_entry = None\<rparr>) \<noteq> ''Page Navigation''
     \<and> severity (categorizeError es
          \<lparr>ctx_type = Some ''target'', operation = Some ''processMonitoringTarget'',
            ctx_entry = None\<rparr>) = MEDIUM
     \<and> etype (categorizeError es
          \<lparr>ctx_type = Some ''target'', operation = Some ''processMonitoringTarget'',
            ctx_entry = None\<rparr>) = EXTRACTION_ERROR"
proof -
  let ?ctx = "\<lparr>ctx_type = Some ''target'', operation = Some ''processMonitoringTarget'',
            ctx_entry = None\<rparr>"
  let ?p1 = "\<lparr>goto_result = Some \<lparr>name = ''TimeoutError'',
                                  message = ''Navigation timeout of 30000 ms exceeded''\<rparr>,
              waitForSelector_result = Inr True, textContent_result = Inr (Some ''x''),
              isClosed_result = Inr False, close_result = None\<rparr>"
  let ?pg = "\<lparr>goto_result = Some \<lparr>name = ''TimeoutError'',
                                  message = ''Timeout 30000ms exceeded.''\<rparr>,
              waitForSelector_result = Inr True, textContent_result = Inr (Some ''x''),
              isClosed_result = Inr False, close_result = None\<rparr>"
  let ?p2 = "\<lparr>goto_result = None,
              waitForSelector_result = Inl \<lparr>name = ''TimeoutError'',
                                              message = ''Timeout 10000ms exceeded.''\<rparr>,
              textContent_result = Inr None, isClosed_result = Inr False,
              close_result = None\<rparr>"
  have 1: "''https://example.com'' \<noteq> []" "''#price'' \<noteq> []" by simp_all
  have 2: "neutral_text ''https://example.com'' ?ctx" "neutral_text ''#price'' ?ctx"
    by (simp_all add: neutral_text_def critical_text_def rule_defs eval_includes)
  have 3: "goto_timeout_text (message_or_unknown \<lparr>name = ''TimeoutError'',
                  message = ''Navigation timeout of 30000 ms exceeded''\<rparr>) ?ctx"
    by (simp add: goto_timeout_text_def message_or_unknown_def eval_includes)
  have 4: "neutral_text (message_or_unknown \<lparr>name = ''TimeoutError'',
                  message = ''Timeout 30000ms exceeded.''\<rparr>) ?ctx
           \<and> \<not> str_includes (message_or_unknown \<lparr>name = ''TimeoutError'',
                  message = ''Timeout 30000ms exceeded.''\<rparr>) ''waiting for selector''"
    by (simp add: neutral_text_def critical_text_def rule_defs message_or_unknown_def
        eval_includes)
  have 5: "message_or_unknown \<lparr>name = ''TimeoutError'',
                  message = ''Timeout 30000ms exceeded.''\<rparr> = ''Timeout 30000ms exceeded.''"
    by (simp add: message_or_unknown_def)
  have g: "goto_result ?p1 = Some \<lparr>name = ''TimeoutError'',
                     message = ''Navigation timeout of 30000 ms exceeded''\<rparr>"
    "name \<lparr>name = ''TimeoutError'',
           message = ''Navigation timeout of 30000 ms exceeded''\<rparr> = ''TimeoutError''"
    "goto_result ?pg = Some \<lparr>name = ''TimeoutError'', message = ''Timeout 30000ms exceeded.''\<rparr>"
    "name \<lparr>name = ''TimeoutError'', message = ''Timeout 30000ms exceeded.''\<rparr>
       = ''TimeoutError''"
    by simp_all
  have w: "goto_result ?p2 = None"
    "waitForSelector_result ?p2
       = Inl \<lparr>name = ''TimeoutError'', message = ''Timeout 10000ms exceeded.''\<rparr>"
    "name \<lparr>name = ''TimeoutError'', message = ''Timeout 10000ms exceeded.''\<rparr>
       = ''TimeoutError''"
    by simp_all
  note a = C6_timeout_routing_amended [OF 1 2 g(1,2) w]
  note b = C6_timeout_routing_amended [OF 1 2 g(3,4) w]
  from a 3 obtain en es where A:
      "navigateAndExtract (Some ?p1) ''https://example.com'' ''#price'' = Inl en"
      "navigateAndExtract (Some ?p2) ''https://example.com'' ''#price'' = Inl es"
      "message en \<noteq> message es"
      "severity (categorizeError en ?ctx) = HIGH"
      "etype (categorizeError en ?ctx) =
         (if operation ?ctx = Some ''processMonitoringTarget'' then TARGET_ERROR else PAGE_ERROR)"
      "severity (categorizeError es ?ctx) = MEDIUM"
      "etype (categorizeError es ?ctx) = EXTRACTION_ERROR"
    by blast
  from b 4 obtain eg es' where B:
      "navigateAndExtract (Some ?pg) ''https://example.com'' ''#price'' = Inl eg"
      "navigateAndExtract (Some ?p2) ''https://example.com'' ''#price'' = Inl es'"
      "message eg \<noteq> message es'"
      "message eg = ''Timeout error on '' @ dq @ ''https://example.com'' @ dq @ '': ''
           @ message_or_unknown \<lparr>name = ''TimeoutError'',
                  message = ''Timeout 30000ms exceeded.''\<rparr>"
      "category (categorizeError eg ?ctx) \<noteq> ''Page Navigation''"
    by blast
  from A(2) B(2) have s: "es' = es" by simp
  have t: "etype (categorizeError en ?ctx) = TARGET_ERROR" using A(5) by simp
  have m: "message eg = ''Timeout error on '' @ dq @ ''https://example.com'' @ dq
                      @ '': Timeout 30000ms exceeded.''"
    using B(4) by (simp add: 5)
  from A(1) B(1) A(2) A(3) B(3) [unfolded s] A(4) t m B(5) A(6) A(7)
  show ?thesis by blast
qed

section \<open>The fetch/compare step and its cleanup\<close>

lemma closePage_never_throws: "fst (closePage pg) = Inr ()"
  by (simp add: closePage_def Let_def split: option.splits sum.splits)

lemma waitForSelector_ignores_close:
  "waitForSelector (Some (p\<lparr>isClosed_result := x, close_result := y\<rparr>)) s t
   = waitForSelector (Some p) s t"
  by (simp add: waitForSelector_def)

lemma extractTextContent_ignores_close:
  "extractTextContent (Some (p\<lparr>isClosed_result := x, close_result := y\<rparr>)) s
   = extractTextContent (Some p) s"
  by (simp add: extractTextContent_def)

lemma navigateAndExtract_ignores_close:
  "navigateAndExtract (Some (p\<lparr>isClosed_result := x, close_result := y\<rparr>)) u s
   = navigateAndExtract (Some p) u s"
  by (simp add: navigateAndExtract_def waitForSelector_ignores_close
      extractTextContent_ignores_close split: option.splits sum.splits)

lemma processMonitoringTarget_outcome:
  "fst (processMonitoringTarget b e) =
     (case createPage b of
        Inl err \<Rightarrow> Inl err
      | Inr p \<Rightarrow>
          (case navigateAndExtract (Some p) (url e) (css_selector e) of
             Inl err \<Rightarrow> Inl err
           | Inr v \<Rightarrow> Inr (processEntry e (JStr v))))"
  by (simp add: processMonitoringTarget_def try_finally_def closePage_never_throws Let_def
      split: sum.splits)

lemma createPage_update:
  "createPage (b\<lparr>newPage_result := Inr p\<rparr>) = (if connected b then Inr p else createPage b)"
  by (simp add: createPage_def)

lemma outcome_independent:
  "fst (processMonitoringTarget (b\<lparr>newPage_result := Inr (p\<lparr>isClosed_result := x, close_result := y\<rparr>)\<rparr>) e)
   = fst (processMonitoringTarget (b\<lparr>newPage_result := Inr p\<rparr>) e)"
  by (simp add: processMonitoringTarget_outcome createPage_def navigateAndExtract_ignores_close)

lemma events_close:
  "createPage b = Inr p \<Longrightarrow>
   take 2 (fst (snd (processMonitoringTarget b e))) = [PageAcquired, ClosePageCalled]
   \<and> count_list (fst (snd (processMonitoringTarget b e))) ClosePageCalled = 1"
  by (simp add: processMonitoringTarget_def Let_def)

lemma events_none:
  "createPage b = Inl err \<Longrightarrow> fst (snd (processMonitoringTarget b e)) = []"
  by (simp add: processMonitoringTarget_def Let_def)

lemma cleanup_logged:
  "createPage b = Inr p \<Longrightarrow> isClosed_result p = Inr False \<Longrightarrow> close_result p = Some ce \<Longrightarrow>
   snd (snd (processMonitoringTarget b e)) = [(LogWarn, ''Failed to close page: '' @ message ce)]"
  by (simp add: processMonitoringTarget_def Let_def closePage_def)

text \<open>
  C5. \<open>closePage\<close> never throws. The outcome of \<open>processMonitoringTarget\<close> is the outcome
  of acquiring the page, fetching and comparing: an error thrown there comes out
  unchanged, and what \<open>isClosed\<close> and \<open>close\<close> answer (failures included) makes no
  difference to it. Once a page is acquired, \<open>closePage\<close> is called on it exactly once,
  whatever the fetch did, and a failure of \<open>close\<close> is only logged as a warning.
\<close>

theorem C5_cleanup_never_raises:
  "fst (closePage pg) = Inr ()
   \<and> fst (processMonitoringTarget b e) =
       (case createPage b of
          Inl err \<Rightarrow> Inl err
        | Inr p \<Rightarrow>
            (case navigateAndExtract (Some p) (url e) (css_selector e) of
               Inl err \<Rightarrow> Inl err
             | Inr v \<Rightarrow> Inr (processEntry e (JStr v))))
   \<and> fst (processMonitoringTarget
             (b\<lparr>newPage_result := Inr (p\<lparr>isClosed_result := x, close_result := y\<rparr>)\<rparr>) e)
       = fst (processMonitoringTarget (b\<lparr>newPage_result := Inr p\<rparr>) e)
   \<and> (createPage b = Inr p \<longrightarrow>
        take 2 (fst (snd (processMonitoringTarget b e))) = [PageAcquired, ClosePageCalled]
        \<and> count_list (fst (snd (processMonitoringTarget b e))) ClosePageCalled = 1)
   \<and> (createPage b = Inr p \<and> isClosed_result p = Inr False \<and> close_result p = Some ce \<longrightarrow>
        snd (snd (processMonitoringTarget b e))
        = [(LogWarn, ''Failed to close page: '' @ message ce)])"
  using closePage_never_throws [of pg] processMonitoringTarget_outcome [of b e]
    outcome_independent [where b = b and p = p and x = x and y = y and e = e]
    events_close [where b = b and p = p and e = e]
    cleanup_logged [where b = b and p = p and ce = ce and e = e]
  by blast

theorem C5_cleanup_never_raises_witness:
  "fst (processMonitoringTarget
     \<lparr>connected = True,
       newPage_result = Inr \<lparr>goto_result = None, waitForSelector_result = Inr True,
         textContent_result = Inr (Some ''$18.49''), isClosed_result = Inr False,
         close_result = Some \<lparr>name = ''Error'', message = ''Target closed''\<rparr>\<rparr>\<rparr>
     \<lparr>url = ''u1'', css_selector = ''#p'', current_value = JStr ''$19.99''\<rparr>)
   = Inr \<lparr>entry = Some \<lparr>url = ''u1'', css_selector = ''#p'', current_value = JStr ''$19.99''\<rparr>,
          hasChanged = True, oldValue = JStr ''$19.99'', newValue = JStr ''$18.49''\<rparr>
   \<and> count_list (fst (snd (processMonitoringTarget
     \<lparr>connected = True,
       newPage_result = Inr \<lparr>goto_result = None, waitForSelector_result = Inr True,
         textContent_result = Inr (Some ''$18.49''), isClosed_result = Inr False,
         close_result = Some \<lparr>name = ''Error'', message = ''Target closed''\<rparr>\<rparr>\<rparr>
     \<lparr>url = ''u1'', css_selector = ''#p'', current_value = JStr ''$19.99''\<rparr>))) ClosePageCalled = 1
   \<and> snd (snd (processMonitoringTarget
     \<lparr>connected = True,
       newPage_result = Inr \<lparr>goto_result = None, waitForSelector_result = Inr True,
         textContent_result = Inr (Some ''$18.49''), isClosed_result = Inr False,
         close_result = Some \<lparr>name = ''Error'', message = ''Target closed''\<rparr>\<rparr>\<rparr>
     \<lparr>url = ''u1'', css_selector = ''#p'', current_value = JStr ''$19.99''\<rparr>))
   = [(LogWarn, ''Failed to close page: Target closed'')]"
  using C5_cleanup_never_raises [where pg = None and b =
     "\<lparr>connected = True,
       newPage_result = Inr \<lparr>goto_result = None, waitForSelector_result = Inr True,
         textContent_result = Inr (Some ''$18.49''), isClosed_result = Inr False,
         close_result = Some \<lparr>name = ''Error'', message = ''Target closed''\<rparr>\<rparr>\<rparr>"
     and e = "\<lparr>url = ''u1'', css_selector = ''#p'', current_value = JStr ''$19.99''\<rparr>"
     and p = "\<lparr>goto_result = None, waitForSelector_result = Inr True,
         textContent_result = Inr (Some ''$18.49''), isClosed_result = Inr False,
         close_result = Some \<lparr>name = ''Error'', message = ''Target closed''\<rparr>\<rparr>"
     and x = "Inr False" and y = None
     and ce = "\<lparr>name = ''Error'', message = ''Target closed''\<rparr>"]
  by (simp add: createPage_def navigateAndExtract_def waitForSelector_def
      extractTextContent_def processEntry_def detectChange_def createChangeRecord_def
      trim_def is_ws_def)

section \<open>The per-target loop, the notification step and persistence\<close>

lemma rtf_fst: "fst (record_target_failure err e wfl) = categorizeError err (target_context e)"
  by (simp add: record_target_failure_def Let_def split: prod.splits)
     (metis handleError_fst fst_conv)

lemma rtf_snd:
  "results (snd (record_target_failure err e wfl)) =
     results wfl @ [ErrorResult \<lparr>er_entry = e, er_error = message err,
            er_errorType = etype (categorizeError err (target_context e)),
            er_severity = severity (categorizeError err (target_context e))\<rparr>]"
  "events (snd (record_target_failure err e wfl)) = events wfl"
  "slackNotifier (snd (record_target_failure err e wfl)) = slackNotifier wfl"
  "slackWebhook (snd (record_target_failure err e wfl)) = slackWebhook wfl"
  "errors (snd (record_target_failure err e wfl)) =
     errors wfl @ [\<lparr>se_type = etype (categorizeError err (target_context e)),
        se_message = message err, se_entry = Some e,
        se_severity = severity (categorizeError err (target_context e))\<rparr>]"
  using handleError_fst [of err "target_context e" "errorHandler wfl"]
  by (auto simp: record_target_failure_def Let_def split: prod.splits)

lemma loop_step_ok:
  "target_outcome w i e = Inr r \<Longrightarrow>
   targets_loop w i (e # rest) cs wfl =
     targets_loop w (Suc i) rest (if hasChanged r then cs @ [r] else cs)
       (wfl\<lparr>events := events wfl @ [TargetAttempt i],
            results := results wfl @ [ChangeResult r]\<rparr>)"
  by (simp add: target_outcome_def Let_def)

lemma loop_step_fail:
  "target_outcome w i e = Inl err \<Longrightarrow>
   targets_loop w i (e # rest) cs wfl =
     (if stops_at w i e
      then (Inl err, snd (record_target_failure err e (wfl\<lparr>events := events wfl @ [TargetAttempt i]\<rparr>)))
      else targets_loop w (Suc i) rest cs
             (snd (record_target_failure err e (wfl\<lparr>events := events wfl @ [TargetAttempt i]\<rparr>))))"
  using rtf_fst [of err e "wfl\<lparr>events := events wfl @ [TargetAttempt i]\<rparr>"]
  by (auto simp: target_outcome_def stops_at_def Let_def split: prod.splits)

lemma loop_results:
  "results (snd (targets_loop w i ts cs wfl)) =
     results wfl @ target_records w i (take (visited w i ts) ts)"
proof (induction ts arbitrary: i cs wfl)
  case Nil
  then show ?case by (simp add: target_records_def)
next
  case (Cons e rest)
  show ?case
  proof (cases "target_outcome w i e")
    case (Inl err)
    then show ?thesis
      by (simp add: loop_step_fail Cons.IH rtf_snd target_records_def target_record_def
          del: targets_loop.simps)
  next
    case (Inr r)
    then have "\<not> stops_at w i e" by (simp add: stops_at_def)
    with Inr show ?thesis
      by (simp add: loop_step_ok Cons.IH target_records_def target_record_def
          del: targets_loop.simps)
  qed
qed

lemma loop_events:
  "events (snd (targets_loop w i ts cs wfl)) =
     events wfl @ map TargetAttempt [i ..< i + visited w i ts]"
proof (induction ts arbitrary: i cs wfl)
  case Nil
  then show ?case by simp
next
  case (Cons e rest)
  show ?case
  proof (cases "target_outcome w i e")
    case (Inl err)
    then show ?thesis
      by (simp add: loop_step_fail Cons.IH rtf_snd upt_conv_Cons del: targets_loop.simps)
  next
    case (Inr r)
    then have "\<not> stops_at w i e" by (simp add: stops_at_def)
    with Inr show ?thesis
      by (simp add: loop_step_ok Cons.IH upt_conv_Cons del: targets_loop.simps)
  qed
qed


lemma loop_errors:
  "errors (snd (targets_loop w i ts cs wfl)) =
     errors wfl @ target_errors w i (take (visited w i ts) ts)"
proof (induction ts arbitrary: i cs wfl)
  case Nil
  then show ?case by (simp add: target_errors_def)
next
  case (Cons e rest)
  show ?case
  proof (cases "target_outcome w i e")
    case (Inl err)
    then show ?thesis
      by (simp add: loop_step_fail Cons.IH rtf_snd target_errors_def del: targets_loop.simps)
  next
    case (Inr r)
    then have "\<not> stops_at w i e" by (simp add: stops_at_def)
    with Inr show ?thesis
      by (simp add: loop_step_ok Cons.IH target_errors_def del: targets_loop.simps)
  qed
qed

lemma loop_notifier:
  "slackNotifier (snd (targets_loop w i ts cs wfl)) = slackNotifier wfl"
proof (induction ts arbitrary: i cs wfl)
  case Nil
  then show ?case by simp
next
  case (Cons e rest)
  show ?case
  proof (cases "target_outcome w i e")
    case (Inl err)
    then show ?thesis
      by (simp add: loop_step_fail Cons.IH rtf_snd del: targets_loop.simps)
  next
    case (Inr r)
    then show ?thesis
      by (simp add: loop_step_ok Cons.IH del: targets_loop.simps)
  qed
qed

lemma visited_le: "visited w i ts \<le> length ts"
  by (induction ts arbitrary: i) auto

lemma visited_all:
  "(\<forall>k < length ts. \<not> stops_at w (i + k) (ts ! k)) \<Longrightarrow> visited w i ts = length ts"
proof (induction ts arbitrary: i)
  case Nil
  then show ?case by simp
next
  case (Cons e rest)
  from Cons.prems have h: "\<not> stops_at w i e" by force
  have "\<forall>k < length rest. \<not> stops_at w (Suc i + k) (rest ! k)"
  proof (intro allI impI)
    fix k assume "k < length rest"
    then have "Suc k < length (e # rest)" by simp
    with Cons.prems have "\<not> stops_at w (i + Suc k) ((e # rest) ! Suc k)" by blast
    then show "\<not> stops_at w (Suc i + k) (rest ! k)" by simp
  qed
  then have "visited w (Suc i) rest = length rest" by (rule Cons.IH)
  with h show ?case by simp
qed

lemma visited_first:
  "k < length ts \<Longrightarrow> stops_at w (i + k) (ts ! k) \<Longrightarrow>
   (\<forall>j < k. \<not> stops_at w (i + j) (ts ! j)) \<Longrightarrow> visited w i ts = Suc k"
proof (induction ts arbitrary: i k)
  case Nil
  then show ?case by simp
next
  case (Cons e rest)
  show ?case
  proof (cases k)
    case 0
    with Cons.prems show ?thesis by simp
  next
    case (Suc k')
    with Cons.prems have h: "\<not> stops_at w i e" by force
    have a: "k' < length rest" using Cons.prems Suc by simp
    have b: "stops_at w (Suc i + k') (rest ! k')" using Cons.prems Suc by simp
    have c: "\<forall>j < k'. \<not> stops_at w (Suc i + j) (rest ! j)"
    proof (intro allI impI)
      fix j assume "j < k'"
      then have "Suc j < k" using Suc by simp
      with Cons.prems have "\<not> stops_at w (i + Suc j) ((e # rest) ! Suc j)" by blast
      then show "\<not> stops_at w (Suc i + j) (rest ! j)" by simp
    qed
    from Cons.IH [OF a b c] h Suc show ?thesis by simp
  qed
qed

lemma loop_completes:
  "(\<forall>k < length ts. \<not> stops_at w (i + k) (ts ! k)) \<Longrightarrow>
   fst (targets_loop w i ts cs wfl) = Inr (cs @ detected_changes (target_records w i ts))"
proof (induction ts arbitrary: i cs wfl)
  case Nil
  then show ?case by (simp add: target_records_def)
next
  case (Cons e rest)
  from Cons.prems have h: "\<not> stops_at w i e"
    and r: "\<forall>k < length rest. \<not> stops_at w (Suc i + k) (rest ! k)"
    by (simp_all add: All_less_Suc2)
  show ?case
  proof (cases "target_outcome w i e")
    case (Inl err)
    with h show ?thesis
      by (simp add: loop_step_fail Cons.IH [OF r] target_records_def target_record_def
          del: targets_loop.simps)
  next
    case (Inr c)
    then show ?thesis
      by (simp add: loop_step_ok Cons.IH [OF r] target_records_def target_record_def
          del: targets_loop.simps)
  qed
qed

lemma loop_aborts:
  "k < length ts \<Longrightarrow> stops_at w (i + k) (ts ! k) \<Longrightarrow>
   (\<forall>j < k. \<not> stops_at w (i + j) (ts ! j)) \<Longrightarrow>
   \<exists>err. target_outcome w (i + k) (ts ! k) = Inl err
         \<and> fst (targets_loop w i ts cs wfl) = Inl err"
proof (induction ts arbitrary: i k cs wfl)
  case Nil
  then show ?case by simp
next
  case (Cons e rest)
  show ?case
  proof (cases k)
    case 0
    with Cons.prems have s: "stops_at w i e" by simp
    then obtain err where "target_outcome w i e = Inl err"
      by (auto simp: stops_at_def split: sum.splits)
    with s 0 show ?thesis
      by (simp add: loop_step_fail del: targets_loop.simps)
  next
    case (Suc k')
    with Cons.prems have h: "\<not> stops_at w i e"
      and a: "k' < length rest" and b: "stops_at w (Suc i + k') (rest ! k')"
      and c: "\<forall>j < k'. \<not> stops_at w (Suc i + j) (rest ! j)"
      by (simp_all add: All_less_Suc2)
    note ih = Cons.IH [OF a b c]
    show ?thesis
    proof (cases "target_outcome w i e")
      case (Inl err)
      with h ih Suc show ?thesis
        by (simp add: loop_step_fail del: targets_loop.simps)
    next
      case (Inr r)
      with ih Suc show ?thesis
        by (simp add: loop_step_ok del: targets_loop.simps)
    qed
  qed
qed

lemma first_stop:
  assumes "\<exists>k < length ts. stops_at w (i + k) (ts ! k)"
  obtains k where "k < length ts" "stops_at w (i + k) (ts ! k)"
    "\<forall>j < k. \<not> stops_at w (i + j) (ts ! j)"
proof -
  let ?P = "\<lambda>k. k < length ts \<and> stops_at w (i + k) (ts ! k)"
  from assms have ex: "\<exists>k. ?P k" by blast
  define k where "k = (LEAST k. ?P k)"
  have "?P k" unfolding k_def using ex by (rule LeastI_ex)
  moreover have "\<forall>j < k. \<not> stops_at w (i + j) (ts ! j)"
  proof (intro allI impI)
    fix j assume "j < k"
    then have "\<not> ?P j" unfolding k_def by (rule not_less_Least)
    moreover have "j < length ts" using \<open>j < k\<close> \<open>?P k\<close> by simp
    ultimately show "\<not> stops_at w (i + j) (ts ! j)" by simp
  qed
  ultimately show ?thesis using that by blast
qed

lemma loop_aborts_iff:
  "(\<exists>err. fst (targets_loop w i ts cs wfl) = Inl err)
   \<longleftrightarrow> (\<exists>k < length ts. stops_at w (i + k) (ts ! k))"
proof
  assume a: "\<exists>err. fst (targets_loop w i ts cs wfl) = Inl err"
  show "\<exists>k < length ts. stops_at w (i + k) (ts ! k)"
  proof (rule ccontr)
    assume "\<not> (\<exists>k < length ts. stops_at w (i + k) (ts ! k))"
    then have "\<forall>k < length ts. \<not> stops_at w (i + k) (ts ! k)" by blast
    from loop_completes [OF this] a show False by simp
  qed
next
  assume "\<exists>k < length ts. stops_at w (i + k) (ts ! k)"
  then obtain k where "k < length ts" "stops_at w (i + k) (ts ! k)"
    "\<forall>j < k. \<not> stops_at w (i + j) (ts ! j)" by (rule first_stop)
  from loop_aborts [OF this] show "\<exists>err. fst (targets_loop w i ts cs wfl) = Inl err"
    by blast
qed

lemma target_records_length: "length (target_records w i ts) = length ts"
  by (simp add: target_records_def)

lemma target_records_nth:
  "k < length ts \<Longrightarrow> target_records w i ts ! k = target_record w (i + k) (ts ! k)"
  by (simp add: target_records_def nth_enumerate_eq)


lemma sendChangeNotification_returns:
  "\<exists>sent. sendChangeNotification webhookUrl c out = Inr sent"
  by (auto simp: sendChangeNotification_def Let_def split: option.splits sum.splits)

lemma notify_step:
  "sendNotificationsForChanges w u j (c # rest) wfl =
     sendNotificationsForChanges w u (Suc j) rest
       (wfl\<lparr>events := events wfl @ [NotifyStart c, NotifyEnd c]\<rparr>)"
proof -
  obtain sent where "sendChangeNotification u c (axios_at w j) = Inr sent"
    using sendChangeNotification_returns by blast
  then show ?thesis by (simp add: Let_def)
qed

lemma notify_all:
  "sendNotificationsForChanges w u j cs wfl = wfl\<lparr>events := events wfl @ notifications cs\<rparr>"
proof (induction cs arbitrary: j wfl)
  case Nil
  then show ?case by (simp add: notifications_def)
next
  case (Cons c rest)
  show ?case
    by (simp add: notify_step Cons.IH notifications_def del: sendNotificationsForChanges.simps)
qed

lemma nap_events:
  "events (snd (notify_and_persist w ts cs wfl)) =
     events wfl
     @ (if cs = [] then []
        else (case slackNotifier wfl of Some u \<Rightarrow> notifications cs | None \<Rightarrow> [])
             @ PersistStart cs
               # (case fst (updateAndPersist (fs w) ts cs) of Inr _ \<Rightarrow> [PersistEnd] | Inl _ \<Rightarrow> []))"
  by (simp add: notify_and_persist_def Let_def notify_all
      split: option.splits sum.splits prod.splits)

lemma nap_results:
  "results (snd (notify_and_persist w ts cs wfl)) = results wfl"
  by (simp add: notify_and_persist_def Let_def notify_all
      split: option.splits sum.splits prod.splits)

lemma nap_notifier:
  "slackNotifier (snd (notify_and_persist w ts cs wfl)) = slackNotifier wfl"
  by (simp add: notify_and_persist_def Let_def notify_all
      split: option.splits sum.splits prod.splits)

lemma nap_errors:
  "errors (snd (notify_and_persist w ts cs wfl)) =
     errors wfl
     @ (if cs = [] then []
        else (case fst (updateAndPersist (fs w) ts cs) of
                Inr _ \<Rightarrow> []
              | Inl err \<Rightarrow>
                  [\<lparr>se_type = etype (categorizeError err persistence_context),
                    se_message = message err, se_entry = None,
                    se_severity = severity (categorizeError err persistence_context)\<rparr>]))"
proof -
  have "fst (handleError err persistence_context h) = categorizeError err persistence_context"
    for err h by (rule handleError_fst)
  then have h: "handleError err persistence_context h = (x, y) \<Longrightarrow>
      x = categorizeError err persistence_context" for err h x y
    by (metis fst_conv)
  show ?thesis
    by (auto simp: notify_and_persist_def Let_def notify_all
        persistence_context_def [symmetric] dest: h
        split: option.splits sum.splits prod.splits)
qed

lemma nap_fst:
  "fst (notify_and_persist w ts cs wfl) =
     (if cs = [] then Inr ()
      else (case fst (updateAndPersist (fs w) ts cs) of Inr _ \<Rightarrow> Inr () | Inl err \<Rightarrow> Inl err))"
  by (simp add: notify_and_persist_def Let_def
      split: option.splits sum.splits prod.splits)


lemma pmt_results:
  "results (snd (processMonitoringTargets w ts wfl)) =
     results wfl @ target_records w 0 (take (visited w 0 ts) ts)"
  using loop_results [of w 0 ts "[]" wfl]
  by (auto simp: processMonitoringTargets_def nap_results split: prod.splits sum.splits)

lemma pmt_notifier:
  "slackNotifier (snd (processMonitoringTargets w ts wfl)) = slackNotifier wfl"
  using loop_notifier [of w 0 ts "[]" wfl]
  by (auto simp: processMonitoringTargets_def nap_notifier split: prod.splits sum.splits)

lemma pmt_aborted:
  assumes "\<exists>k < length ts. stops_at w k (ts ! k)"
  shows "events (snd (processMonitoringTargets w ts wfl)) =
           events wfl @ map TargetAttempt [0 ..< visited w 0 ts]"
    and "\<exists>err. fst (processMonitoringTargets w ts wfl) = Inl err"
    and "errors (snd (processMonitoringTargets w ts wfl)) =
           errors wfl @ target_errors w 0 (take (visited w 0 ts) ts)"
proof -
  from assms have "\<exists>err. fst (targets_loop w 0 ts [] wfl) = Inl err"
    using loop_aborts_iff [of w 0 ts "[]" wfl] by simp
  then obtain err where e: "fst (targets_loop w 0 ts [] wfl) = Inl err" by blast
  then have p: "processMonitoringTargets w ts wfl = (Inl err, snd (targets_loop w 0 ts [] wfl))"
    by (auto simp: processMonitoringTargets_def split: prod.splits sum.splits)
  show "events (snd (processMonitoringTargets w ts wfl)) =
           events wfl @ map TargetAttempt [0 ..< visited w 0 ts]"
    using loop_events [of w 0 ts "[]" wfl] by (simp add: p)
  show "\<exists>err. fst (processMonitoringTargets w ts wfl) = Inl err" by (simp add: p)
  show "errors (snd (processMonitoringTargets w ts wfl)) =
           errors wfl @ target_errors w 0 (take (visited w 0 ts) ts)"
    using loop_errors [of w 0 ts "[]" wfl] by (simp add: p)
qed

lemma pmt_completed:
  assumes "\<forall>k < length ts. \<not> stops_at w k (ts ! k)"
  shows "processMonitoringTargets w ts wfl =
           notify_and_persist w ts (detected_changes (target_records w 0 ts))
             (snd (targets_loop w 0 ts [] wfl))"
proof -
  have "fst (targets_loop w 0 ts [] wfl) = Inr ([] @ detected_changes (target_records w 0 ts))"
    by (rule loop_completes) (use assms in simp)
  then show ?thesis
    by (auto simp: processMonitoringTargets_def split: prod.splits sum.splits)
qed

lemma pmt_completed_events:
  assumes "\<forall>k < length ts. \<not> stops_at w k (ts ! k)"
  shows "events (snd (processMonitoringTargets w ts wfl)) =
     events wfl @ map TargetAttempt [0 ..< length ts]
     @ (if detected_changes (target_records w 0 ts) = [] then []
        else (case slackNotifier wfl of
                Some u \<Rightarrow> notifications (detected_changes (target_records w 0 ts))
              | None \<Rightarrow> [])
             @ PersistStart (detected_changes (target_records w 0 ts))
               # (case fst (updateAndPersist (fs w) ts (detected_changes (target_records w 0 ts))) of
                    Inr _ \<Rightarrow> [PersistEnd] | Inl _ \<Rightarrow> []))"
proof -
  have v: "visited w 0 ts = length ts"
    by (rule visited_all) (use assms in simp)
  show ?thesis
    using loop_events [of w 0 ts "[]" wfl] loop_notifier [of w 0 ts "[]" wfl]
    by (simp add: pmt_completed [OF assms] nap_events v)
qed

section \<open>Stop or continue: the loop and its results\<close>

text \<open>
  C2. \<open>shouldStopWorkflow\<close> is true exactly of the classifications of severity CRITICAL.
  In the per-target loop, a failure stops the loop exactly when its classification is
  CRITICAL: the loop leaves with an error if and only if some target's failure is so
  classified; it then leaves with the error of the first such target, having attempted
  the targets up to that one and no further; and when no failure is CRITICAL, every
  target is attempted, every outcome or failure is appended to the results and every
  failure to the session's errors.
\<close>

theorem C2_critical_aborts_loop:
  "shouldStopWorkflow c = (severity c = CRITICAL)
   \<and> stops_at w j e =
       (\<exists>err. target_outcome w j e = Inl err
              \<and> severity (categorizeError err (target_context e)) = CRITICAL)
   \<and> ((\<exists>err. fst (targets_loop w 0 ts [] wfl) = Inl err)
        = (\<exists>k < length ts. stops_at w k (ts ! k)))
   \<and> (\<forall>k < length ts.
        stops_at w k (ts ! k) \<and> (\<forall>j < k. \<not> stops_at w j (ts ! j)) \<longrightarrow>
        (\<exists>err. target_outcome w k (ts ! k) = Inl err
               \<and> fst (targets_loop w 0 ts [] wfl) = Inl err)
        \<and> events (snd (targets_loop w 0 ts [] wfl))
            = events wfl @ map TargetAttempt [0 ..< Suc k])
   \<and> ((\<forall>k < length ts. \<not> stops_at w k (ts ! k)) \<longrightarrow>
        events (snd (targets_loop w 0 ts [] wfl))
          = events wfl @ map TargetAttempt [0 ..< length ts]
        \<and> results (snd (targets_loop w 0 ts [] wfl)) = results wfl @ target_records w 0 ts
        \<and> errors (snd (targets_loop w 0 ts [] wfl)) = errors wfl @ target_errors w 0 ts)"
proof -
  have a: "shouldStopWorkflow c = (severity c = CRITICAL)"
    by (simp add: shouldStopWorkflow_def)
  have b: "stops_at w j e =
       (\<exists>err. target_outcome w j e = Inl err
              \<and> severity (categorizeError err (target_context e)) = CRITICAL)"
    by (auto simp: stops_at_def shouldStopWorkflow_def split: sum.splits)
  have c: "(\<exists>err. fst (targets_loop w 0 ts [] wfl) = Inl err)
        = (\<exists>k < length ts. stops_at w k (ts ! k))"
    using loop_aborts_iff [of w 0 ts "[]" wfl] by simp
  have d: "\<forall>k < length ts.
        stops_at w k (ts ! k) \<and> (\<forall>j < k. \<not> stops_at w j (ts ! j)) \<longrightarrow>
        (\<exists>err. target_outcome w k (ts ! k) = Inl err
               \<and> fst (targets_loop w 0 ts [] wfl) = Inl err)
        \<and> events (snd (targets_loop w 0 ts [] wfl))
            = events wfl @ map TargetAttempt [0 ..< Suc k]"
  proof (intro allI impI)
    fix k assume k: "k < length ts"
      and s: "stops_at w k (ts ! k) \<and> (\<forall>j < k. \<not> stops_at w j (ts ! j))"
    have "\<exists>err. target_outcome w (0 + k) (ts ! k) = Inl err
         \<and> fst (targets_loop w 0 ts [] wfl) = Inl err"
      by (rule loop_aborts) (use k s in simp_all)
    then have 1: "\<exists>err. target_outcome w k (ts ! k) = Inl err
               \<and> fst (targets_loop w 0 ts [] wfl) = Inl err" by simp
    have "visited w 0 ts = Suc k"
      by (rule visited_first) (use k s in simp_all)
    then have 2: "events (snd (targets_loop w 0 ts [] wfl))
            = events wfl @ map TargetAttempt [0 ..< Suc k]"
      using loop_events [of w 0 ts "[]" wfl] by simp
    from 1 2 show "(\<exists>err. target_outcome w k (ts ! k) = Inl err
               \<and> fst (targets_loop w 0 ts [] wfl) = Inl err)
        \<and> events (snd (targets_loop w 0 ts [] wfl))
            = events wfl @ map TargetAttempt [0 ..< Suc k]" ..
  qed
  have e: "(\<forall>k < length ts. \<not> stops_at w k (ts ! k)) \<longrightarrow>
        events (snd (targets_loop w 0 ts [] wfl))
          = events wfl @ map TargetAttempt [0 ..< length ts]
        \<and> results (snd (targets_loop w 0 ts [] wfl)) = results wfl @ target_records w 0 ts
        \<and> errors (snd (targets_loop w 0 ts [] wfl)) = errors wfl @ target_errors w 0 ts"
  proof
    assume n: "\<forall>k < length ts. \<not> stops_at w k (ts ! k)"
    have v: "visited w 0 ts = length ts"
      by (rule visited_all) (use n in simp)
    show "events (snd (targets_loop w 0 ts [] wfl))
          = events wfl @ map TargetAttempt [0 ..< length ts]
        \<and> results (snd (targets_loop w 0 ts [] wfl)) = results wfl @ target_records w 0 ts
        \<and> errors (snd (targets_loop w 0 ts [] wfl)) = errors wfl @ target_errors w 0 ts"
      using loop_events [of w 0 ts "[]" wfl] loop_results [of w 0 ts "[]" wfl]
        loop_errors [of w 0 ts "[]" wfl] by (simp add: v)
  qed
  from a b c d e show ?thesis by blast
qed

text \<open>
  C3, amended. Every target the loop attempts appends exactly one record, in order: an
  outcome or a failure record. With no CRITICAL classification the loop adds as many
  results as there are targets. When the first CRITICAL classification is at the
  target of index \<open>k\<close> (from 0), the run leaves with that error after adding \<open>k + 1\<close>
  results: fewer than the number of targets exactly when that target is not the last.
\<close>

theorem C3_one_record_per_target_amended:
  "results (snd (processMonitoringTargets w ts wfl))
     = results wfl @ target_records w 0 (take (visited w 0 ts) ts)
   \<and> length (results (snd (processMonitoringTargets w ts wfl)))
       = length (results wfl) + visited w 0 ts
   \<and> visited w 0 ts \<le> length ts
   \<and> ((\<forall>k < length ts. \<not> stops_at w k (ts ! k)) \<longrightarrow>
        length (results (snd (processMonitoringTargets w ts wfl)))
          = length (results wfl) + length ts)
   \<and> (\<forall>k < length ts.
        stops_at w k (ts ! k) \<and> (\<forall>j < k. \<not> stops_at w j (ts ! j)) \<longrightarrow>
        length (results (snd (processMonitoringTargets w ts wfl)))
          = length (results wfl) + k + 1
        \<and> (\<exists>err. fst (processMonitoringTargets w ts wfl) = Inl err)
        \<and> (length (results (snd (processMonitoringTargets w ts wfl)))
              < length (results wfl) + length ts) = (k + 1 < length ts))"
proof -
  note r = pmt_results [of w ts wfl]
  have l: "length (results (snd (processMonitoringTargets w ts wfl)))
       = length (results wfl) + visited w 0 ts"
    using visited_le [of w 0 ts] by (simp add: r target_records_length)
  have c: "(\<forall>k < length ts. \<not> stops_at w k (ts ! k)) \<longrightarrow>
        length (results (snd (processMonitoringTargets w ts wfl)))
          = length (results wfl) + length ts"
    using visited_all [of ts w 0] by (simp add: l)
  have d: "\<forall>k < length ts.
        stops_at w k (ts ! k) \<and> (\<forall>j < k. \<not> stops_at w j (ts ! j)) \<longrightarrow>
        length (results (snd (processMonitoringTargets w ts wfl)))
          = length (results wfl) + k + 1
        \<and> (\<exists>err. fst (processMonitoringTargets w ts wfl) = Inl err)
        \<and> (length (results (snd (processMonitoringTargets w ts wfl)))
              < length (results wfl) + length ts) = (k + 1 < length ts)"
  proof (intro allI impI)
    fix k assume k: "k < length ts"
      and s: "stops_at w k (ts ! k) \<and> (\<forall>j < k. \<not> stops_at w j (ts ! j))"
    have v: "visited w 0 ts = Suc k"
      by (rule visited_first) (use k s in simp_all)
    have "\<exists>k < length ts. stops_at w k (ts ! k)" using k s by blast
    then have "\<exists>err. fst (processMonitoringTargets w ts wfl) = Inl err"
      by (rule pmt_aborted(2))
    then show "length (results (snd (processMonitoringTargets w ts wfl)))
          = length (results wfl) + k + 1
        \<and> (\<exists>err. fst (processMonitoringTargets w ts wfl) = Inl err)
        \<and> (length (results (snd (processMonitoringTargets w ts wfl)))
              < length (results wfl) + length ts) = (k + 1 < length ts)"
      by (simp add: l v)
  qed
  from r l c d visited_le [of w 0 ts] show ?thesis by blast
qed


lemma steady_outcome:
  "target_outcome steady_world i example_entry =
     Inr \<lparr>entry = Some example_entry, hasChanged = True, oldValue = JStr ''$19.99'',
          newValue = JStr ''$18.49''\<rparr>"
  by (simp add: target_outcome_def steady_world_def browser_with_def page_showing_def
      processMonitoringTarget_def createPage_def try_finally_def closePage_def
      navigateAndExtract_def waitForSelector_def extractTextContent_def example_entry_def
      processEntry_def detectChange_def createChangeRecord_def trim_def is_ws_def)

lemma steady_continues: "\<not> stops_at steady_world i example_entry"
  by (simp add: stops_at_def steady_outcome)

lemma failing_outcome_0:
  "target_outcome failing_world 0 example_entry =
     Inl (new_Error (''Page monitoring error for '' @ dq @ ''u1'' @ dq @ '' with selector ''
        @ dq @ ''#p'' @ dq @ '': Timeout waiting for selector '' @ dq @ ''#p'' @ dq
        @ '' after 10000ms''))"
  by (simp add: target_outcome_def failing_world_def browser_with_def page_selector_timeout_def
      processMonitoringTarget_def createPage_def try_finally_def closePage_def
      navigateAndExtract_def waitForSelector_def waitForSelector_catch_def n10000
      handleNavigationError_def message_or_unknown_def new_Error_def dq_def
      example_entry_def eval_includes)

lemma failing_continues_0: "\<not> stops_at failing_world 0 example_entry"
  by (simp add: stops_at_def failing_outcome_0 shouldStopWorkflow_def categorizeError_def
      message_or_unknown_def new_Error_def dq_def rule_defs eval_includes Let_def)

lemma failing_outcome_1:
  "target_outcome failing_world (Suc 0) e =
     Inl (new_Error ''Failed to create page: Browser is not connected. Call connect() first.'')"
  by (simp add: target_outcome_def failing_world_def processMonitoringTarget_def createPage_def
      try_finally_def new_Error_def)

lemma failing_stops_1: "stops_at failing_world (Suc 0) e"
  by (simp add: stops_at_def failing_outcome_1 shouldStopWorkflow_def categorizeError_def
      message_or_unknown_def new_Error_def rule_defs eval_includes Let_def)

text \<open>
  C3, as the claim states it, fails in its last part: the record of the failure is
  appended before the loop decides to stop, so a CRITICAL failure at the last target
  (here the second of two, after a failure of severity MEDIUM at the first) leaves as
  many results as there are targets.
\<close>

theorem C3_results_length_counterexample:
  "\<not> stops_at failing_world 0 example_entry
   \<and> stops_at failing_world 1 second_entry
   \<and> fst (processMonitoringTargets failing_world [example_entry, second_entry]
            (initialize None))
       = Inl (new_Error
           ''Failed to create page: Browser is not connected. Call connect() first.'')
   \<and> \<not> length (results (snd (processMonitoringTargets failing_world
           [example_entry, second_entry] (initialize None))))
         < length [example_entry, second_entry]"
proof -
  have c: "\<not> stops_at failing_world 0 example_entry" by (rule failing_continues_0)
  have s: "stops_at failing_world 1 second_entry" using failing_stops_1 by simp
  have "\<exists>err. target_outcome failing_world (0 + 1) ([example_entry, second_entry] ! 1) = Inl err
         \<and> fst (targets_loop failing_world 0 [example_entry, second_entry] []
                  (initialize None)) = Inl err"
    by (rule loop_aborts) (use c s in \<open>simp_all add: All_less_Suc\<close>)
  then have "fst (targets_loop failing_world 0 [example_entry, second_entry] []
                  (initialize None))
       = Inl (new_Error
           ''Failed to create page: Browser is not connected. Call connect() first.'')"
    using failing_outcome_1 [of second_entry] by auto
  then have f: "fst (processMonitoringTargets failing_world [example_entry, second_entry]
            (initialize None))
       = Inl (new_Error
           ''Failed to create page: Browser is not connected. Call connect() first.'')"
    by (auto simp: processMonitoringTargets_def split: prod.splits sum.splits)
  have "visited failing_world 0 [example_entry, second_entry] = Suc 1"
    by (rule visited_first) (use c s in \<open>simp_all add: All_less_Suc\<close>)
  then have l: "\<not> length (results (snd (processMonitoringTargets failing_world
           [example_entry, second_entry] (initialize None))))
         < length [example_entry, second_entry]"
    by (simp add: pmt_results initialize_def target_records_length)
  from c s f l show ?thesis by blast
qed

theorem C2_critical_aborts_loop_witness:
  "(\<exists>err. fst (targets_loop failing_world 0 [example_entry, second_entry] [] (initialize None))
           = Inl err)
   \<and> events (snd (targets_loop failing_world 0 [example_entry, second_entry] []
         (initialize None))) = [TargetAttempt 0, TargetAttempt 1]
   \<and> events (snd (targets_loop steady_world 0 [example_entry] [] (initialize None)))
       = [TargetAttempt 0]"
proof -
  note f = C2_critical_aborts_loop [where w = failing_world
      and ts = "[example_entry, second_entry]" and wfl = "initialize None"]
  note s = C2_critical_aborts_loop [where w = steady_world
      and ts = "[example_entry]" and wfl = "initialize None"]
  from f have "\<forall>k < length [example_entry, second_entry].
        stops_at failing_world k ([example_entry, second_entry] ! k)
        \<and> (\<forall>j < k. \<not> stops_at failing_world j ([example_entry, second_entry] ! j)) \<longrightarrow>
        (\<exists>err. target_outcome failing_world k ([example_entry, second_entry] ! k) = Inl err
               \<and> fst (targets_loop failing_world 0 [example_entry, second_entry] []
                    (initialize None)) = Inl err)
        \<and> events (snd (targets_loop failing_world 0 [example_entry, second_entry] []
             (initialize None)))
            = events (initialize None) @ map TargetAttempt [0 ..< Suc k]"
    by blast
  from this [rule_format, of "Suc 0"] failing_continues_0 failing_stops_1 [of second_entry]
  have 1: "(\<exists>err. fst (targets_loop failing_world 0 [example_entry, second_entry] []
                    (initialize None)) = Inl err)
        \<and> events (snd (targets_loop failing_world 0 [example_entry, second_entry] []
             (initialize None))) = [TargetAttempt 0, TargetAttempt 1]"
    by (auto simp: initialize_def upt_conv_Cons)
  from s have "(\<forall>k < length [example_entry]. \<not> stops_at steady_world k ([example_entry] ! k)) \<longrightarrow>
        events (snd (targets_loop steady_world 0 [example_entry] [] (initialize None)))
          = events (initialize None) @ map TargetAttempt [0 ..< length [example_entry]]"
    by blast
  with steady_continues [of 0]
  have 2: "events (snd (targets_loop steady_world 0 [example_entry] [] (initialize None)))
       = [TargetAttempt 0]"
    by (simp add: initialize_def)
  from 1 2 show ?thesis by blast
qed


theorem C3_one_record_per_target_amended_witness:
  "length (results (snd (processMonitoringTargets failing_world
       [example_entry, second_entry, third_entry] (initialize None)))) = 2
   \<and> length (results (snd (processMonitoringTargets steady_world [example_entry]
       (initialize None)))) = 1"
proof -
  note f = C3_one_record_per_target_amended [where w = failing_world
      and ts = "[example_entry, second_entry, third_entry]" and wfl = "initialize None"]
  note s = C3_one_record_per_target_amended [where w = steady_world
      and ts = "[example_entry]" and wfl = "initialize None"]
  from f have "\<forall>k < length [example_entry, second_entry, third_entry].
        stops_at failing_world k ([example_entry, second_entry, third_entry] ! k)
        \<and> (\<forall>j < k. \<not> stops_at failing_world j
               ([example_entry, second_entry, third_entry] ! j)) \<longrightarrow>
        length (results (snd (processMonitoringTargets failing_world
          [example_entry, second_entry, third_entry] (initialize None))))
          = length (results (initialize None)) + k + 1"
    by blast
  from this [rule_format, of "Suc 0"] failing_continues_0 failing_stops_1 [of second_entry]
  have 1: "length (results (snd (processMonitoringTargets failing_world
       [example_entry, second_entry, third_entry] (initialize None)))) = 2"
    by (auto simp: initialize_def)
  from s have "(\<forall>k < length [example_entry]. \<not> stops_at steady_world k ([example_entry] ! k)) \<longrightarrow>
        length (results (snd (processMonitoringTargets steady_world [example_entry]
          (initialize None)))) = length (results (initialize None)) + length [example_entry]"
    by blast
  with steady_continues [of 0]
  have 2: "length (results (snd (processMonitoringTargets steady_world [example_entry]
       (initialize None)))) = 1"
    by (simp add: initialize_def)
  from 1 2 show ?thesis by blast
qed

section \<open>The whole run\<close>

lemma handleError_pair: "handleError e ctx h = (c, h') \<Longrightarrow> c = categorizeError e ctx"
  by (metis handleError_fst fst_conv)

lemma execute_fields:
  "events (snd (execute sw w wh)) = events (snd (execute_body sw w (initialize wh)))"
  "results (snd (execute sw w wh)) = results (snd (execute_body sw w (initialize wh)))"
  "slackNotifier (snd (execute sw w wh))
     = slackNotifier (snd (execute_body sw w (initialize wh)))"
  by (auto simp: execute_def Let_def split: prod.splits sum.splits)

lemma execute_errors:
  "errors (snd (execute sw w wh)) =
     errors (snd (execute_body sw w (initialize wh)))
     @ (case fst (execute_body sw w (initialize wh)) of
          Inr _ \<Rightarrow> [] | Inl err \<Rightarrow> [error_record err workflow_context])"
  by (auto simp: execute_def Let_def error_record_def workflow_context_def [symmetric]
      split: prod.splits sum.splits dest!: handleError_pair)

lemma execute_ok:
  "fst (execute_body sw w (initialize wh)) = Inr u \<Longrightarrow> fst (execute sw w wh) = Inr ()"
  by (auto simp: execute_def Let_def split: prod.splits sum.splits)

lemma body_not_started:
  assumes "\<not> (\<exists>cfg. loadConfig_result sw = Inr cfg \<and> launch_error sw = None
              \<and> connect_error sw = None)"
  shows "events (snd (execute_body sw w (initialize wh))) = []"
    and "results (snd (execute_body sw w (initialize wh))) = []"
proof -
  have i: "events (initialize wh) = []" "results (initialize wh) = []"
    by (simp_all add: initialize_def)
  have u: "events (use_config_webhook cfg (initialize wh)) = []"
    "results (use_config_webhook cfg (initialize wh)) = []" for cfg
    by (simp_all add: use_config_webhook_def initialize_def Let_def)
  show "events (snd (execute_body sw w (initialize wh))) = []"
  proof (cases "loadConfig_result sw")
    case (Inl e)
    then show ?thesis by (simp add: execute_body_def i)
  next
    case (Inr cfg)
    with assms have "launch_error sw \<noteq> None \<or> connect_error sw \<noteq> None" by simp
    with Inr show ?thesis
      by (auto simp: execute_body_def Let_def u split: option.splits)
  qed
  show "results (snd (execute_body sw w (initialize wh))) = []"
  proof (cases "loadConfig_result sw")
    case (Inl e)
    then show ?thesis by (simp add: execute_body_def i)
  next
    case (Inr cfg)
    with assms have "launch_error sw \<noteq> None \<or> connect_error sw \<noteq> None" by simp
    with Inr show ?thesis
      by (auto simp: execute_body_def Let_def u split: option.splits)
  qed
qed

lemma body_started:
  assumes "loadConfig_result sw = Inr cfg" "launch_error sw = None" "connect_error sw = None"
  shows "execute_body sw w (initialize wh) =
           processMonitoringTargets w (cfg_targets cfg) (use_config_webhook cfg (initialize wh))"
  using assms by (simp add: execute_body_def Let_def)

lemma init_fields:
  "events (use_config_webhook cfg (initialize wh)) = []"
  "results (use_config_webhook cfg (initialize wh)) = []"
  "errors (use_config_webhook cfg (initialize wh)) = []"
  by (simp_all add: use_config_webhook_def initialize_def Let_def)

lemma no_webhook:
  "\<not> truthy wh \<Longrightarrow> \<not> truthy (slack_webhook cfg) \<Longrightarrow>
   slackNotifier (use_config_webhook cfg (initialize wh)) = None"
  by (simp add: use_config_webhook_def initialize_def Let_def)

section \<open>Notify before persist\<close>

lemma notifications_notify: "x \<in> set (notifications cs) \<Longrightarrow> is_notify x \<and> \<not> is_persist x"
  by (induction cs) (auto simp: notifications_def)

lemma filter_notifications: "filter is_notify (notifications cs) = notifications cs"
  by (induction cs) (auto simp: notifications_def)

lemma filter_attempts: "filter is_notify (map TargetAttempt xs) = []"
  by (induction xs) auto

lemma order_shape:
  assumes "evs = A @ N @ P"
    and "\<forall>x \<in> set A. \<not> is_notify x \<and> \<not> is_persist x"
    and "\<forall>x \<in> set N. \<not> is_persist x"
    and "\<forall>x \<in> set P. \<not> is_notify x"
    and "i < length evs" and "j < length evs"
    and "is_persist (evs ! i)" and "is_notify (evs ! j)"
  shows "j < i"
proof -
  have i: "length A + length N \<le> i"
  proof (rule ccontr)
    assume "\<not> length A + length N \<le> i"
    then have "i < length (A @ N)" by simp
    moreover have "evs = (A @ N) @ P" using assms(1) by simp
    ultimately have "evs ! i = (A @ N) ! i" by (simp only: nth_append if_True)
    moreover have "(A @ N) ! i \<in> set (A @ N)" using \<open>i < length (A @ N)\<close> by (rule nth_mem)
    ultimately show False using assms(2,3,7) by auto
  qed
  have j: "j < length A + length N"
  proof (rule ccontr)
    assume n: "\<not> j < length A + length N"
    moreover have "evs = (A @ N) @ P" using assms(1) by simp
    ultimately have "evs ! j = P ! (j - (length A + length N))"
      by (simp only: nth_append length_append if_False)
    moreover have "j - (length A + length N) < length P" using n assms(1,6) by simp
    then have "P ! (j - (length A + length N)) \<in> set P" by (rule nth_mem)
    ultimately show False using assms(4,8) by auto
  qed
  from i j show ?thesis by simp
qed

lemma pmt_shape:
  assumes e: "events wfl = []" and r: "results wfl = []"
  shows "\<exists>n N P. events (snd (processMonitoringTargets w ts wfl))
                  = map TargetAttempt [0 ..< n] @ N @ P
     \<and> (N = [] \<or> N = notifications (detected_changes
                        (results (snd (processMonitoringTargets w ts wfl)))))
     \<and> (P = []
        \<or> P = [PersistStart (detected_changes
                        (results (snd (processMonitoringTargets w ts wfl))))]
        \<or> P = [PersistStart (detected_changes
                        (results (snd (processMonitoringTargets w ts wfl)))), PersistEnd])
     \<and> (P \<noteq> [] \<longrightarrow>
          detected_changes (results (snd (processMonitoringTargets w ts wfl))) \<noteq> []
          \<and> (slackNotifier wfl \<noteq> None \<longrightarrow>
               N = notifications (detected_changes
                        (results (snd (processMonitoringTargets w ts wfl))))))
     \<and> (detected_changes (results (snd (processMonitoringTargets w ts wfl))) = [] \<longrightarrow>
          N = [] \<and> P = [])"
proof (cases "\<exists>k < length ts. stops_at w k (ts ! k)")
  case True
  have "events (snd (processMonitoringTargets w ts wfl))
          = map TargetAttempt [0 ..< visited w 0 ts] @ [] @ []"
    using pmt_aborted(1) [OF True, of wfl] e by simp
  then show ?thesis by blast
next
  case False
  then have n: "\<forall>k < length ts. \<not> stops_at w k (ts ! k)" by blast
  have v: "visited w 0 ts = length ts" by (rule visited_all) (use n in simp)
  let ?cs = "detected_changes (target_records w 0 ts)"
  have rs: "results (snd (processMonitoringTargets w ts wfl)) = target_records w 0 ts"
    using pmt_results [of w ts wfl] r v by simp
  let ?N = "if ?cs = [] then []
            else (case slackNotifier wfl of Some u \<Rightarrow> notifications ?cs | None \<Rightarrow> [])"
  let ?P = "if ?cs = [] then []
            else PersistStart ?cs
               # (case fst (updateAndPersist (fs w) ts ?cs) of Inr _ \<Rightarrow> [PersistEnd] | Inl _ \<Rightarrow> [])"
  have ev: "events (snd (processMonitoringTargets w ts wfl))
          = map TargetAttempt [0 ..< length ts] @ ?N @ ?P"
    using pmt_completed_events [OF n, of wfl] e by simp
  have 1: "?N = [] \<or> ?N = notifications ?cs" by (simp split: option.splits)
  have 2: "?P = [] \<or> ?P = [PersistStart ?cs] \<or> ?P = [PersistStart ?cs, PersistEnd]"
    by (simp split: sum.splits)
  have 3: "?P \<noteq> [] \<longrightarrow> ?cs \<noteq> [] \<and> (slackNotifier wfl \<noteq> None \<longrightarrow> ?N = notifications ?cs)"
    by (auto split: option.splits)
  have 4: "?cs = [] \<longrightarrow> ?N = [] \<and> ?P = []" by simp
  from ev 1 2 3 4 show ?thesis unfolding rs by blast
qed


lemma execute_shape:
  "\<exists>n N P. events (snd (execute sw w wh)) = map TargetAttempt [0 ..< n] @ N @ P
     \<and> (N = [] \<or> N = notifications (detected_changes (results (snd (execute sw w wh)))))
     \<and> (P = []
        \<or> P = [PersistStart (detected_changes (results (snd (execute sw w wh))))]
        \<or> P = [PersistStart (detected_changes (results (snd (execute sw w wh)))), PersistEnd])
     \<and> (P \<noteq> [] \<longrightarrow>
          detected_changes (results (snd (execute sw w wh))) \<noteq> []
          \<and> (slackNotifier (snd (execute sw w wh)) \<noteq> None \<longrightarrow>
               N = notifications (detected_changes (results (snd (execute sw w wh))))))
     \<and> (detected_changes (results (snd (execute sw w wh))) = [] \<longrightarrow> N = [] \<and> P = [])"
proof (cases "\<exists>cfg. loadConfig_result sw = Inr cfg \<and> launch_error sw = None
              \<and> connect_error sw = None")
  case False
  have "events (snd (execute sw w wh)) = map TargetAttempt [0 ..< 0] @ [] @ []"
    using body_not_started(1) [OF False, of w wh] by (simp add: execute_fields)
  then show ?thesis by blast
next
  case True
  then obtain cfg where c: "loadConfig_result sw = Inr cfg" "launch_error sw = None"
    "connect_error sw = None" by blast
  let ?wfl = "use_config_webhook cfg (initialize wh)"
  have b: "execute_body sw w (initialize wh) = processMonitoringTargets w (cfg_targets cfg) ?wfl"
    using c by (rule body_started)
  have n: "slackNotifier (snd (execute sw w wh)) = slackNotifier ?wfl"
    by (simp add: execute_fields b pmt_notifier)
  show ?thesis
    unfolding execute_fields b pmt_notifier
    by (rule pmt_shape [OF init_fields(1) init_fields(2)])
qed

text \<open>
  C1. In every run, no notification event comes after a persistence event: the call of
  \<open>updateAndPersist\<close> starts only after every notification attempt has completed. When
  \<open>updateAndPersist\<close> is called, it is called with the full batch of detected changes,
  which is not empty, and, if a notifier exists, the notification attempts made are
  exactly one completed attempt for each change of the batch, in order. In a run that
  detects no change there is neither a notification attempt nor a persistence call.
\<close>

theorem C1_notify_before_persist:
  "(\<forall>i j. i < length (events (snd (execute sw w wh)))
          \<and> j < length (events (snd (execute sw w wh)))
          \<and> is_persist (events (snd (execute sw w wh)) ! i)
          \<and> is_notify (events (snd (execute sw w wh)) ! j) \<longrightarrow> j < i)
   \<and> (\<forall>cs. PersistStart cs \<in> set (events (snd (execute sw w wh))) \<longrightarrow>
          cs = detected_changes (results (snd (execute sw w wh))) \<and> cs \<noteq> []
          \<and> (slackNotifier (snd (execute sw w wh)) \<noteq> None \<longrightarrow>
               filter is_notify (events (snd (execute sw w wh))) = notifications cs))
   \<and> (detected_changes (results (snd (execute sw w wh))) = [] \<longrightarrow>
        (\<forall>e \<in> set (events (snd (execute sw w wh))). \<not> is_notify e \<and> \<not> is_persist e))"
proof -
  let ?evs = "events (snd (execute sw w wh))"
  let ?cs = "detected_changes (results (snd (execute sw w wh)))"
  obtain n N P where ev: "?evs = map TargetAttempt [0 ..< n] @ N @ P"
    and N: "N = [] \<or> N = notifications ?cs"
    and P: "P = [] \<or> P = [PersistStart ?cs] \<or> P = [PersistStart ?cs, PersistEnd]"
    and PN: "P \<noteq> [] \<longrightarrow> ?cs \<noteq> [] \<and> (slackNotifier (snd (execute sw w wh)) \<noteq> None
                 \<longrightarrow> N = notifications ?cs)"
    and E: "?cs = [] \<longrightarrow> N = [] \<and> P = []"
    using execute_shape [of sw w wh] by blast
  have A: "\<forall>x \<in> set (map TargetAttempt [0 ..< n]). \<not> is_notify x \<and> \<not> is_persist x"
    by auto
  have Nn: "\<forall>x \<in> set N. is_notify x \<and> \<not> is_persist x"
    using N notifications_notify by auto
  have Pp: "\<forall>x \<in> set P. is_persist x \<and> \<not> is_notify x"
    using P by auto
  have 1: "\<forall>i j. i < length ?evs \<and> j < length ?evs
          \<and> is_persist (?evs ! i) \<and> is_notify (?evs ! j) \<longrightarrow> j < i"
  proof (intro allI impI)
    fix i j assume h: "i < length ?evs \<and> j < length ?evs
          \<and> is_persist (?evs ! i) \<and> is_notify (?evs ! j)"
    show "j < i"
      by (rule order_shape [OF ev]) (use A Nn Pp h in auto)
  qed
  have 2: "\<forall>cs. PersistStart cs \<in> set ?evs \<longrightarrow>
          cs = ?cs \<and> cs \<noteq> []
          \<and> (slackNotifier (snd (execute sw w wh)) \<noteq> None \<longrightarrow>
               filter is_notify ?evs = notifications cs)"
  proof (intro allI impI)
    fix cs assume "PersistStart cs \<in> set ?evs"
    then have "PersistStart cs \<in> set (map TargetAttempt [0 ..< n]) \<union> set N \<union> set P"
      by (simp add: ev Un_assoc)
    then have inP: "PersistStart cs \<in> set P" using Nn by auto
    then have c: "cs = ?cs" using P by auto
    from inP have "P \<noteq> []" by auto
    with PN have ne: "?cs \<noteq> []"
      and nn: "slackNotifier (snd (execute sw w wh)) \<noteq> None \<longrightarrow> N = notifications ?cs"
      by simp_all
    have "filter is_notify P = []" using Pp by (simp add: filter_empty_conv)
    then have f: "filter is_notify ?evs = filter is_notify N"
      by (simp add: ev filter_attempts)
    have "slackNotifier (snd (execute sw w wh)) \<noteq> None \<longrightarrow>
               filter is_notify ?evs = notifications cs"
      using nn f c by (simp add: filter_notifications)
    with c ne show "cs = ?cs \<and> cs \<noteq> []
          \<and> (slackNotifier (snd (execute sw w wh)) \<noteq> None \<longrightarrow>
               filter is_notify ?evs = notifications cs)" by simp
  qed
  have 3: "?cs = [] \<longrightarrow> (\<forall>e \<in> set ?evs. \<not> is_notify e \<and> \<not> is_persist e)"
  proof
    assume "?cs = []"
    with E have "N = []" "P = []" by simp_all
    then have "?evs = map TargetAttempt [0 ..< n]" using ev by simp
    then show "\<forall>e \<in> set ?evs. \<not> is_notify e \<and> \<not> is_persist e" using A by simp
  qed
  from 1 2 3 show ?thesis by blast
qed


lemma steady_records: "target_records steady_world 0 [example_entry] = [ChangeResult example_change]"
  by (simp add: target_records_def target_record_def steady_outcome example_change_def)

lemma steady_changes:
  "detected_changes (target_records steady_world 0 [example_entry]) = [example_change]"
  by (simp add: steady_records example_change_def)

lemma steady_persist:
  "fst (updateAndPersist (fs steady_world) ts cs) = Inr (updateConfigValues ts cs)"
  by (simp add: updateAndPersist_def persistConfig_def saveConfig_def loadConfig_def
      steady_world_def Let_def)

lemma steady_run_events:
  "events (snd (execute (startup_ok example_config) steady_world wh)) =
     [TargetAttempt 0]
     @ (if truthy wh then [NotifyStart example_change, NotifyEnd example_change] else [])
     @ [PersistStart [example_change], PersistEnd]"
proof -
  have n: "\<forall>k < length [example_entry]. \<not> stops_at steady_world k ([example_entry] ! k)"
    by (simp add: steady_continues)
  have b: "execute_body (startup_ok example_config) steady_world (initialize wh)
      = processMonitoringTargets steady_world (cfg_targets example_config)
          (use_config_webhook example_config (initialize wh))"
    by (rule body_started) (simp_all add: startup_ok_def)
  have t: "cfg_targets example_config = [example_entry]" by (simp add: example_config_def)
  have s: "slackNotifier (use_config_webhook example_config (initialize wh))
      = (if truthy wh then wh else None)"
    by (simp add: use_config_webhook_def initialize_def example_config_def truthy_def Let_def)
  show ?thesis
    unfolding execute_fields b t pmt_completed_events [OF n] steady_changes steady_persist s
    by (auto simp: init_fields notifications_def truthy_def split: option.splits)
qed

lemma steady_run_notifier:
  "slackNotifier (snd (execute (startup_ok example_config) steady_world wh))
     = (if truthy wh then wh else None)"
proof -
  have b: "execute_body (startup_ok example_config) steady_world (initialize wh)
      = processMonitoringTargets steady_world (cfg_targets example_config)
          (use_config_webhook example_config (initialize wh))"
    by (rule body_started) (simp_all add: startup_ok_def)
  have s: "slackNotifier (use_config_webhook example_config (initialize wh))
      = (if truthy wh then wh else None)"
    by (simp add: use_config_webhook_def initialize_def example_config_def truthy_def Let_def)
  show ?thesis unfolding execute_fields b pmt_notifier s ..
qed

lemma steady_run_results:
  "results (snd (execute (startup_ok example_config) steady_world wh))
     = [ChangeResult example_change]"
proof -
  have b: "execute_body (startup_ok example_config) steady_world (initialize wh)
      = processMonitoringTargets steady_world (cfg_targets example_config)
          (use_config_webhook example_config (initialize wh))"
    by (rule body_started) (simp_all add: startup_ok_def)
  have t: "cfg_targets example_config = [example_entry]" by (simp add: example_config_def)
  have v: "visited steady_world 0 [example_entry] = 1" by (simp add: steady_continues)
  show ?thesis
    unfolding execute_fields b t pmt_results v
    by (simp add: init_fields steady_records)
qed

lemma failing_run_results:
  "detected_changes (results (snd (execute (startup_ok example_config) failing_world wh))) = []"
proof -
  have b: "execute_body (startup_ok example_config) failing_world (initialize wh)
      = processMonitoringTargets failing_world (cfg_targets example_config)
          (use_config_webhook example_config (initialize wh))"
    by (rule body_started) (simp_all add: startup_ok_def)
  have t: "cfg_targets example_config = [example_entry]" by (simp add: example_config_def)
  have v: "visited failing_world 0 [example_entry] = 1" by (simp add: failing_continues_0)
  show ?thesis
    unfolding execute_fields b t pmt_results v
    by (simp add: init_fields target_records_def target_record_def failing_outcome_0)
qed

theorem C1_notify_before_persist_witness:
  "filter is_notify (events (snd (execute (startup_ok example_config) steady_world
        (Some ''https://hooks.slack.com/services/T0/B0/X0''))))
     = [NotifyStart example_change, NotifyEnd example_change]
   \<and> (2::nat) < 3
   \<and> is_persist (events (snd (execute (startup_ok example_config) steady_world
        (Some ''https://hooks.slack.com/services/T0/B0/X0''))) ! 3)
   \<and> is_notify (events (snd (execute (startup_ok example_config) steady_world
        (Some ''https://hooks.slack.com/services/T0/B0/X0''))) ! 2)
   \<and> filter (\<lambda>e. is_notify e \<or> is_persist e)
        (events (snd (execute (startup_ok example_config) failing_world None))) = []"
proof -
  let ?wh = "Some ''https://hooks.slack.com/services/T0/B0/X0''"
  note a = C1_notify_before_persist [of "startup_ok example_config" steady_world ?wh]
  note b = C1_notify_before_persist [of "startup_ok example_config" failing_world None]
  have ev: "events (snd (execute (startup_ok example_config) steady_world ?wh))
     = [TargetAttempt 0, NotifyStart example_change, NotifyEnd example_change,
        PersistStart [example_change], PersistEnd]"
    by (simp add: steady_run_events truthy_def)
  have nt: "slackNotifier (snd (execute (startup_ok example_config) steady_world ?wh)) \<noteq> None"
    by (simp add: steady_run_notifier truthy_def)
  from a have "\<forall>cs. PersistStart cs
         \<in> set (events (snd (execute (startup_ok example_config) steady_world ?wh))) \<longrightarrow>
          (slackNotifier (snd (execute (startup_ok example_config) steady_world ?wh)) \<noteq> None \<longrightarrow>
               filter is_notify (events (snd (execute (startup_ok example_config)
                   steady_world ?wh))) = notifications cs)"
    by blast
  from this [rule_format, of "[example_change]"] nt
  have 1: "filter is_notify (events (snd (execute (startup_ok example_config) steady_world ?wh)))
     = [NotifyStart example_change, NotifyEnd example_change]"
    by (simp add: ev notifications_def)
  from a have "\<forall>i j. i < length (events (snd (execute (startup_ok example_config)
                   steady_world ?wh)))
          \<and> j < length (events (snd (execute (startup_ok example_config) steady_world ?wh)))
          \<and> is_persist (events (snd (execute (startup_ok example_config) steady_world ?wh)) ! i)
          \<and> is_notify (events (snd (execute (startup_ok example_config) steady_world ?wh)) ! j)
          \<longrightarrow> j < i"
    by blast
  from this [rule_format, of 3 2]
  have 2: "(2::nat) < 3
     \<and> is_persist (events (snd (execute (startup_ok example_config) steady_world ?wh)) ! 3)
     \<and> is_notify (events (snd (execute (startup_ok example_config) steady_world ?wh)) ! 2)"
    by (simp add: ev)
  from b failing_run_results [of None]
  have "\<forall>e \<in> set (events (snd (execute (startup_ok example_config) failing_world None))).
         \<not> is_notify e \<and> \<not> is_persist e"
    by blast
  then have 3: "filter (\<lambda>e. is_notify e \<or> is_persist e)
        (events (snd (execute (startup_ok example_config) failing_world None))) = []"
    by (simp add: filter_empty_conv)
  from 1 2 3 show ?thesis by blast
qed

section \<open>Updating the stored values\<close>

lemma changeMap_of_append:
  "changeMap_of (cs @ ds) m = changeMap_of ds (changeMap_of cs m)"
  by (induction cs arbitrary: m) (auto split: option.splits)

lemma changeMap_of_miss:
  "(\<forall>c \<in> set cs. effective c \<longrightarrow> change_key c \<noteq> k) \<Longrightarrow> changeMap_of cs m k = m k"
  by (induction cs arbitrary: m) (auto simp: effective_def change_key_def split: option.splits)

lemma changeMap_of_last:
  assumes "effective c" "\<forall>d \<in> set post. effective d \<longrightarrow> change_key d \<noteq> change_key c"
  shows "changeMap_of (pre @ c # post) m (change_key c) = Some (newValue c)"
proof -
  obtain e where e: "entry c = Some e" "hasChanged c" using assms(1) by (auto simp: effective_def)
  have "changeMap_of (pre @ c # post) m
          = changeMap_of post ((changeMap_of pre m)(entry_key e \<mapsto> newValue c))"
    by (simp add: changeMap_of_append e)
  moreover have "change_key c = entry_key e" by (simp add: change_key_def e)
  ultimately show ?thesis using changeMap_of_miss [OF assms(2)] by simp
qed

lemma changeMap_of_local:
  "m k = m' k \<Longrightarrow> changeMap_of cs m k = changeMap_of cs m' k"
proof (induction cs arbitrary: m m')
  case Nil
  then show ?case by simp
next
  case (Cons c cs)
  have same: "changeMap_of cs m k = changeMap_of cs m' k"
    by (rule Cons.IH) (rule Cons.prems)
  have upd: "changeMap_of cs (m(x \<mapsto> v)) k = changeMap_of cs (m'(x \<mapsto> v)) k" for x v
    by (rule Cons.IH) (simp add: Cons.prems)
  show ?case
  proof (cases "entry c")
    case None
    then show ?thesis using same by simp
  next
    case (Some e)
    then show ?thesis using same upd [of "entry_key e" "newValue c"]
      by (cases "hasChanged c") simp_all
  qed
qed

lemma changeMap_of_filter:
  "k \<in> K \<Longrightarrow>
   changeMap_of (filter (\<lambda>c. effective c \<and> change_key c \<in> K) cs) m k = changeMap_of cs m k"
proof (induction cs arbitrary: m)
  case Nil
  then show ?case by simp
next
  case (Cons c cs)
  show ?case
  proof (cases "effective c")
    case False
    then show ?thesis using Cons by (auto simp: effective_def split: option.splits)
  next
    case True
    then obtain e where e: "entry c = Some e" "hasChanged c" by (auto simp: effective_def)
    show ?thesis
    proof (cases "change_key c \<in> K")
      case True
      with e \<open>effective c\<close> show ?thesis using Cons by simp
    next
      case False
      with Cons.prems have "entry_key e \<noteq> k" using e by (auto simp: change_key_def)
      then have "(m(entry_key e \<mapsto> newValue c)) k = m k" by simp
      then have "changeMap_of cs (m(entry_key e \<mapsto> newValue c)) k = changeMap_of cs m k"
        by (rule changeMap_of_local)
      with False e show ?thesis using Cons by simp
    qed
  qed
qed

lemma apply_change_key: "entry_key (apply_change m e) = entry_key e"
  by (simp add: apply_change_def entry_key_def split: option.splits)

lemma apply_change_fields:
  "url (apply_change m e) = url e" "css_selector (apply_change m e) = css_selector e"
  by (simp_all add: apply_change_def split: option.splits)

lemma apply_change_idem: "apply_change m (apply_change m e) = apply_change m e"
  by (simp add: apply_change_def entry_key_def split: option.splits)

lemma updateConfigValues_idem:
  "updateConfigValues (updateConfigValues t c) c = updateConfigValues t c"
  by (simp add: updateConfigValues_def Let_def apply_change_idem)

lemma updateConfigValues_length: "length (updateConfigValues t c) = length t"
  by (simp add: updateConfigValues_def Let_def)

lemma updateConfigValues_nth:
  "i < length t \<Longrightarrow>
   updateConfigValues t c ! i = apply_change (changeMap_of c Map.empty) (t ! i)"
  by (simp add: updateConfigValues_def Let_def)

lemma updateConfigValues_filter:
  "updateConfigValues t (filter (\<lambda>c. effective c \<and> change_key c \<in> entry_key ` set t) cs)
   = updateConfigValues t cs"
proof -
  have "apply_change (changeMap_of (filter (\<lambda>c. effective c \<and> change_key c \<in> entry_key ` set t) cs) Map.empty) e
        = apply_change (changeMap_of cs Map.empty) e" if "e \<in> set t" for e
    using that changeMap_of_filter [of "entry_key e" "entry_key ` set t" cs Map.empty]
    by (simp add: apply_change_def)
  then show ?thesis by (simp add: updateConfigValues_def Let_def)
qed

lemma assign_values_fresh:
  "assign_values m [length hp ..< length hp + length es] (hp @ es)
   = hp @ map (apply_change m) es"
proof (induction es arbitrary: hp)
  case Nil
  then show ?case by simp
next
  case (Cons e es)
  have "[length hp ..< length hp + Suc (length es)]
      = length hp # [Suc (length hp) ..< length hp + Suc (length es)]"
    by (rule upt_conv_Cons) simp
  then have u: "[length hp ..< length hp + length (e # es)]
      = length hp # [length (hp @ [apply_change m e])
                      ..< length (hp @ [apply_change m e]) + length es]"
    by simp
  have s: "(case m (entry_key ((hp @ e # es) ! length hp)) of
          Some v \<Rightarrow> (hp @ e # es)[length hp := ((hp @ e # es) ! length hp)\<lparr>current_value := v\<rparr>]
        | None \<Rightarrow> hp @ e # es) = (hp @ [apply_change m e]) @ es"
    by (simp add: apply_change_def split: option.splits)
  have "assign_values m [length hp ..< length hp + length (e # es)] (hp @ e # es)
      = assign_values m [length (hp @ [apply_change m e])
                      ..< length (hp @ [apply_change m e]) + length es]
          ((hp @ [apply_change m e]) @ es)"
    by (simp only: u assign_values.simps s)
  also have "\<dots> = (hp @ [apply_change m e]) @ map (apply_change m) es"
    by (rule Cons.IH)
  finally show ?case by simp
qed


lemma store_result:
  "updateConfigValues_store h ts cs =
     (h @ map (apply_change
                 (changeMap_of (map (deref_change (h @ map (\<lambda>a. h ! a) ts)) cs) Map.empty))
            (map (\<lambda>a. h ! a) ts),
      [length h ..< length h + length ts])"
  using assign_values_fresh [of _ h "map (\<lambda>a. h ! a) ts"]
  by (simp add: updateConfigValues_store_def Let_def)

lemma deref_change_append:
  "(\<forall>a. ref_entry c = Some a \<longrightarrow> a < length h) \<Longrightarrow> deref_change (h @ es) c = deref_change h c"
  by (cases "ref_entry c") (simp_all add: deref_change_def nth_append)

lemma store_unmutated:
  "take (length h) (fst (updateConfigValues_store h ts cs)) = h"
  by (simp add: store_result)

lemma store_fresh:
  "snd (updateConfigValues_store h ts cs) = [length h ..< length h + length ts]"
  by (simp add: store_result)

lemma store_refines:
  assumes "\<forall>c \<in> set cs. \<forall>a. ref_entry c = Some a \<longrightarrow> a < length h"
  shows "map (\<lambda>a. fst (updateConfigValues_store h ts cs) ! a)
             (snd (updateConfigValues_store h ts cs))
         = updateConfigValues (map (\<lambda>a. h ! a) ts) (map (deref_change h) cs)"
proof -
  have d: "map (deref_change (h @ map (\<lambda>a. h ! a) ts)) cs = map (deref_change h) cs"
  proof (rule map_cong [OF refl])
    fix c assume "c \<in> set cs"
    with assms have "\<forall>a. ref_entry c = Some a \<longrightarrow> a < length h" by blast
    then show "deref_change (h @ map (\<lambda>a. h ! a) ts) c = deref_change h c"
      by (rule deref_change_append)
  qed
  let ?es = "map (apply_change (changeMap_of (map (deref_change h) cs) Map.empty))
                 (map (\<lambda>a. h ! a) ts)"
  have "map (\<lambda>a. (h @ ?es) ! a) [length h ..< length h + length ts] = ?es"
    by (rule nth_equalityI) (simp_all add: nth_append)
  then show ?thesis
    unfolding store_result d by (simp add: updateConfigValues_def Let_def)
qed


text \<open>
  C4, as the claim states it, fails for two changes with the same key and different
  new values: the later \<open>Map.set\<close> replaces the earlier one, so the entry does not get
  the new value of the first change.
\<close>

theorem C4_last_change_wins_counterexample:
  "hasChanged example_change
   \<and> entry example_change = Some example_entry
   \<and> entry later_change = Some example_entry
   \<and> current_value (hd (updateConfigValues [example_entry] [example_change, later_change]))
       \<noteq> newValue example_change"
  by (simp add: updateConfigValues_def apply_change_def example_change_def later_change_def
      example_entry_def entry_key_def)

text \<open>
  C4, amended. \<open>updateConfigValues\<close> returns a list of the same length whose entries keep
  their URL and selector. An entry whose key is the key of no change that has an entry
  and \<open>hasChanged = true\<close> is returned with its original field values. An entry whose
  key is the key of such a change gets the new value of the last such change in the
  list. Changes that match no entry (or lack an entry, or have \<open>hasChanged = false\<close>)
  can be dropped without effect on the result. In the store, the entries returned are
  fresh objects (a deep copy), and reading them gives this result.
\<close>

theorem C4_updateConfigValues_amended:
  "length (updateConfigValues t cs) = length t
   \<and> (\<forall>i < length t.
        url (updateConfigValues t cs ! i) = url (t ! i)
        \<and> css_selector (updateConfigValues t cs ! i) = css_selector (t ! i))
   \<and> (\<forall>i < length t.
        (\<forall>c \<in> set cs. effective c \<longrightarrow> change_key c \<noteq> entry_key (t ! i)) \<longrightarrow>
        updateConfigValues t cs ! i = t ! i)
   \<and> (\<forall>pre c post i.
        cs = pre @ c # post \<and> effective c
        \<and> (\<forall>d \<in> set post. effective d \<longrightarrow> change_key d \<noteq> change_key c)
        \<and> i < length t \<and> entry_key (t ! i) = change_key c \<longrightarrow>
        current_value (updateConfigValues t cs ! i) = newValue c)
   \<and> updateConfigValues t
         (filter (\<lambda>c. effective c \<and> change_key c \<in> entry_key ` set t) cs)
       = updateConfigValues t cs
   \<and> snd (updateConfigValues_store h ts rs) = [length h ..< length h + length ts]
   \<and> ((\<forall>c \<in> set rs. \<forall>a. ref_entry c = Some a \<longrightarrow> a < length h) \<longrightarrow>
        map (\<lambda>a. fst (updateConfigValues_store h ts rs) ! a)
            (snd (updateConfigValues_store h ts rs))
        = updateConfigValues (map (\<lambda>a. h ! a) ts) (map (deref_change h) rs))"
proof -
  have 1: "\<forall>i < length t.
        url (updateConfigValues t cs ! i) = url (t ! i)
        \<and> css_selector (updateConfigValues t cs ! i) = css_selector (t ! i)"
    by (simp add: updateConfigValues_nth apply_change_fields)
  have 2: "\<forall>i < length t.
        (\<forall>c \<in> set cs. effective c \<longrightarrow> change_key c \<noteq> entry_key (t ! i)) \<longrightarrow>
        updateConfigValues t cs ! i = t ! i"
  proof (intro allI impI)
    fix i assume i: "i < length t"
      and n: "\<forall>c \<in> set cs. effective c \<longrightarrow> change_key c \<noteq> entry_key (t ! i)"
    have "changeMap_of cs Map.empty (entry_key (t ! i)) = None"
      using changeMap_of_miss [OF n, of Map.empty] by simp
    then show "updateConfigValues t cs ! i = t ! i"
      by (simp add: updateConfigValues_nth i apply_change_def)
  qed
  have 3: "\<forall>pre c post i.
        cs = pre @ c # post \<and> effective c
        \<and> (\<forall>d \<in> set post. effective d \<longrightarrow> change_key d \<noteq> change_key c)
        \<and> i < length t \<and> entry_key (t ! i) = change_key c \<longrightarrow>
        current_value (updateConfigValues t cs ! i) = newValue c"
  proof (intro allI impI)
    fix pre c post i
    assume a: "cs = pre @ c # post \<and> effective c
        \<and> (\<forall>d \<in> set post. effective d \<longrightarrow> change_key d \<noteq> change_key c)
        \<and> i < length t \<and> entry_key (t ! i) = change_key c"
    then have "changeMap_of cs Map.empty (entry_key (t ! i)) = Some (newValue c)"
      using changeMap_of_last [of c post pre Map.empty] by simp
    with a show "current_value (updateConfigValues t cs ! i) = newValue c"
      by (simp add: updateConfigValues_nth apply_change_def)
  qed
  from updateConfigValues_length [of t cs] 1 2 3 updateConfigValues_filter [of t cs]
    store_fresh [of h ts rs] store_refines [of rs h ts]
  show ?thesis by blast
qed

theorem C4_updateConfigValues_amended_witness:
  "updateConfigValues [example_entry, second_entry] [example_change, ghost_change] ! 1
     = second_entry
   \<and> current_value
        (updateConfigValues [example_entry, second_entry] [example_change, ghost_change] ! 0)
       = JStr ''$18.49''
   \<and> map (\<lambda>a. fst (updateConfigValues_store [example_entry] [0]
                     [\<lparr>ref_entry = Some 0, ref_hasChanged = True,
                       ref_newValue = JStr ''$18.49''\<rparr>]) ! a)
         (snd (updateConfigValues_store [example_entry] [0]
                     [\<lparr>ref_entry = Some 0, ref_hasChanged = True,
                       ref_newValue = JStr ''$18.49''\<rparr>]))
       = [example_entry\<lparr>current_value := JStr ''$18.49''\<rparr>]"
proof -
  note T = C4_updateConfigValues_amended [where t = "[example_entry, second_entry]"
      and cs = "[example_change, ghost_change]" and h = "[example_entry]" and ts = "[0]"
      and rs = "[\<lparr>ref_entry = Some 0, ref_hasChanged = True, ref_newValue = JStr ''$18.49''\<rparr>]"]
  have k: "entry_key example_entry = ''u1|#p''" "entry_key second_entry = ''u2|.t''"
    "change_key example_change = ''u1|#p''"
    "change_key ghost_change = ''https://nonexistent.com|#missing''"
    "effective example_change" "effective ghost_change"
    by (simp_all add: entry_key_def change_key_def effective_def example_entry_def
        second_entry_def example_change_def ghost_change_def)
  from T have "\<forall>i < length [example_entry, second_entry].
        (\<forall>c \<in> set [example_change, ghost_change].
            effective c \<longrightarrow> change_key c \<noteq> entry_key ([example_entry, second_entry] ! i)) \<longrightarrow>
        updateConfigValues [example_entry, second_entry] [example_change, ghost_change] ! i
          = [example_entry, second_entry] ! i"
    by blast
  then have "1 < length [example_entry, second_entry] \<longrightarrow>
        (\<forall>c \<in> set [example_change, ghost_change].
            effective c \<longrightarrow> change_key c \<noteq> entry_key ([example_entry, second_entry] ! 1)) \<longrightarrow>
        updateConfigValues [example_entry, second_entry] [example_change, ghost_change] ! 1
          = [example_entry, second_entry] ! 1"
    by blast
  then have 1: "updateConfigValues [example_entry, second_entry] [example_change, ghost_change] ! 1
     = second_entry"
    by (simp add: k)
  from T have "\<forall>pre c post i.
        [example_change, ghost_change] = pre @ c # post \<and> effective c
        \<and> (\<forall>d \<in> set post. effective d \<longrightarrow> change_key d \<noteq> change_key c)
        \<and> i < length [example_entry, second_entry]
        \<and> entry_key ([example_entry, second_entry] ! i) = change_key c \<longrightarrow>
        current_value
          (updateConfigValues [example_entry, second_entry] [example_change, ghost_change] ! i)
        = newValue c"
    by blast
  then have "[example_change, ghost_change] = [] @ example_change # [ghost_change]
        \<and> effective example_change
        \<and> (\<forall>d \<in> set [ghost_change]. effective d \<longrightarrow> change_key d \<noteq> change_key example_change)
        \<and> 0 < length [example_entry, second_entry]
        \<and> entry_key ([example_entry, second_entry] ! 0) = change_key example_change \<longrightarrow>
        current_value
          (updateConfigValues [example_entry, second_entry] [example_change, ghost_change] ! 0)
        = newValue example_change"
    by blast
  then have 2: "current_value
        (updateConfigValues [example_entry, second_entry] [example_change, ghost_change] ! 0)
       = JStr ''$18.49''"
    by (simp add: k) (simp add: example_change_def)
  from T have "(\<forall>c \<in> set [\<lparr>ref_entry = Some 0, ref_hasChanged = True,
                       ref_newValue = JStr ''$18.49''\<rparr>].
          \<forall>a. ref_entry c = Some a \<longrightarrow> a < length [example_entry]) \<longrightarrow>
        map (\<lambda>a. fst (updateConfigValues_store [example_entry] [0]
                     [\<lparr>ref_entry = Some 0, ref_hasChanged = True,
                       ref_newValue = JStr ''$18.49''\<rparr>]) ! a)
         (snd (updateConfigValues_store [example_entry] [0]
                     [\<lparr>ref_entry = Some 0, ref_hasChanged = True,
                       ref_newValue = JStr ''$18.49''\<rparr>]))
        = updateConfigValues (map (\<lambda>a. [example_entry] ! a) [0])
            (map (deref_change [example_entry])
               [\<lparr>ref_entry = Some 0, ref_hasChanged = True, ref_newValue = JStr ''$18.49''\<rparr>])"
    by blast
  then have 3: "map (\<lambda>a. fst (updateConfigValues_store [example_entry] [0]
                     [\<lparr>ref_entry = Some 0, ref_hasChanged = True,
                       ref_newValue = JStr ''$18.49''\<rparr>]) ! a)
         (snd (updateConfigValues_store [example_entry] [0]
                     [\<lparr>ref_entry = Some 0, ref_hasChanged = True,
                       ref_newValue = JStr ''$18.49''\<rparr>]))
       = [example_entry\<lparr>current_value := JStr ''$18.49''\<rparr>]"
    by (simp add: updateConfigValues_def deref_change_def apply_change_def)
  from 1 2 3 show ?thesis by blast
qed

text \<open>
  C9. \<open>updateConfigValues\<close> is idempotent: applied to its own output with the same
  changes it returns that output. It mutates none of its inputs: in the store, every
  object that existed before the call (the targets, the entries of the changes,
  whether or not they match) has the same field values after it, the entries returned
  being new objects; reading them gives the result of the function on values.
\<close>

theorem C9_idempotent_and_non_mutating:
  "updateConfigValues (updateConfigValues t c) c = updateConfigValues t c
   \<and> take (length h) (fst (updateConfigValues_store h ts rs)) = h
   \<and> (\<forall>a \<in> set (snd (updateConfigValues_store h ts rs)). length h \<le> a)
   \<and> ((\<forall>c \<in> set rs. \<forall>a. ref_entry c = Some a \<longrightarrow> a < length h) \<longrightarrow>
        map (\<lambda>a. fst (updateConfigValues_store h ts rs) ! a)
            (snd (updateConfigValues_store h ts rs))
        = updateConfigValues (map (\<lambda>a. h ! a) ts) (map (deref_change h) rs))"
proof -
  have f: "\<forall>a \<in> set (snd (updateConfigValues_store h ts rs)). length h \<le> a"
    by (simp add: store_fresh)
  from updateConfigValues_idem [of t c] store_unmutated [of h ts rs] f
    store_refines [of rs h ts]
  show ?thesis by blast
qed

theorem C9_idempotent_and_non_mutating_witness:
  "take 1 (fst (updateConfigValues_store [example_entry] [0]
            [\<lparr>ref_entry = Some 0, ref_hasChanged = True, ref_newValue = JStr ''$18.49''\<rparr>]))
     = [example_entry]
   \<and> fst (updateConfigValues_store [example_entry] [0]
            [\<lparr>ref_entry = Some 0, ref_hasChanged = True, ref_newValue = JStr ''$18.49''\<rparr>])
        ! hd (snd (updateConfigValues_store [example_entry] [0]
            [\<lparr>ref_entry = Some 0, ref_hasChanged = True, ref_newValue = JStr ''$18.49''\<rparr>]))
     = example_entry\<lparr>current_value := JStr ''$18.49''\<rparr>"
proof -
  note T = C9_idempotent_and_non_mutating [where h = "[example_entry]" and ts = "[0]"
      and rs = "[\<lparr>ref_entry = Some 0, ref_hasChanged = True, ref_newValue = JStr ''$18.49''\<rparr>]"]
  from T have 1: "take 1 (fst (updateConfigValues_store [example_entry] [0]
            [\<lparr>ref_entry = Some 0, ref_hasChanged = True, ref_newValue = JStr ''$18.49''\<rparr>]))
     = [example_entry]"
    by simp
  from T have "map (\<lambda>a. fst (updateConfigValues_store [example_entry] [0]
                     [\<lparr>ref_entry = Some 0, ref_hasChanged = True,
                       ref_newValue = JStr ''$18.49''\<rparr>]) ! a)
         (snd (updateConfigValues_store [example_entry] [0]
                     [\<lparr>ref_entry = Some 0, ref_hasChanged = True,
                       ref_newValue = JStr ''$18.49''\<rparr>]))
        = updateConfigValues (map (\<lambda>a. [example_entry] ! a) [0])
            (map (deref_change [example_entry])
               [\<lparr>ref_entry = Some 0, ref_hasChanged = True, ref_newValue = JStr ''$18.49''\<rparr>])"
    by simp
  then have 2: "fst (updateConfigValues_store [example_entry] [0]
            [\<lparr>ref_entry = Some 0, ref_hasChanged = True, ref_newValue = JStr ''$18.49''\<rparr>])
        ! hd (snd (updateConfigValues_store [example_entry] [0]
            [\<lparr>ref_entry = Some 0, ref_hasChanged = True, ref_newValue = JStr ''$18.49''\<rparr>]))
     = example_entry\<lparr>current_value := JStr ''$18.49''\<rparr>"
    by (simp add: store_fresh updateConfigValues_def deref_change_def apply_change_def)
  from 1 2 show ?thesis by blast
qed

section \<open>A run without a webhook\<close>

text \<open>
  What the run writes to the configuration file: the loop and the notification step
  write nothing; \<open>updateAndPersist\<close> writes once when it succeeds, and completes no
  write when it fails.
\<close>

lemma rtf_saved: "saved (snd (record_target_failure err e wfl)) = saved wfl"
  by (auto simp: record_target_failure_def Let_def split: prod.splits)

lemma loop_saved: "saved (snd (targets_loop w i ts cs wfl)) = saved wfl"
proof (induction ts arbitrary: i cs wfl)
  case Nil
  then show ?case by simp
next
  case (Cons e rest)
  show ?case
  proof (cases "target_outcome w i e")
    case (Inl err)
    then show ?thesis
      by (simp add: loop_step_fail Cons.IH rtf_saved del: targets_loop.simps)
  next
    case (Inr r)
    then show ?thesis
      by (simp add: loop_step_ok Cons.IH del: targets_loop.simps)
  qed
qed

lemma notify_saved: "saved (sendNotificationsForChanges w u j cs wfl) = saved wfl"
  by (simp add: notify_all)

lemma nap_saved:
  "saved (snd (notify_and_persist w ts cs wfl)) =
     saved wfl @ (if cs = [] then [] else snd (updateAndPersist (fs w) ts cs))"
  by (simp add: notify_and_persist_def Let_def notify_all
      split: option.splits sum.splits prod.splits)

lemma updateAndPersist_ok:
  "fs_ok f \<Longrightarrow>
   updateAndPersist f ts cs =
     (Inr (updateConfigValues ts cs),
      [(file_content f)\<lparr>cfg_targets := updateConfigValues ts cs\<rparr>])"
  by (simp add: fs_ok_def updateAndPersist_def persistConfig_def saveConfig_def
      loadConfig_def Let_def)

lemma updateAndPersist_fails:
  "\<not> fs_ok f \<Longrightarrow>
   snd (updateAndPersist f ts cs) = [] \<and> (\<exists>err. fst (updateAndPersist f ts cs) = Inl err)"
  by (auto simp: fs_ok_def updateAndPersist_def persistConfig_def saveConfig_def
      loadConfig_def Let_def split: option.splits)

lemma pmt_completed_saved:
  assumes "\<forall>k < length ts. \<not> stops_at w k (ts ! k)"
  shows "saved (snd (processMonitoringTargets w ts wfl)) =
     saved wfl
     @ (if detected_changes (target_records w 0 ts) = [] then []
        else snd (updateAndPersist (fs w) ts (detected_changes (target_records w 0 ts))))"
  by (simp add: pmt_completed [OF assms] nap_saved loop_saved)

lemma pmt_aborted_saved:
  assumes "\<exists>k < length ts. stops_at w k (ts ! k)"
  shows "saved (snd (processMonitoringTargets w ts wfl)) = saved wfl"
proof -
  from assms have "\<exists>err. fst (targets_loop w 0 ts [] wfl) = Inl err"
    using loop_aborts_iff [of w 0 ts "[]" wfl] by simp
  then obtain err where e: "fst (targets_loop w 0 ts [] wfl) = Inl err" by blast
  then have p: "processMonitoringTargets w ts wfl = (Inl err, snd (targets_loop w 0 ts [] wfl))"
    by (auto simp: processMonitoringTargets_def split: prod.splits sum.splits)
  show ?thesis by (simp add: p loop_saved)
qed

lemma execute_saved:
  "saved (snd (execute sw w wh)) = saved (snd (execute_body sw w (initialize wh)))"
  by (auto simp: execute_def Let_def split: prod.splits sum.splits)

lemma init_saved: "saved (use_config_webhook cfg (initialize wh)) = []"
  by (simp add: use_config_webhook_def initialize_def Let_def)

lemma execute_rethrows:
  "fst (execute_body sw w (initialize wh)) = Inl err \<Longrightarrow>
   shouldStopWorkflow (categorizeError err workflow_context) \<Longrightarrow>
   fst (execute sw w wh) = Inl err"
  by (auto simp: execute_def Let_def workflow_context_def [symmetric]
      split: prod.splits sum.splits dest!: handleError_pair)

lemma outcome_shape:
  assumes "target_outcome w k e = Inr c"
  shows "\<exists>p raw. newPage_result (browser_at w k) = Inr p
           \<and> textContent_result p = Inr (Some raw)
           \<and> c = processEntry e (JStr (trim raw))"
proof -
  from assms obtain p v where p: "createPage (browser_at w k) = Inr p"
    and v: "navigateAndExtract (Some p) (url e) (css_selector e) = Inr v"
    and c: "c = processEntry e (JStr v)"
    by (auto simp: target_outcome_def processMonitoringTarget_outcome split: sum.splits)
  from p have np: "newPage_result (browser_at w k) = Inr p"
    by (auto simp: createPage_def Let_def split: if_splits sum.splits)
  from v have "extractTextContent (Some p) (css_selector e) = Inr v"
    by (auto simp: navigateAndExtract_def Let_def split: if_splits option.splits sum.splits)
  then obtain raw where "textContent_result p = Inr (Some raw)" "v = trim raw"
    by (auto simp: extractTextContent_def split: if_splits option.splits sum.splits)
  with np c show ?thesis by blast
qed

lemma processEntry_fields:
  "entry (processEntry e v) = Some e"
  "newValue (processEntry e v) = v"
  "oldValue (processEntry e v) = current_value e"
  "hasChanged (processEntry e v) = detectChange v (current_value e)"
  by (simp_all add: processEntry_def createChangeRecord_def Let_def)

lemma outcome_entry: "target_outcome w k e = Inr c \<Longrightarrow> entry c = Some e"
  using outcome_shape [of w k e c] by (auto simp: processEntry_fields)

lemma detected_changes_append:
  "detected_changes (xs @ ys) = detected_changes xs @ detected_changes ys"
  by (induction xs rule: detected_changes.induct) auto

lemma target_records_Cons:
  "target_records w i (e # es) = target_record w i e # target_records w (Suc i) es"
  by (simp add: target_records_def)

lemma target_records_Nil: "target_records w i [] = []"
  by (simp add: target_records_def)

lemma detected_Cons:
  "detected_changes (target_records w i (e # es)) =
     (case target_outcome w i e of
        Inr c \<Rightarrow> if hasChanged c then [c] else []
      | Inl _ \<Rightarrow> [])
     @ detected_changes (target_records w (Suc i) es)"
  by (cases "target_outcome w i e") (simp_all add: target_records_Cons target_record_def)

lemma detected_member:
  "d \<in> set (detected_changes (target_records w i ts)) \<Longrightarrow>
   \<exists>j < length ts. target_outcome w (i + j) (ts ! j) = Inr d \<and> hasChanged d"
proof (induction ts arbitrary: i)
  case Nil
  then show ?case by (simp add: target_records_def)
next
  case (Cons e es)
  from Cons.prems consider
    (head) "target_outcome w i e = Inr d" "hasChanged d"
    | (tail) "d \<in> set (detected_changes (target_records w (Suc i) es))"
    unfolding detected_Cons by (cases "target_outcome w i e") (auto split: if_splits)
  then show ?case
  proof cases
    case head
    then have "0 < length (e # es) \<and> target_outcome w (i + 0) ((e # es) ! 0) = Inr d
        \<and> hasChanged d"
      by simp
    then show ?thesis by blast
  next
    case tail
    from Cons.IH [OF this] obtain j where "j < length es"
      "target_outcome w (Suc i + j) (es ! j) = Inr d" "hasChanged d" by blast
    then have "Suc j < length (e # es) \<and> target_outcome w (i + Suc j) ((e # es) ! Suc j) = Inr d
        \<and> hasChanged d" by simp
    then show ?thesis by blast
  qed
qed

lemma detected_split:
  assumes "k < length ts" "target_outcome w (i + k) (ts ! k) = Inr c" "hasChanged c"
  shows "detected_changes (target_records w i ts) =
     detected_changes (target_records w i (take k ts)) @ c
       # detected_changes (target_records w (Suc (i + k)) (drop (Suc k) ts))"
  using assms
proof (induction ts arbitrary: i k)
  case Nil
  then show ?case by simp
next
  case (Cons e es)
  show ?case
  proof (cases k)
    case 0
    with Cons.prems show ?thesis
      by (simp add: detected_Cons target_records_Nil)
  next
    case (Suc k')
    with Cons.prems have a: "k' < length es" "target_outcome w (Suc i + k') (es ! k') = Inr c"
      by simp_all
    from Cons.IH [OF a Cons.prems(3)] Suc show ?thesis
      by (simp add: detected_Cons)
  qed
qed


lemma outcome_change_key:
  "target_outcome w k e = Inr c \<Longrightarrow> hasChanged c \<Longrightarrow>
   effective c \<and> change_key c = entry_key e \<and> changed_at w k e"
  using outcome_entry [of w k e c] by (simp add: effective_def change_key_def changed_at_def)

lemma written_value_last:
  assumes i: "i < length ts" and k: "k < length ts"
    and same: "entry_key (ts ! i) = entry_key (ts ! k)"
    and out: "target_outcome w k (ts ! k) = Inr c" and ch: "hasChanged c"
    and last: "\<forall>j. k < j \<and> j < length ts \<and> entry_key (ts ! j) = entry_key (ts ! k)
                  \<longrightarrow> \<not> changed_at w j (ts ! j)"
  shows "current_value (updateConfigValues ts (detected_changes (target_records w 0 ts)) ! i)
           = newValue c"
proof -
  let ?pre = "detected_changes (target_records w 0 (take k ts))"
  let ?post = "detected_changes (target_records w (Suc (0 + k)) (drop (Suc k) ts))"
  have sp: "detected_changes (target_records w 0 ts) = ?pre @ c # ?post"
    by (rule detected_split) (use k out ch in simp_all)
  note c = outcome_change_key [OF out ch]
  have post: "\<forall>d \<in> set ?post. effective d \<longrightarrow> change_key d \<noteq> change_key c"
  proof (intro ballI impI)
    fix d assume "d \<in> set ?post"
    from detected_member [OF this] obtain j' where j': "j' < length (drop (Suc k) ts)"
      and o: "target_outcome w (Suc (0 + k) + j') (drop (Suc k) ts ! j') = Inr d"
      and h: "hasChanged d" by blast
    let ?j = "Suc k + j'"
    have j: "k < ?j" "?j < length ts" using j' by simp_all
    have e: "drop (Suc k) ts ! j' = ts ! ?j" using j' by simp
    from o have o': "target_outcome w ?j (ts ! ?j) = Inr d" by (simp add: e)
    note d = outcome_change_key [OF o' h]
    from d have "changed_at w ?j (ts ! ?j)" by simp
    with last j have "entry_key (ts ! ?j) \<noteq> entry_key (ts ! k)" by blast
    with d c show "change_key d \<noteq> change_key c" by simp
  qed
  have "changeMap_of (?pre @ c # ?post) Map.empty (change_key c) = Some (newValue c)"
    by (rule changeMap_of_last) (use c post in simp_all)
  then have "changeMap_of (detected_changes (target_records w 0 ts)) Map.empty
               (entry_key (ts ! i)) = Some (newValue c)"
    using sp same c by simp
  then show ?thesis by (simp add: updateConfigValues_nth i apply_change_def)
qed

lemma written_value_kept:
  assumes i: "i < length ts"
    and none: "\<forall>k < length ts. entry_key (ts ! k) = entry_key (ts ! i)
                  \<longrightarrow> \<not> changed_at w k (ts ! k)"
  shows "updateConfigValues ts (detected_changes (target_records w 0 ts)) ! i = ts ! i"
proof -
  have "\<forall>c \<in> set (detected_changes (target_records w 0 ts)).
          effective c \<longrightarrow> change_key c \<noteq> entry_key (ts ! i)"
  proof (intro ballI impI)
    fix c assume "c \<in> set (detected_changes (target_records w 0 ts))"
    from detected_member [OF this] obtain j where j: "j < length ts"
      and o: "target_outcome w (0 + j) (ts ! j) = Inr c" and h: "hasChanged c" by blast
    from o have o': "target_outcome w j (ts ! j) = Inr c" by simp
    note c = outcome_change_key [OF o' h]
    from c none j show "change_key c \<noteq> entry_key (ts ! i)" by auto
  qed
  then have "changeMap_of (detected_changes (target_records w 0 ts)) Map.empty
               (entry_key (ts ! i)) = None"
    using changeMap_of_miss [of "detected_changes (target_records w 0 ts)" "entry_key (ts ! i)"
        Map.empty] by simp
  then show ?thesis by (simp add: updateConfigValues_nth i apply_change_def)
qed

lemma outcome_value:
  assumes "target_outcome w k e = Inr c"
  shows "\<exists>p raw. newPage_result (browser_at w k) = Inr p
           \<and> textContent_result p = Inr (Some raw)
           \<and> newValue c = JStr (trim raw) \<and> oldValue c = current_value e
           \<and> entry c = Some e"
  using outcome_shape [OF assms] by (auto simp: processEntry_fields)


lemma abort_outcome_0: "target_outcome abort_world 0 example_entry = Inr example_change"
  by (simp add: target_outcome_def abort_world_def browser_with_def page_showing_def
      processMonitoringTarget_def createPage_def try_finally_def closePage_def
      navigateAndExtract_def waitForSelector_def extractTextContent_def example_entry_def
      example_change_def processEntry_def detectChange_def createChangeRecord_def trim_def
      is_ws_def)

lemma abort_continues_0: "\<not> stops_at abort_world 0 example_entry"
  by (simp add: stops_at_def abort_outcome_0)

lemma abort_outcome_1:
  "target_outcome abort_world (Suc 0) e =
     Inl (new_Error ''Failed to create page: Browser is not connected. Call connect() first.'')"
  by (simp add: target_outcome_def abort_world_def processMonitoringTarget_def createPage_def
      try_finally_def new_Error_def)

lemma abort_stops_1: "stops_at abort_world (Suc 0) e"
  by (simp add: stops_at_def abort_outcome_1 shouldStopWorkflow_def categorizeError_def
      message_or_unknown_def new_Error_def rule_defs eval_includes Let_def)

lemma not_connected_stops:
  "shouldStopWorkflow (categorizeError
     (new_Error ''Failed to create page: Browser is not connected. Call connect() first.'')
     workflow_context)"
  by (simp add: shouldStopWorkflow_def categorizeError_def workflow_context_def
      message_or_unknown_def new_Error_def rule_defs eval_includes Let_def)

text \<open>
  C10, as the claim states it, fails: a run without a webhook detects a change at its
  first target and meets a failure classified CRITICAL at its second. The loop leaves
  with that error, \<open>updateAndPersist\<close> is never called and no write of the
  configuration file is made, although a change has been detected.
\<close>

theorem C10_abort_skips_persistence_counterexample:
  "\<not> truthy None \<and> \<not> truthy (slack_webhook two_targets)
   \<and> detected_changes (results (snd (execute (startup_ok two_targets) abort_world None)))
       = [example_change]
   \<and> events (snd (execute (startup_ok two_targets) abort_world None))
       = [TargetAttempt 0, TargetAttempt 1]
   \<and> saved (snd (execute (startup_ok two_targets) abort_world None)) = []
   \<and> fst (execute (startup_ok two_targets) abort_world None)
       = Inl (new_Error
           ''Failed to create page: Browser is not connected. Call connect() first.'')"
proof -
  let ?ts = "[example_entry, second_entry]"
  let ?wfl = "use_config_webhook two_targets (initialize None)"
  let ?err = "new_Error
           ''Failed to create page: Browser is not connected. Call connect() first.''"
  have t: "cfg_targets two_targets = ?ts" by (simp add: two_targets_def)
  have b: "execute_body (startup_ok two_targets) abort_world (initialize None)
      = processMonitoringTargets abort_world ?ts ?wfl"
    using body_started [of "startup_ok two_targets" two_targets abort_world None]
    by (simp add: startup_ok_def t)
  have c: "\<not> stops_at abort_world 0 example_entry" by (rule abort_continues_0)
  have s: "stops_at abort_world 1 second_entry" using abort_stops_1 by simp
  have ex: "\<exists>k < length ?ts. stops_at abort_world k (?ts ! k)"
    using s by (intro exI [of _ 1]) simp
  have v: "visited abort_world 0 ?ts = Suc 1"
    by (rule visited_first) (use c s in \<open>simp_all add: All_less_Suc\<close>)
  have w: "\<not> truthy None \<and> \<not> truthy (slack_webhook two_targets)"
    by (simp add: truthy_def two_targets_def)
  have r: "detected_changes (results (snd (execute (startup_ok two_targets) abort_world None)))
       = [example_change]"
    unfolding execute_fields b pmt_results v
    by (simp add: init_fields detected_Cons target_records_Nil abort_outcome_0
        abort_outcome_1 example_change_def)
  have e: "events (snd (execute (startup_ok two_targets) abort_world None))
       = [TargetAttempt 0, TargetAttempt 1]"
    unfolding execute_fields b pmt_aborted(1) [OF ex] v
    by (simp add: init_fields upt_conv_Cons)
  have sv: "saved (snd (execute (startup_ok two_targets) abort_world None)) = []"
    unfolding execute_saved b pmt_aborted_saved [OF ex] by (rule init_saved)
  have "\<exists>err. target_outcome abort_world (0 + 1) (?ts ! 1) = Inl err
         \<and> fst (targets_loop abort_world 0 ?ts [] ?wfl) = Inl err"
    by (rule loop_aborts) (use c s in \<open>simp_all add: All_less_Suc\<close>)
  then have "fst (targets_loop abort_world 0 ?ts [] ?wfl) = Inl ?err"
    using abort_outcome_1 [of second_entry] by auto
  then have "fst (processMonitoringTargets abort_world ?ts ?wfl) = Inl ?err"
    by (auto simp: processMonitoringTargets_def split: prod.splits sum.splits)
  then have "fst (execute_body (startup_ok two_targets) abort_world (initialize None)) = Inl ?err"
    by (simp add: b)
  then have f: "fst (execute (startup_ok two_targets) abort_world None) = Inl ?err"
    using not_connected_stops by (rule execute_rethrows)
  from w r e sv f show ?thesis by blast
qed

text \<open>
  C10, amended. Let no webhook be given on the command line nor in the configuration
  file, let the run reach the loop and the loop complete (no failure classified
  CRITICAL), and let at least one change be detected. Then the events of the run are
  the target attempts followed at once by the call of \<open>updateAndPersist\<close> with the full
  batch of detected changes: there is no notification attempt, and the errors of the
  session are those of the failed targets, and those of a failed persistence if it
  fails. When \<open>loadConfig\<close>, \<open>validateWritePermissions\<close> and \<open>saveConfig\<close> throw no
  error, the run ends normally and has written the file once: the configuration
  loaded from it with its targets updated. In
  what is written there are as many targets as before, with their URLs and selectors; a
  target whose key is that of a target that came out changed has the new value of the
  last such target, which is the trimmed text its page showed; a target whose key is
  that of no changed target is as it was. When one of the three throws, no write is
  completed.
\<close>

theorem C10_no_webhook_amended:
  assumes "\<not> truthy wh" and "loadConfig_result sw = Inr cfg"
    and "\<not> truthy (slack_webhook cfg)"
    and "launch_error sw = None" and "connect_error sw = None"
    and "\<forall>k < length (cfg_targets cfg). \<not> stops_at w k (cfg_targets cfg ! k)"
    and "detected_changes (target_records w 0 (cfg_targets cfg)) \<noteq> []"
  shows "events (snd (execute sw w wh)) =
           map TargetAttempt [0 ..< length (cfg_targets cfg)]
           @ PersistStart (detected_changes (target_records w 0 (cfg_targets cfg)))
             # (if fs_ok (fs w) then [PersistEnd] else [])
         \<and> filter is_notify (events (snd (execute sw w wh))) = []
         \<and> detected_changes (results (snd (execute sw w wh)))
             = detected_changes (target_records w 0 (cfg_targets cfg))
         \<and> errors (snd (execute sw w wh)) =
             target_errors w 0 (cfg_targets cfg)
             @ (case fst (updateAndPersist (fs w) (cfg_targets cfg)
                       (detected_changes (target_records w 0 (cfg_targets cfg)))) of
                  Inr _ \<Rightarrow> []
                | Inl err \<Rightarrow> [error_record err persistence_context,
                               error_record err workflow_context])
         \<and> (fs_ok (fs w) \<longrightarrow>
              fst (execute sw w wh) = Inr ()
              \<and> errors (snd (execute sw w wh)) = target_errors w 0 (cfg_targets cfg)
              \<and> saved (snd (execute sw w wh)) =
                  [(file_content (fs w))
                     \<lparr>cfg_targets := updateConfigValues (cfg_targets cfg)
                        (detected_changes (target_records w 0 (cfg_targets cfg)))\<rparr>])
         \<and> (\<not> fs_ok (fs w) \<longrightarrow> saved (snd (execute sw w wh)) = [])
         \<and> length (updateConfigValues (cfg_targets cfg)
               (detected_changes (target_records w 0 (cfg_targets cfg))))
             = length (cfg_targets cfg)
         \<and> (\<forall>i < length (cfg_targets cfg).
              url (updateConfigValues (cfg_targets cfg)
                     (detected_changes (target_records w 0 (cfg_targets cfg))) ! i)
                = url (cfg_targets cfg ! i)
              \<and> css_selector (updateConfigValues (cfg_targets cfg)
                     (detected_changes (target_records w 0 (cfg_targets cfg))) ! i)
                = css_selector (cfg_targets cfg ! i))
         \<and> (\<forall>i k c.
              i < length (cfg_targets cfg) \<and> k < length (cfg_targets cfg)
              \<and> entry_key (cfg_targets cfg ! i) = entry_key (cfg_targets cfg ! k)
              \<and> target_outcome w k (cfg_targets cfg ! k) = Inr c \<and> hasChanged c
              \<and> (\<forall>j. k < j \<and> j < length (cfg_targets cfg)
                       \<and> entry_key (cfg_targets cfg ! j) = entry_key (cfg_targets cfg ! k)
                     \<longrightarrow> \<not> changed_at w j (cfg_targets cfg ! j))
              \<longrightarrow> current_value (updateConfigValues (cfg_targets cfg)
                     (detected_changes (target_records w 0 (cfg_targets cfg))) ! i)
                   = newValue c)
         \<and> (\<forall>i < length (cfg_targets cfg).
              (\<forall>k < length (cfg_targets cfg).
                  entry_key (cfg_targets cfg ! k) = entry_key (cfg_targets cfg ! i)
                  \<longrightarrow> \<not> changed_at w k (cfg_targets cfg ! k))
              \<longrightarrow> updateConfigValues (cfg_targets cfg)
                     (detected_changes (target_records w 0 (cfg_targets cfg))) ! i
                   = cfg_targets cfg ! i)
         \<and> (\<forall>k e c. target_outcome w k e = Inr c \<longrightarrow>
              (\<exists>p raw. newPage_result (browser_at w k) = Inr p
                 \<and> textContent_result p = Inr (Some raw)
                 \<and> newValue c = JStr (trim raw) \<and> oldValue c = current_value e
                 \<and> entry c = Some e))"
proof -
  let ?ts = "cfg_targets cfg"
  let ?cs = "detected_changes (target_records w 0 ?ts)"
  let ?wfl = "use_config_webhook cfg (initialize wh)"
  let ?loop = "snd (targets_loop w 0 ?ts [] ?wfl)"
  let ?up = "updateAndPersist (fs w) ?ts ?cs"
  have b: "execute_body sw w (initialize wh) = processMonitoringTargets w ?ts ?wfl"
    using assms(2,4,5) by (rule body_started)
  have nn: "slackNotifier ?wfl = None" using assms(1,3) by (rule no_webhook)
  have v: "visited w 0 ?ts = length ?ts" by (rule visited_all) (use assms(6) in simp)
  have p: "processMonitoringTargets w ?ts ?wfl = notify_and_persist w ?ts ?cs ?loop"
    using assms(6) by (rule pmt_completed)
  have ok: "fs_ok (fs w) \<Longrightarrow>
      ?up = (Inr (updateConfigValues ?ts ?cs),
             [(file_content (fs w))\<lparr>cfg_targets := updateConfigValues ?ts ?cs\<rparr>])"
    by (rule updateAndPersist_ok)
  have ko: "\<not> fs_ok (fs w) \<Longrightarrow> snd ?up = [] \<and> (\<exists>err. fst ?up = Inl err)"
    by (rule updateAndPersist_fails)
  have pe1: "(case fst ?up of Inr _ \<Rightarrow> [PersistEnd] | Inl _ \<Rightarrow> [])
      = (if fs_ok (fs w) then [PersistEnd] else [])"
    using ok ko by (cases "fs_ok (fs w)") auto
  have ev: "events (snd (execute sw w wh)) =
           map TargetAttempt [0 ..< length ?ts]
           @ PersistStart ?cs # (if fs_ok (fs w) then [PersistEnd] else [])"
    unfolding execute_fields b pmt_completed_events [OF assms(6)] nn pe1
    using assms(7) by (simp add: init_fields)
  have no: "filter is_notify (events (snd (execute sw w wh))) = []"
    unfolding ev by (simp add: filter_attempts)
  have rs: "detected_changes (results (snd (execute sw w wh))) = ?cs"
    unfolding execute_fields b pmt_results v by (simp add: init_fields)
  have le: "errors ?loop = target_errors w 0 ?ts"
    using loop_errors [of w 0 ?ts "[]" ?wfl] by (simp add: v init_fields)
  have pe: "errors (snd (processMonitoringTargets w ?ts ?wfl)) =
      target_errors w 0 ?ts
      @ (case fst ?up of
           Inr _ \<Rightarrow> [] | Inl err \<Rightarrow> [error_record err persistence_context])"
    unfolding p nap_errors le using assms(7)
    by (simp add: error_record_def split: sum.splits)
  have pf: "fst (processMonitoringTargets w ?ts ?wfl) =
      (case fst ?up of Inr _ \<Rightarrow> Inr () | Inl err \<Rightarrow> Inl err)"
    unfolding p nap_fst using assms(7) by simp
  have er: "errors (snd (execute sw w wh)) =
             target_errors w 0 ?ts
             @ (case fst ?up of
                  Inr _ \<Rightarrow> []
                | Inl err \<Rightarrow> [error_record err persistence_context,
                               error_record err workflow_context])"
    unfolding execute_errors b pe pf by (simp split: sum.splits)
  have sv: "saved (snd (execute sw w wh)) = snd ?up"
    unfolding execute_saved b pmt_completed_saved [OF assms(6)]
    using assms(7) by (simp add: init_saved)
  have good: "fs_ok (fs w) \<longrightarrow>
              fst (execute sw w wh) = Inr ()
              \<and> errors (snd (execute sw w wh)) = target_errors w 0 ?ts
              \<and> saved (snd (execute sw w wh)) =
                  [(file_content (fs w))\<lparr>cfg_targets := updateConfigValues ?ts ?cs\<rparr>]"
  proof
    assume a: "fs_ok (fs w)"
    have "fst (execute_body sw w (initialize wh)) = Inr ()"
      unfolding b pf by (simp add: ok [OF a])
    then have 1: "fst (execute sw w wh) = Inr ()" by (rule execute_ok)
    have 2: "errors (snd (execute sw w wh)) = target_errors w 0 ?ts"
      unfolding er by (simp add: ok [OF a])
    have 3: "saved (snd (execute sw w wh)) =
                  [(file_content (fs w))\<lparr>cfg_targets := updateConfigValues ?ts ?cs\<rparr>]"
      unfolding sv by (simp add: ok [OF a])
    from 1 2 3 show "fst (execute sw w wh) = Inr ()
              \<and> errors (snd (execute sw w wh)) = target_errors w 0 ?ts
              \<and> saved (snd (execute sw w wh)) =
                  [(file_content (fs w))\<lparr>cfg_targets := updateConfigValues ?ts ?cs\<rparr>]"
      by blast
  qed
  have bad: "\<not> fs_ok (fs w) \<longrightarrow> saved (snd (execute sw w wh)) = []"
    unfolding sv using ko by blast
  have len: "length (updateConfigValues ?ts ?cs) = length ?ts"
    by (rule updateConfigValues_length)
  have key: "\<forall>i < length ?ts.
              url (updateConfigValues ?ts ?cs ! i) = url (?ts ! i)
              \<and> css_selector (updateConfigValues ?ts ?cs ! i) = css_selector (?ts ! i)"
    by (simp add: updateConfigValues_nth apply_change_fields)
  have new: "\<forall>i k c.
              i < length ?ts \<and> k < length ?ts
              \<and> entry_key (?ts ! i) = entry_key (?ts ! k)
              \<and> target_outcome w k (?ts ! k) = Inr c \<and> hasChanged c
              \<and> (\<forall>j. k < j \<and> j < length ?ts \<and> entry_key (?ts ! j) = entry_key (?ts ! k)
                     \<longrightarrow> \<not> changed_at w j (?ts ! j))
              \<longrightarrow> current_value (updateConfigValues ?ts ?cs ! i) = newValue c"
  proof (intro allI impI)
    fix i k c
    assume a: "i < length ?ts \<and> k < length ?ts
              \<and> entry_key (?ts ! i) = entry_key (?ts ! k)
              \<and> target_outcome w k (?ts ! k) = Inr c \<and> hasChanged c
              \<and> (\<forall>j. k < j \<and> j < length ?ts \<and> entry_key (?ts ! j) = entry_key (?ts ! k)
                     \<longrightarrow> \<not> changed_at w j (?ts ! j))"
    show "current_value (updateConfigValues ?ts ?cs ! i) = newValue c"
      by (rule written_value_last [of i ?ts k w c]) (use a in blast)+
  qed
  have old: "\<forall>i < length ?ts.
              (\<forall>k < length ?ts. entry_key (?ts ! k) = entry_key (?ts ! i)
                  \<longrightarrow> \<not> changed_at w k (?ts ! k))
              \<longrightarrow> updateConfigValues ?ts ?cs ! i = ?ts ! i"
    using written_value_kept [of _ ?ts w] by blast
  have val: "\<forall>k e c. target_outcome w k e = Inr c \<longrightarrow>
              (\<exists>p raw. newPage_result (browser_at w k) = Inr p
                 \<and> textContent_result p = Inr (Some raw)
                 \<and> newValue c = JStr (trim raw) \<and> oldValue c = current_value e
                 \<and> entry c = Some e)"
    using outcome_value by blast
  from ev no rs er good bad len key new old val show ?thesis by blast
qed

lemma steady_fs_ok: "fs_ok (fs steady_world)"
  by (simp add: fs_ok_def steady_world_def)

theorem C10_no_webhook_amended_witness:
  "events (snd (execute (startup_ok example_config) steady_world None))
     = [TargetAttempt 0, PersistStart [example_change], PersistEnd]
   \<and> errors (snd (execute (startup_ok example_config) steady_world None)) = []
   \<and> fst (execute (startup_ok example_config) steady_world None) = Inr ()
   \<and> saved (snd (execute (startup_ok example_config) steady_world None))
       = [\<lparr>cfg_targets = [\<lparr>url = ''u1'', css_selector = ''#p'',
                             current_value = JStr ''$18.49''\<rparr>],
           slack_webhook = None\<rparr>]"
proof -
  have 1: "\<not> truthy None" by (simp add: truthy_def)
  have 2: "loadConfig_result (startup_ok example_config) = Inr example_config"
    by (simp add: startup_ok_def)
  have 3: "\<not> truthy (slack_webhook example_config)"
    by (simp add: example_config_def truthy_def)
  have 4: "launch_error (startup_ok example_config) = None"
    "connect_error (startup_ok example_config) = None"
    by (simp_all add: startup_ok_def)
  have t: "cfg_targets example_config = [example_entry]" by (simp add: example_config_def)
  have 5: "\<forall>k < length (cfg_targets example_config).
      \<not> stops_at steady_world k (cfg_targets example_config ! k)"
    by (simp add: t steady_continues)
  have 6: "detected_changes (target_records steady_world 0 (cfg_targets example_config)) \<noteq> []"
    by (simp add: t steady_changes)
  have e: "target_errors steady_world 0 [example_entry] = []"
    by (simp add: target_errors_def steady_outcome)
  have u: "(file_content (fs steady_world))
             \<lparr>cfg_targets := updateConfigValues [example_entry] [example_change]\<rparr>
      = \<lparr>cfg_targets = [\<lparr>url = ''u1'', css_selector = ''#p'',
                             current_value = JStr ''$18.49''\<rparr>],
           slack_webhook = None\<rparr>"
    by (simp add: steady_world_def example_config_def updateConfigValues_def apply_change_def
        example_change_def example_entry_def entry_key_def)
  from C10_no_webhook_amended [OF 1 2 3 4 5 6]
  show ?thesis
    by (simp add: t steady_changes steady_fs_ok steady_persist e u)
qed

end
